(* ===== verification/Prelude.thy ===== *)
theory Prelude
  imports Main "HOL-Library.Word" "HOL-Library.AList" "HOL-Library.List_Lexorder"
    "HOL-Library.Char_ord" "HOL-Library.Multiset"
begin

text \<open>
  Shared vocabulary of the development: the machine integers of the Rust code, results as sums,
  the two kinds of map the code uses (a hash map as an association list whose order is
  irrelevant, a B-tree map as a strictly sorted one) and the generic lemmas about them.
\<close>

named_theorems res_simps \<open>evaluation of results and error mapping\<close>
named_theorems word_sat \<open>saturating arithmetic read as naturals\<close>

section \<open>Machine integers\<close>

type_synonym u8 = "8 word"
type_synonym u32 = "32 word"
type_synonym u64 = "64 word"
type_synonym i32 = "32 word"

text \<open>\<open>saturating_sub\<close> of the standard library.\<close>

definition saturating_sub :: "'a::len word \<Rightarrow> 'a word \<Rightarrow> 'a word" where
  "saturating_sub a b = (if b \<le> a then a - b else 0)"

lemma unat_saturating_sub [word_sat]: "unat (saturating_sub a b) = unat a - unat b"
  by (auto simp: saturating_sub_def unat_sub word_le_nat_alt)

lemma saturating_sub_le [simp]: "saturating_sub a b \<le> a"
  by (simp add: word_le_nat_alt unat_saturating_sub)

lemma saturating_sub_less_iff:
  "x < saturating_sub a b \<longleftrightarrow> unat x + unat b < unat a"
  by (auto simp: word_less_nat_alt unat_saturating_sub)

lemma unat_of_nat_u64 [word_sat]: "n < 2 ^ 64 \<Longrightarrow> unat (of_nat n :: u64) = n"
  by (simp add: unsigned_of_nat take_bit_nat_eq_self)

lemma unat_of_nat_u32 [word_sat]: "n < 2 ^ 32 \<Longrightarrow> unat (of_nat n :: u32) = n"
  by (simp add: unsigned_of_nat take_bit_nat_eq_self)

section \<open>Results\<close>

text \<open>\<open>Inl\<close> is \<open>Err\<close>, \<open>Inr\<close> is \<open>Ok\<close>.\<close>

definition map_err :: "('e \<Rightarrow> 'f) \<Rightarrow> 'e + 'a \<Rightarrow> 'f + 'a" where
  "map_err f r = (case r of Inl e \<Rightarrow> Inl (f e) | Inr a \<Rightarrow> Inr a)"

definition and_then :: "'e + 'a \<Rightarrow> ('a \<Rightarrow> 'e + 'b) \<Rightarrow> 'e + 'b" where
  "and_then r f = (case r of Inl e \<Rightarrow> Inl e | Inr a \<Rightarrow> f a)"

lemma map_err_simps [simp, res_simps]:
  "map_err f (Inl e) = Inl (f e)" "map_err f (Inr a) = Inr a"
  by (simp_all add: map_err_def)

lemma and_then_simps [simp, res_simps]:
  "and_then (Inl e) f = Inl e" "and_then (Inr a) f = f a"
  by (simp_all add: and_then_def)

lemma map_err_Inr_iff [simp]: "map_err f r = Inr a \<longleftrightarrow> r = Inr a"
  by (cases r) auto

lemma and_then_Inr_iff: "and_then r f = Inr b \<longleftrightarrow> (\<exists>a. r = Inr a \<and> f a = Inr b)"
  by (cases r) auto

text \<open>The operator \<open>?\<close> in stateful code: stop at an error, keeping the state reached.\<close>

definition try_then :: "('e + 'a) \<times> 's \<Rightarrow> ('a \<Rightarrow> 's \<Rightarrow> ('e + 'b) \<times> 's) \<Rightarrow> ('e + 'b) \<times> 's" where
  "try_then m f = (case m of (Inl e, s) \<Rightarrow> (Inl e, s) | (Inr a, s) \<Rightarrow> f a s)"

lemma try_then_simps [simp, res_simps]:
  "try_then (Inl e, s) f = (Inl e, s)" "try_then (Inr a, s) f = f a s"
  by (simp_all add: try_then_def)

lemma try_then_invariant:
  assumes "P (snd m)" and "\<And>a s. m = (Inr a, s) \<Longrightarrow> P s \<Longrightarrow> P (snd (f a s))"
  shows "P (snd (try_then m f))"
  using assms by (cases m; cases "fst m") auto

lemma try_then_InrE:
  assumes "try_then m f = (Inr b, s')"
  obtains a s where "m = (Inr a, s)" "f a s = (Inr b, s')"
  using assms by (cases m; cases "fst m") auto

section \<open>Hash maps\<close>

text \<open>
  A \<open>HashMap\<close> is an association list with distinct keys; the order of the list stands for the
  unspecified iteration order. \<open>insert\<close>, \<open>remove\<close> and \<open>get\<close> are \<open>AList.update\<close>,
  \<open>AList.delete\<close> and \<open>map_of\<close>.
\<close>

type_synonym ('k, 'v) hash_map = "('k \<times> 'v) list"

lemma map_of_update_eq [simp]: "map_of (AList.update k v m) = (map_of m)(k \<mapsto> v)"
  by (rule update_conv')

lemma map_of_delete_eq [simp]: "map_of (AList.delete k m) = (map_of m)(k := None)"
  by (rule delete_conv')

lemma distinct_keys_update [simp]:
  "distinct (map fst m) \<Longrightarrow> distinct (map fst (AList.update k v m))"
  by (rule distinct_update)

lemma distinct_keys_delete [simp]:
  "distinct (map fst m) \<Longrightarrow> distinct (map fst (AList.delete k m))"
  by (rule distinct_delete)

lemma map_of_map_values:
  "map_of (map (\<lambda>(k, v). (k, f v)) m) = map_option f \<circ> map_of m"
  by (induction m) auto

lemma map_of_map_snd [simp]:
  "map_of (map (\<lambda>kv. (fst kv, f (snd kv))) m) k = map_option f (map_of m k)"
  by (induction m) auto

lemma find_append:
  "find P (xs @ ys) = (case find P xs of None \<Rightarrow> find P ys | Some x \<Rightarrow> Some x)"
  by (induction xs) auto

lemma map_of_zip_keys_None:
  "map_of (zip (map f xs) xs) i = None \<longleftrightarrow> i \<notin> f ` set xs"
  by (induction xs) auto

lemma find_rev_distinct:
  "distinct (map f xs) \<Longrightarrow> find (\<lambda>x. f x = i) (rev xs) = map_of (zip (map f xs) xs) i"
proof (induction xs)
  case (Cons x xs)
  have "map_of (zip (map f xs) xs) i = None" if "f x = i"
    using Cons.prems that by (auto simp: map_of_zip_keys_None)
  with Cons show ?case by (cases "f x = i"; cases "map_of (zip (map f xs) xs) i") (simp_all add: find_append map_of_zip_keys_None [THEN iffD2])
qed simp

section \<open>B-tree maps\<close>

text \<open>
  A \<open>BTreeMap\<close> is an association list strictly sorted by key. Building one from an iterator
  inserts the entries in turn, so for equal keys the later entry wins.
\<close>

type_synonym ('k, 'v) btree_map = "('k \<times> 'v) list"

fun btree_insert :: "'k::linorder \<Rightarrow> 'v \<Rightarrow> ('k, 'v) btree_map \<Rightarrow> ('k, 'v) btree_map" where
  "btree_insert k v [] = [(k, v)]"
| "btree_insert k v ((k', v') # m) =
     (if k < k' then (k, v) # (k', v') # m
      else if k = k' then (k, v) # m
      else (k', v') # btree_insert k v m)"

definition btree_collect :: "('k::linorder \<times> 'v) list \<Rightarrow> ('k, 'v) btree_map" where
  "btree_collect kvs = foldl (\<lambda>m (k, v). btree_insert k v m) [] kvs"

definition btree_ok :: "('k::linorder, 'v) btree_map \<Rightarrow> bool" where
  "btree_ok m \<longleftrightarrow> sorted_wrt (<) (map fst m)"

lemma keys_btree_insert [simp]: "fst ` set (btree_insert k v m) = insert k (fst ` set m)"
  by (induction k v m rule: btree_insert.induct) auto

lemma btree_ok_Nil [simp]: "btree_ok []"
  by (simp add: btree_ok_def)

lemma btree_ok_Cons:
  "btree_ok (p # m) \<longleftrightarrow> (\<forall>k \<in> fst ` set m. fst p < k) \<and> btree_ok m"
  by (simp add: btree_ok_def)

lemma btree_ok_insert [simp]: "btree_ok m \<Longrightarrow> btree_ok (btree_insert k v m)"
proof (induction k v m rule: btree_insert.induct)
  case (1 k v)
  then show ?case by (simp add: btree_ok_Cons)
next
  case (2 k v k' v' m)
  then have "\<forall>x \<in> fst ` set m. k' < x" and "btree_ok m" by (auto simp: btree_ok_Cons)
  with 2 show ?case by (auto simp only: btree_insert.simps btree_ok_Cons keys_btree_insert
      list.set fst_conv image_insert split: if_split) force+
qed

lemma map_of_btree_insert [simp]: "map_of (btree_insert k v m) = (map_of m)(k \<mapsto> v)"
  if "btree_ok m"
  using that
proof (induction k v m rule: btree_insert.induct)
  case (2 k v k' v' m)
  then show ?case by (auto simp: btree_ok_Cons fun_eq_iff)
qed simp

lemma btree_ok_distinct: "btree_ok m \<Longrightarrow> distinct (map fst m)"
  by (auto simp: btree_ok_def strict_sorted_iff)

text \<open>A strictly sorted association list is determined by the map it stands for.\<close>

lemma alist_of_keys:
  "distinct (map fst m) \<Longrightarrow> map (\<lambda>k. (k, the (map_of m k))) (map fst m) = m"
  by (auto intro!: map_idI simp: comp_def)

lemma btree_unique:
  assumes "btree_ok m" and "btree_ok m'" and eq: "map_of m = map_of m'"
  shows "m = m'"
proof -
  have "fst ` set m = fst ` set m'"
    by (metis eq dom_map_of_conv_image_fst)
  then have keys: "map fst m = map fst m'"
    using assms(1,2) unfolding btree_ok_def by (intro strict_sorted_equal) simp_all
  have "m = map (\<lambda>k. (k, the (map_of m k))) (map fst m)"
    using assms(1) by (simp only: alist_of_keys btree_ok_distinct)
  also have "\<dots> = map (\<lambda>k. (k, the (map_of m' k))) (map fst m')"
    by (simp only: keys eq)
  also have "\<dots> = m'"
    using assms(2) by (simp only: alist_of_keys btree_ok_distinct)
  finally show ?thesis .
qed

text \<open>Collecting the entries of a map into a B-tree does not depend on the iteration order.\<close>

lemma btree_collect_gen:
  assumes "btree_ok acc"
  shows "btree_ok (foldl (\<lambda>m (k, v). btree_insert k v m) acc kvs) \<and>
    map_of (foldl (\<lambda>m (k, v). btree_insert k v m) acc kvs) = map_of acc ++ map_of (rev kvs)"
  using assms
  by (induction kvs arbitrary: acc) (auto simp: map_add_def fun_eq_iff split: option.splits)

lemma btree_ok_collect [simp]: "btree_ok (btree_collect kvs)"
  by (simp add: btree_collect_def btree_collect_gen)

lemma map_of_rev_distinct:
  assumes "distinct (map fst kvs)"
  shows "map_of (rev kvs) = map_of kvs"
  using assms by (intro map_of_inject_set [THEN iffD2]) (auto simp: rev_map [symmetric])

lemma map_of_btree_collect:
  "distinct (map fst kvs) \<Longrightarrow> map_of (btree_collect kvs) = map_of kvs"
  by (simp add: btree_collect_def btree_collect_gen map_of_rev_distinct)

lemma btree_collect_perm:
  assumes "mset kvs = mset m" and "btree_ok m"
  shows "btree_collect kvs = m"
proof (rule btree_unique)
  have "distinct (map fst kvs)"
    using assms by (metis btree_ok_distinct mset_eq_imp_distinct_iff mset_map)
  moreover have "set kvs = set m" using assms(1) by (rule mset_eq_setD)
  ultimately show "map_of (btree_collect kvs) = map_of m"
    using assms(2) by (simp add: map_of_btree_collect map_of_inject_set btree_ok_distinct)
qed (use assms in simp_all)

end
