(* ===== verification/F64.thy ===== *)
theory F64
  imports Complex_Main Prelude "HOL-Library.Log_Nat" "HOL-Library.Code_Target_Numeral"
begin

text \<open>
  The \<open>f64\<close> of Rust: IEEE 754 binary64 with round to nearest, ties to even. A finite value keeps
  its sign, integer significand and exponent, so every operation below computes on integers and
  agrees with the hardware bit for bit (NaN payloads apart). The lemmas show that the rounding
  is exact on representable values and monotone, which is what the threshold tests of the
  program rest on.
\<close>

section \<open>Representation\<close>

text \<open>\<open>Finite s m e\<close> is \<open>(-1)^s * m * 2^e\<close>; \<open>Infinity True\<close> is minus infinity.\<close>

datatype f64 = NaN | Infinity bool | Finite bool nat int

definition f64_zero :: f64 where
  "f64_zero = Finite False 0 (-1074)"

text \<open>The canonical encodings: normal numbers, and subnormals at the smallest exponent.\<close>

fun f64_ok :: "f64 \<Rightarrow> bool" where
  "f64_ok (Finite s m e) \<longleftrightarrow> m < 2 ^ 53 \<and> -1074 \<le> e \<and> e \<le> 971 \<and> (2 ^ 52 \<le> m \<or> e = -1074)"
| "f64_ok _ \<longleftrightarrow> True"

fun is_finite :: "f64 \<Rightarrow> bool" where
  "is_finite (Finite s m e) \<longleftrightarrow> True"
| "is_finite _ \<longleftrightarrow> False"

section \<open>Rounding a ratio of naturals\<close>

definition scale2 :: "int \<Rightarrow> nat \<Rightarrow> nat \<Rightarrow> nat \<times> nat" where
  "scale2 k n d = (if 0 \<le> k then (n * 2 ^ nat k, d) else (n, d * 2 ^ nat (- k)))"

text \<open>The integer part of the base 2 logarithm of \<open>n / d\<close>.\<close>

definition ilog2_ratio :: "nat \<Rightarrow> nat \<Rightarrow> int" where
  "ilog2_ratio n d =
     (let k = int (floorlog 2 n) - int (floorlog 2 d); (n', d') = scale2 (- k) n d
      in if d' \<le> n' then k else k - 1)"

text \<open>The integer nearest to \<open>n / d\<close>, the even one on a tie.\<close>

definition rne :: "nat \<Rightarrow> nat \<Rightarrow> nat" where
  "rne n d =
     (let q = n div d; r = n mod d
      in if 2 * r < d then q else if d < 2 * r then q + 1 else if even q then q else q + 1)"

text \<open>Pack a rounded significand: renormalise after a carry, overflow to infinity.\<close>

definition pack :: "bool \<Rightarrow> nat \<Rightarrow> int \<Rightarrow> f64" where
  "pack s m e =
     (let (m', e') = (if m = 2 ^ 53 then (2 ^ 52, e + 1) else (m, e))
      in if 971 < e' then Infinity s else Finite s m' e')"

definition round_ratio :: "bool \<Rightarrow> nat \<Rightarrow> nat \<Rightarrow> f64" where
  "round_ratio s n d =
     (if n = 0 then Finite s 0 (-1074)
      else let e = max (-1074) (ilog2_ratio n d - 52); (n', d') = scale2 (- e) n d
           in pack s (rne n' d') e)"

section \<open>The operations the program uses\<close>

text \<open>\<open>x as f64\<close> for \<open>x: u64\<close> and \<open>u32\<close>, and decimal literals \<open>n / d\<close>.\<close>

definition f64_of_nat :: "nat \<Rightarrow> f64" where
  "f64_of_nat n = round_ratio False n 1"

definition f64_of_u64 :: "u64 \<Rightarrow> f64" where
  "f64_of_u64 w = f64_of_nat (unat w)"

definition f64_of_u32 :: "u32 \<Rightarrow> f64" where
  "f64_of_u32 w = f64_of_nat (unat w)"

definition f64_lit :: "nat \<Rightarrow> nat \<Rightarrow> f64" where
  "f64_lit n d = round_ratio False n d"

fun f64_div :: "f64 \<Rightarrow> f64 \<Rightarrow> f64" where
  "f64_div (Finite s m e) (Finite s' m' e') =
     (if m' = 0 then (if m = 0 then NaN else Infinity (s \<noteq> s'))
      else (let (n, d) = scale2 (e - e') m m' in round_ratio (s \<noteq> s') n d))"
| "f64_div (Finite s m e) (Infinity s') = Finite (s \<noteq> s') 0 (-1074)"
| "f64_div (Infinity s) (Finite s' m' e') = Infinity (s \<noteq> s')"
| "f64_div _ _ = NaN"

fun f64_mul :: "f64 \<Rightarrow> f64 \<Rightarrow> f64" where
  "f64_mul (Finite s m e) (Finite s' m' e') =
     (let (n, d) = scale2 (e + e') (m * m') 1 in round_ratio (s \<noteq> s') n d)"
| "f64_mul (Finite s m e) (Infinity s') = (if m = 0 then NaN else Infinity (s \<noteq> s'))"
| "f64_mul (Infinity s) (Finite s' m' e') = (if m' = 0 then NaN else Infinity (s \<noteq> s'))"
| "f64_mul (Infinity s) (Infinity s') = Infinity (s \<noteq> s')"
| "f64_mul _ _ = NaN"

definition signed_mant :: "bool \<Rightarrow> nat \<Rightarrow> int" where
  "signed_mant s m = (if s then - int m else int m)"

text \<open>Addition: the exact sum over the common exponent, rounded; opposite infinities give NaN.\<close>

fun f64_add :: "f64 \<Rightarrow> f64 \<Rightarrow> f64" where
  "f64_add (Finite s m e) (Finite s' m' e') =
     (let e0 = min e e'; k = signed_mant s m * 2 ^ nat (e - e0) + signed_mant s' m' * 2 ^ nat (e' - e0)
      in if k = 0 then Finite (s \<and> s') 0 (-1074)
         else (let (n, d) = scale2 e0 (nat \<bar>k\<bar>) 1 in round_ratio (k < 0) n d))"
| "f64_add (Finite s m e) (Infinity s') = Infinity s'"
| "f64_add (Infinity s) (Finite s' m' e') = Infinity s"
| "f64_add (Infinity s) (Infinity s') = (if s = s' then Infinity s else NaN)"
| "f64_add _ _ = NaN"

text \<open>The order: false whenever an operand is NaN; zeros of either sign are equal.\<close>

fun f64_le :: "f64 \<Rightarrow> f64 \<Rightarrow> bool" where
  "f64_le (Finite s m e) (Finite s' m' e') \<longleftrightarrow>
     (let e0 = min e e' in signed_mant s m * 2 ^ nat (e - e0) \<le> signed_mant s' m' * 2 ^ nat (e' - e0))"
| "f64_le (Finite s m e) (Infinity s') \<longleftrightarrow> \<not> s'"
| "f64_le (Infinity s) (Finite s' m' e') \<longleftrightarrow> s"
| "f64_le (Infinity s) (Infinity s') \<longleftrightarrow> s \<or> \<not> s'"
| "f64_le _ _ \<longleftrightarrow> False"

fun f64_less :: "f64 \<Rightarrow> f64 \<Rightarrow> bool" where
  "f64_less (Finite s m e) (Finite s' m' e') \<longleftrightarrow>
     (let e0 = min e e' in signed_mant s m * 2 ^ nat (e - e0) < signed_mant s' m' * 2 ^ nat (e' - e0))"
| "f64_less (Finite s m e) (Infinity s') \<longleftrightarrow> \<not> s'"
| "f64_less (Infinity s) (Finite s' m' e') \<longleftrightarrow> s"
| "f64_less (Infinity s) (Infinity s') \<longleftrightarrow> s \<and> \<not> s'"
| "f64_less _ _ \<longleftrightarrow> False"

instantiation f64 :: ord
begin

definition less_eq_f64 :: "f64 \<Rightarrow> f64 \<Rightarrow> bool" where
  "less_eq_f64 = f64_le"

definition less_f64 :: "f64 \<Rightarrow> f64 \<Rightarrow> bool" where
  "less_f64 = f64_less"

instance ..

end

lemmas f64_ord_defs = less_eq_f64_def less_f64_def

text \<open>\<open>Duration::as_secs_f64\<close> of a number of nanoseconds.\<close>

definition as_secs_f64 :: "nat \<Rightarrow> f64" where
  "as_secs_f64 ns = f64_add (f64_of_nat (ns div 10 ^ 9)) (f64_div (f64_of_nat (ns mod 10 ^ 9)) (f64_of_nat (10 ^ 9)))"

text \<open>\<open>x as u64\<close>: truncation towards zero, saturating at both ends, NaN to 0.\<close>

fun f64_to_u64 :: "f64 \<Rightarrow> u64" where
  "f64_to_u64 NaN = 0"
| "f64_to_u64 (Infinity s) = (if s then 0 else - 1)"
| "f64_to_u64 (Finite s m e) =
     (if s then 0 else (let (n, d) = scale2 e m 1 in of_nat (min (n div d) (2 ^ 64 - 1))))"

text \<open>\<open>f64::max\<close>: the other operand when one is NaN.\<close>

definition f64_max :: "f64 \<Rightarrow> f64 \<Rightarrow> f64" where
  "f64_max a b = (if a = NaN then b else if b = NaN then a else if a \<le> b then b else a)"

section \<open>Values\<close>

definition f64_one :: f64 where
  "f64_one = Finite False (2 ^ 52) (-52)"

fun fval :: "f64 \<Rightarrow> real" where
  "fval (Finite s m e) = (if s then - 1 else 1) * real m * 2 powi e"
| "fval _ = 0"

lemma powi_pos [simp]: "(0::real) < 2 powi e"
  by (simp add: zero_less_power_int)

lemma powi_nonneg [simp]: "(0::real) \<le> 2 powi e"
  by (simp add: order_less_imp_le)

lemma powi_less_iff [simp]: "(2::real) powi a < 2 powi b \<longleftrightarrow> a < b"
  using power_int_strict_increasing [of a b "2::real"]
    power_int_increasing [of b a "2::real"] by force

lemma powi_le_iff [simp]: "(2::real) powi a \<le> 2 powi b \<longleftrightarrow> a \<le> b"
  by (simp flip: not_less)

lemma powi_plus: "(2::real) powi (a + b) = 2 powi a * 2 powi b"
  by (rule power_int_add) simp

lemma powi_nat: "0 \<le> e \<Longrightarrow> (2::real) ^ nat e = 2 powi e"
  by (simp add: power_int_def)

lemma powi_numeral_nat: "(2::real) ^ n = 2 powi int n"
  by (simp add: power_int_def)

section \<open>Correctness of the rounding\<close>

lemma scale2_pos: "scale2 k n d = (n', d') \<Longrightarrow> 0 < d \<Longrightarrow> 0 < d'"
  by (auto simp: scale2_def split: if_splits)

lemma scale2_val:
  assumes "scale2 k n d = (n', d')"
  shows "real n' / real d' = (real n / real d) * 2 powi k"
  using assms
  by (auto simp: scale2_def power_int_def field_simps split: if_splits)

lemma floorlog2_bounds:
  assumes "0 < n"
  shows "2 powi (int (floorlog 2 n) - 1) \<le> real n" and "real n < 2 powi int (floorlog 2 n)"
proof -
  have b: "2 ^ (floorlog 2 n - 1) \<le> n" "n < 2 ^ floorlog 2 n"
    using floorlog_bounds [of n 2] assms by simp_all
  have "0 < floorlog 2 n"
    using assms by (simp add: floorlog_def)
  then have "(2::real) powi (int (floorlog 2 n) - 1) = real (2 ^ (floorlog 2 n - 1))"
    by (simp add: power_int_def nat_diff_distrib)
  then show "2 powi (int (floorlog 2 n) - 1) \<le> real n"
    using b(1) by (metis of_nat_le_iff)
  have "real n < real (2 ^ floorlog 2 n)" using b(2) by (simp only: of_nat_less_iff)
  then show "real n < 2 powi int (floorlog 2 n)"
    by simp
qed

lemma ilog2_ratio_bounds:
  assumes "0 < n" and "0 < d"
  shows "2 powi ilog2_ratio n d \<le> real n / real d"
    and "real n / real d < 2 powi (ilog2_ratio n d + 1)"
proof -
  define k where "k = int (floorlog 2 n) - int (floorlog 2 d)"
  obtain n' d' where s: "scale2 (- k) n d = (n', d')" by fastforce
  have pos: "0 < d'" using scale2_pos [OF s assms(2)] .
  have v: "real n' / real d' = (real n / real d) * 2 powi (- k)" by (rule scale2_val [OF s])
  have le: "d' \<le> n' \<longleftrightarrow> 2 powi k \<le> real n / real d"
  proof -
    have "d' \<le> n' \<longleftrightarrow> 1 \<le> real n' / real d'" using pos by (simp add: field_simps)
    also have "\<dots> \<longleftrightarrow> 2 powi k \<le> real n / real d"
      using assms by (simp add: v power_int_minus pos_le_divide_eq field_simps)
    finally show ?thesis .
  qed
  have k: "ilog2_ratio n d = (if d' \<le> n' then k else k - 1)"
    by (simp add: ilog2_ratio_def k_def [symmetric] s Let_def)
  have "real n / real d < 2 powi int (floorlog 2 n) / 2 powi (int (floorlog 2 d) - 1)"
    using floorlog2_bounds [OF assms(1)] floorlog2_bounds [OF assms(2)] assms
    by (intro frac_less) auto
  also have "\<dots> = 2 powi (k + 1)"
    by (simp add: k_def power_int_diff [symmetric] algebra_simps del: power_int_of_nat)
  finally have up: "real n / real d < 2 powi (k + 1)" .
  have "2 powi (k - 1) = 2 powi (int (floorlog 2 n) - 1) / (2::real) powi int (floorlog 2 d)"
    by (simp add: k_def power_int_diff [symmetric] algebra_simps del: power_int_of_nat)
  also have "\<dots> \<le> real n / real d"
    using floorlog2_bounds [OF assms(1)] floorlog2_bounds [OF assms(2)] assms
    by (intro frac_le) auto
  finally have low: "2 powi (k - 1) \<le> real n / real d" .
  show "2 powi ilog2_ratio n d \<le> real n / real d"
    using low le by (simp add: k)
  show "real n / real d < 2 powi (ilog2_ratio n d + 1)"
    using up le by (auto simp: k)
qed

lemma rne_bounds: "n div d \<le> rne n d" "rne n d \<le> n div d + 1"
  by (auto simp: rne_def Let_def)

lemma rne_exact: "0 < d \<Longrightarrow> rne (q * d) d = q"
  by (simp add: rne_def)

lemma rne_mono_cross:
  assumes "0 < d" and "0 < d'" and le: "n * d' \<le> n' * d"
  shows "rne n d \<le> rne n' d'"
proof -
  have n: "n = (n div d) * d + n mod d" and n': "n' = (n' div d') * d' + n' mod d'" by simp_all
  have q: "n div d \<le> n' div d'"
  proof -
    have "(n div d) * d * d' \<le> n' * d"
      using le by (metis div_times_less_eq_dividend le_trans mult_le_mono1)
    then have "(n div d) * d' \<le> n'"
      using assms(1) by (metis mult.commute mult.left_commute mult_le_cancel1)
    then show ?thesis using assms(2) by (simp add: less_eq_div_iff_mult_less_eq)
  qed
  show ?thesis
  proof (cases "n div d = n' div d'")
    case False
    then show ?thesis using q rne_bounds [of n d] rne_bounds [of n' d'] by linarith
  next
    case True
    define r r' where "r = n mod d" and "r' = n' mod d'"
    have "((n div d) * d + r) * d' \<le> ((n div d) * d' + r') * d"
      using le n n' True unfolding r_def r'_def by metis
    then have c: "r * d' \<le> r' * d" by (simp add: algebra_simps)
    have up: "d' < 2 * r'" if "d < 2 * r"
    proof (rule ccontr)
      assume "\<not> d' < 2 * r'"
      then have "(2 * r') * d \<le> d' * d" by (intro mult_le_mono1) simp
      also have "\<dots> < (2 * r) * d'"
        using that assms(2) by (subst mult.commute) (intro mult_less_mono1)
      also have "\<dots> \<le> (2 * r') * d" using c by simp
      finally show False by simp
    qed
    have tie: "d' \<le> 2 * r'" if "d = 2 * r"
    proof -
      have "d * d' \<le> d * (2 * r')" using c that by (simp add: algebra_simps)
      then show ?thesis using assms(1) mult_le_cancel1 by blast
    qed
    show ?thesis
      using up tie True unfolding rne_def Let_def r_def [symmetric] r'_def [symmetric]
      by (cases "d < 2 * r"; cases "d = 2 * r"; cases "even (n div d)") auto
  qed
qed

lemma rne_mono:
  assumes "0 < d" and "0 < d'" and "real n / real d \<le> real n' / real d'"
  shows "rne n d \<le> rne n' d'"
proof (rule rne_mono_cross [OF assms(1,2)])
  have "real n * real d' \<le> real n' * real d"
    using assms by (simp add: field_simps)
  then show "n * d' \<le> n' * d" by (metis of_nat_le_iff of_nat_mult)
qed

lemma rne_le: "0 < d \<Longrightarrow> real n / real d \<le> real q \<Longrightarrow> rne n d \<le> q"
  using rne_mono [of d 1 n q] rne_exact [of 1 q] by simp

lemma rne_ge: "0 < d \<Longrightarrow> real q \<le> real n / real d \<Longrightarrow> q \<le> rne n d"
  using rne_mono [of 1 d q n] rne_exact [of 1 q] by simp

subsection \<open>The order is the order of the values\<close>

lemma signed_scaled:
  assumes "e0 \<le> e"
  shows "real_of_int (signed_mant s m * 2 ^ nat (e - e0)) = fval (Finite s m e) * 2 powi (- e0)"
proof -
  have "(2::real) ^ nat (e - e0) = 2 powi e * 2 powi (- e0)"
    using assms by (simp add: powi_nat power_int_diff power_int_minus field_simps)
  then show ?thesis by (simp add: signed_mant_def)
qed

lemma Finite_le_iff: "Finite s m e \<le> Finite s' m' e' \<longleftrightarrow> fval (Finite s m e) \<le> fval (Finite s' m' e')"
proof -
  define e0 where "e0 = min e e'"
  have "Finite s m e \<le> Finite s' m' e' \<longleftrightarrow>
      real_of_int (signed_mant s m * 2 ^ nat (e - e0)) \<le>
      real_of_int (signed_mant s' m' * 2 ^ nat (e' - e0))"
    unfolding of_int_le_iff by (simp add: less_eq_f64_def Let_def e0_def)
  also have "\<dots> \<longleftrightarrow> fval (Finite s m e) \<le> fval (Finite s' m' e')"
    by (subst (1 2) signed_scaled) (simp_all add: e0_def del: fval.simps)
  finally show ?thesis .
qed

lemma Finite_less_iff: "Finite s m e < Finite s' m' e' \<longleftrightarrow> fval (Finite s m e) < fval (Finite s' m' e')"
proof -
  define e0 where "e0 = min e e'"
  have "Finite s m e < Finite s' m' e' \<longleftrightarrow>
      real_of_int (signed_mant s m * 2 ^ nat (e - e0)) <
      real_of_int (signed_mant s' m' * 2 ^ nat (e' - e0))"
    unfolding of_int_less_iff by (simp add: less_f64_def Let_def e0_def)
  also have "\<dots> \<longleftrightarrow> fval (Finite s m e) < fval (Finite s' m' e')"
    by (subst (1 2) signed_scaled) (simp_all add: e0_def del: fval.simps)
  finally show ?thesis .
qed

lemma Infinity_le [simp]:
  "Finite s m e \<le> Infinity s' \<longleftrightarrow> \<not> s'" "Infinity s \<le> Finite s' m' e' \<longleftrightarrow> s"
  "Infinity s \<le> Infinity s' \<longleftrightarrow> s \<or> \<not> s'"
  by (simp_all add: less_eq_f64_def)

lemma Infinity_less [simp]:
  "Finite s m e < Infinity s' \<longleftrightarrow> \<not> s'" "Infinity s < Finite s' m' e' \<longleftrightarrow> s"
  "Infinity s < Infinity s' \<longleftrightarrow> s \<and> \<not> s'"
  by (simp_all add: less_f64_def)

lemma NaN_ord [simp]: "\<not> NaN \<le> x" "\<not> x \<le> NaN" "\<not> NaN < x" "\<not> x < NaN"
  by (cases x; simp add: f64_ord_defs)+

lemma f64_le_trans: "(a::f64) \<le> b \<Longrightarrow> b \<le> c \<Longrightarrow> a \<le> c"
  by (cases a; cases b; cases c) (auto simp: Finite_le_iff simp del: fval.simps)

lemma f64_not_le_less: "a \<noteq> NaN \<Longrightarrow> b \<noteq> NaN \<Longrightarrow> \<not> a \<le> b \<longleftrightarrow> b < (a::f64)"
  by (cases a; cases b) (auto simp: Finite_le_iff Finite_less_iff simp del: fval.simps)

subsection \<open>Packing\<close>

text \<open>What the rounded significand and its exponent satisfy before packing.\<close>

definition mant_ok :: "nat \<Rightarrow> int \<Rightarrow> bool" where
  "mant_ok m e \<longleftrightarrow> m \<le> 2 ^ 53 \<and> -1074 \<le> e \<and> (2 ^ 52 \<le> m \<or> e = -1074)"

lemma pack_cases:
  assumes "mant_ok m e"
  obtains m' e' where "real m' * 2 powi e' = real m * 2 powi e" "m' < 2 ^ 53" "-1074 \<le> e'"
    "2 ^ 52 \<le> m' \<or> e' = -1074" "pack s m e = (if 971 < e' then Infinity s else Finite s m' e')"
proof (cases "m = 2 ^ 53")
  case True
  then show ?thesis
    using assms that [of "2 ^ 52" "e + 1"] by (simp add: mant_ok_def pack_def powi_plus)
next
  case False
  then show ?thesis
    using assms that [of m e] by (auto simp: mant_ok_def pack_def)
qed

lemma pack_ok: "mant_ok m e \<Longrightarrow> f64_ok (pack s m e)"
  by (erule pack_cases [where s = s]) auto

lemma pack_mono:
  assumes "mant_ok m e" and "mant_ok n f" and le: "real m * 2 powi e \<le> real n * 2 powi f"
  shows "pack False m e \<le> pack False n f"
proof -
  from assms(1) obtain m' e' where m: "real m' * 2 powi e' = real m * 2 powi e" "m' < 2 ^ 53"
      "2 ^ 52 \<le> m' \<or> e' = -1074"
      "pack False m e = (if 971 < e' then Infinity False else Finite False m' e')"
    by (rule pack_cases)
  from assms(2) obtain n' f' where n: "real n' * 2 powi f' = real n * 2 powi f" "n' < 2 ^ 53"
      "2 ^ 52 \<le> n' \<or> f' = -1074"
      "pack False n f = (if 971 < f' then Infinity False else Finite False n' f')"
    by (rule pack_cases)
  have v: "real m' * 2 powi e' \<le> real n' * 2 powi f'" using le m(1) n(1) by simp
  show ?thesis
  proof (cases "971 < e' \<and> f' \<le> 971")
    case True
    then have "2 ^ 52 \<le> m'" using m(3) by simp
    then have "real (2 ^ 52) \<le> real m'" by (simp only: of_nat_le_iff)
    then have "(2::real) powi 52 \<le> real m'" by (simp add: power_int_def)
    moreover have "(2::real) powi 972 \<le> 2 powi e'" unfolding powi_le_iff using True by simp
    ultimately have "(2::real) powi 52 * 2 powi 972 \<le> real m' * 2 powi e'"
      by (intro mult_mono) (simp_all only: powi_nonneg of_nat_0_le_iff)
    also have "\<dots> \<le> real n' * 2 powi f'" by (rule v)
    also have "\<dots> < 2 powi 53 * 2 powi f'"
    proof (rule mult_strict_right_mono)
      have "real n' < real (2 ^ 53)" using n(2) by (simp only: of_nat_less_iff)
      then show "real n' < 2 powi 53" by (simp add: power_int_def)
    qed simp
    also have "\<dots> \<le> 2 powi 53 * 2 powi 971"
      using True by (intro mult_left_mono) (simp_all only: powi_nonneg powi_le_iff simp_thms)
    finally have "(2::real) powi (52 + 972) < 2 powi (53 + 971)" by (simp only: powi_plus)
    then show ?thesis by (simp only: powi_less_iff)
  next
    case False
    then show ?thesis using m(4) n(4) v by (auto simp: Finite_le_iff)
  qed
qed

subsection \<open>The rounding function\<close>

text \<open>The exponent and the rounded significand of a positive ratio.\<close>

definition rexp :: "nat \<Rightarrow> nat \<Rightarrow> int" where
  "rexp n d = max (-1074) (ilog2_ratio n d - 52)"

definition rmant :: "nat \<Rightarrow> nat \<Rightarrow> nat" where
  "rmant n d = (let (n', d') = scale2 (- rexp n d) n d in rne n' d')"

lemma round_ratio_pack:
  "0 < n \<Longrightarrow> round_ratio s n d = pack s (rmant n d) (rexp n d)"
  by (simp add: round_ratio_def rmant_def rexp_def Let_def split: prod.splits)

lemma rmant_ge:
  assumes "0 < d" and "real q * 2 powi rexp n d \<le> real n / real d"
  shows "q \<le> rmant n d"
proof -
  obtain n' d' where s: "scale2 (- rexp n d) n d = (n', d')" by fastforce
  have "real q \<le> real n' / real d'"
    using assms by (simp add: scale2_val [OF s] power_int_minus field_simps)
  then show ?thesis
    using rne_ge scale2_pos [OF s assms(1)] by (simp add: rmant_def s)
qed

lemma rmant_le:
  assumes "0 < d" and "real n / real d \<le> real q * 2 powi rexp n d"
  shows "rmant n d \<le> q"
proof -
  obtain n' d' where s: "scale2 (- rexp n d) n d = (n', d')" by fastforce
  have "real n' / real d' \<le> real q"
    using assms by (simp add: scale2_val [OF s] power_int_minus field_simps)
  then show ?thesis
    using rne_le scale2_pos [OF s assms(1)] by (simp add: rmant_def s)
qed

lemma rmant_mono:
  assumes "0 < d" "0 < d'" "real n / real d \<le> real n' / real d'" "rexp n d = rexp n' d'"
  shows "rmant n d \<le> rmant n' d'"
proof -
  obtain a b where s: "scale2 (- rexp n d) n d = (a, b)" by fastforce
  obtain a' b' where s': "scale2 (- rexp n' d') n' d' = (a', b')" by fastforce
  have "real a / real b \<le> real a' / real b'"
    unfolding scale2_val [OF s] scale2_val [OF s'] assms(4)
    using assms(3) by (intro mult_right_mono) simp_all
  then have "rne a b \<le> rne a' b'"
    using rne_mono scale2_pos [OF s assms(1)] scale2_pos [OF s' assms(2)] by blast
  then show ?thesis by (simp add: rmant_def s s')
qed

lemma mant_ok_round:
  assumes "0 < n" and "0 < d"
  shows "mant_ok (rmant n d) (rexp n d)"
proof -
  let ?k = "ilog2_ratio n d"
  have "real n / real d \<le> 2 powi (?k + 1)"
    using ilog2_ratio_bounds(2) [OF assms] by simp
  also have "\<dots> \<le> 2 powi (53 + rexp n d)" unfolding powi_le_iff by (simp add: rexp_def)
  also have "\<dots> = real (2 ^ 53) * 2 powi rexp n d" unfolding powi_plus by (simp add: power_int_def)
  finally have up: "rmant n d \<le> 2 ^ 53" using rmant_le assms(2) by blast
  have low: "2 ^ 52 \<le> rmant n d" if "rexp n d \<noteq> -1074"
  proof (rule rmant_ge [OF assms(2)])
    have "rexp n d = ?k - 52" using that by (simp add: rexp_def)
    then have "real (2 ^ 52) * 2 powi rexp n d = 2 powi (52 + (?k - 52))"
      unfolding powi_plus by (simp add: power_int_def)
    then show "real (2 ^ 52) * 2 powi rexp n d \<le> real n / real d"
      using ilog2_ratio_bounds(1) [OF assms] by simp
  qed
  show ?thesis using up low by (auto simp: mant_ok_def rexp_def)
qed

lemma round_ratio_ok: "0 < d \<Longrightarrow> f64_ok (round_ratio s n d)"
  by (cases "n = 0") (simp add: round_ratio_def, simp add: round_ratio_pack pack_ok mant_ok_round)

text \<open>Rounding is monotone: a larger ratio never rounds to a smaller double.\<close>

lemma rounded_mono:
  assumes n: "0 < n" "0 < d" and n': "0 < n'" "0 < d'" and le: "real n / real d \<le> real n' / real d'"
  shows "real (rmant n d) * 2 powi rexp n d \<le> real (rmant n' d') * 2 powi rexp n' d'"
proof -
  let ?k = "ilog2_ratio n d" and ?k' = "ilog2_ratio n' d'"
  have "2 powi ?k < (2::real) powi (?k' + 1)"
    using ilog2_ratio_bounds(1) [OF n] ilog2_ratio_bounds(2) [OF n'] le by linarith
  then have kk: "?k \<le> ?k'" by simp
  show ?thesis
  proof (cases "rexp n d = rexp n' d'")
    case True
    then show ?thesis using rmant_mono [OF n(2) n'(2) le] by (simp add: mult_right_mono)
  next
    case False
    with kk have lt: "rexp n d < rexp n' d'" and e': "rexp n' d' = ?k' - 52" and "?k < ?k'"
      by (auto simp: rexp_def)
    define j where "j = nat (?k' - rexp n d)"
    have j: "int j = ?k' - rexp n d" using lt e' by (simp add: j_def)
    have pj: "real (2 ^ j) * 2 powi rexp n d = 2 powi ?k'"
    proof -
      have "real (2 ^ j) = 2 powi int j" by simp
      then show ?thesis by (simp only: j flip: powi_plus) simp
    qed
    have "real n / real d \<le> 2 powi (?k + 1)" using ilog2_ratio_bounds(2) [OF n] by simp
    also have "\<dots> \<le> 2 powi ?k'" unfolding powi_le_iff using \<open>?k < ?k'\<close> by simp
    finally have "rmant n d \<le> 2 ^ j" using rmant_le [OF n(2)] pj by metis
    then have "real (rmant n d) \<le> real (2 ^ j)" by (simp only: of_nat_le_iff)
    then have "real (rmant n d) * 2 powi rexp n d \<le> 2 powi ?k'"
      unfolding pj [symmetric] by (rule mult_right_mono) simp
    also have "\<dots> \<le> real (rmant n' d') * 2 powi rexp n' d'"
    proof -
      have "2 powi ?k' = real (2 ^ 52) * 2 powi rexp n' d'"
        using powi_plus [of 52 "?k' - 52"] unfolding e' by (simp add: power_int_def)
      moreover have "2 ^ 52 \<le> rmant n' d'"
        using mant_ok_round [OF n'] lt by (auto simp: mant_ok_def rexp_def)
      then have "real (2 ^ 52) \<le> real (rmant n' d')" by (simp only: of_nat_le_iff)
      ultimately show ?thesis by (simp only: mult_right_mono powi_nonneg)
    qed
    finally show ?thesis .
  qed
qed

lemma round_ratio_nonneg: "0 < d \<Longrightarrow> f64_zero \<le> round_ratio False n d"
  by (cases "n = 0")
    (auto simp: round_ratio_def f64_zero_def Finite_le_iff pack_def Let_def split: prod.splits)

theorem round_ratio_mono:
  assumes "0 < d" and "0 < d'" and "n * d' \<le> n' * d"
  shows "round_ratio False n d \<le> round_ratio False n' d'"
proof (cases "n = 0")
  case True
  then show ?thesis using round_ratio_nonneg [OF assms(2), of n']
    by (simp add: round_ratio_def f64_zero_def)
next
  case False
  then have "0 < n'" using assms by (cases "n' = 0") auto
  have "real n * real d' \<le> real n' * real d"
    using assms(3) by (metis of_nat_le_iff of_nat_mult)
  then have "real n / real d \<le> real n' / real d'" using assms by (simp add: field_simps)
  then show ?thesis
    using False \<open>0 < n'\<close> assms
    by (simp add: round_ratio_pack pack_mono mant_ok_round rounded_mono)
qed

text \<open>Rounding is the identity on representable values.\<close>

theorem round_ratio_exact:
  assumes ok: "f64_ok (Finite s m e)" and "0 < m" and "0 < d"
    and v: "real n / real d = real m * 2 powi e"
  shows "round_ratio s n d = Finite s m e"
proof -
  have "0 < real m * 2 powi e" using assms(2) by simp
  then have "0 < real n / real d" by (simp add: v)
  then have n: "0 < n" by (cases "n = 0") auto
  let ?k = "ilog2_ratio n d"
  have e: "rexp n d = e"
  proof (cases "2 ^ 52 \<le> m")
    case True
    have "real (2 ^ 52) \<le> real m" "real m < real (2 ^ 53)"
      using True ok by (simp_all only: of_nat_le_iff of_nat_less_iff f64_ok.simps)
    then have b: "2 powi 52 \<le> real m" "real m < 2 powi 53" by (simp_all add: power_int_def)
    have "2 powi (52 + e) \<le> real n / real d" "real n / real d < 2 powi (53 + e)"
      unfolding v powi_plus using b by simp_all
    then have "(2::real) powi (52 + e) < 2 powi (?k + 1)" "(2::real) powi ?k < 2 powi (53 + e)"
      using ilog2_ratio_bounds [OF n assms(3)] by linarith+
    then have "?k = 52 + e" unfolding powi_less_iff by simp
    then show ?thesis using ok by (simp add: rexp_def)
  next
    case False
    then have "e = -1074" using ok by simp
    have "real m < real (2 ^ 52)" using False by (simp only: of_nat_less_iff)
    then have "real m < 2 powi 52" by (simp add: power_int_def)
    then have "real n / real d < 2 powi (52 + e)" unfolding v powi_plus by simp
    then have "(2::real) powi ?k < 2 powi (52 + e)"
      using ilog2_ratio_bounds(1) [OF n assms(3)] by linarith
    then have "?k < 52 + e" unfolding powi_less_iff .
    then show ?thesis using \<open>e = -1074\<close> by (simp add: rexp_def)
  qed
  have "rmant n d = m"
    using rmant_le [OF assms(3), of n m] rmant_ge [OF assms(3), of m n] v e by simp
  then show ?thesis using ok n e by (simp add: round_ratio_pack pack_def)
qed

section \<open>Conversions and quotients of naturals\<close>

lemma f64_lit_0 [simp]: "f64_lit 0 d = f64_zero"
  by (simp add: f64_lit_def round_ratio_def f64_zero_def)

lemma fval_one_aux: "(4503599627370496::real) * 2 powi - 52 = 1"
  by (simp add: power_int_def power_divide)

lemma fval_one [simp]: "fval f64_one = 1"
  by (simp add: f64_one_def fval_one_aux)

lemma f64_of_nat_one: "f64_of_nat 1 = f64_one"
  unfolding f64_of_nat_def f64_one_def
  by (rule round_ratio_exact) (simp_all add: fval_one_aux)

lemma f64_of_nat_mono: "n \<le> n' \<Longrightarrow> f64_of_nat n \<le> f64_of_nat n'"
  by (simp add: f64_of_nat_def round_ratio_mono)

lemma round_ratio_False_cases:
  obtains m e where "round_ratio False n d = Finite False m e" | "round_ratio False n d = Infinity False"
proof (cases "n = 0")
  case False
  have "(\<exists>m e. pack s a b = Finite s m e) \<or> pack s a b = Infinity s" for s a b
    by (auto simp: pack_def)
  from this [of False "rmant n d" "rexp n d"] show thesis
    using that False by (auto simp: round_ratio_pack)
qed (use that in \<open>simp add: round_ratio_def\<close>)

lemma f64_of_nat_2_64: "f64_of_nat (2 ^ 64) = Finite False (2 ^ 52) 12"
  unfolding f64_of_nat_def by (rule round_ratio_exact) (simp_all add: power_int_def)

lemma f64_of_nat_finite:
  assumes "n \<le> 2 ^ 64"
  obtains m e where "f64_of_nat n = Finite False m e"
proof (rule round_ratio_False_cases [of n 1])
  fix m e
  assume "round_ratio False n 1 = Finite False m e"
  then show thesis using that by (simp add: f64_of_nat_def)
next
  assume "round_ratio False n 1 = Infinity False"
  moreover have "f64_of_nat n \<le> f64_of_nat (2 ^ 64)" using assms by (rule f64_of_nat_mono)
  ultimately show thesis unfolding f64_of_nat_2_64 by (simp add: f64_of_nat_def)
qed

lemma f64_of_nat_pos:
  assumes "f64_of_nat n = Finite False m e" and "0 < n"
  shows "0 < m"
proof -
  have "f64_one \<le> f64_of_nat n"
    using f64_of_nat_mono [of 1 n] assms(2) unfolding f64_of_nat_one by simp
  then have "1 \<le> fval (Finite False m e)"
    unfolding assms(1) f64_one_def Finite_le_iff by (simp add: fval_one_aux)
  then show ?thesis by (cases "m = 0") auto
qed

lemma f64_div_ratio:
  assumes "0 < m'"
  obtains n d where "f64_div (Finite False m e) (Finite False m' e') = round_ratio False n d" "0 < d"
    "real n / real d = fval (Finite False m e) / fval (Finite False m' e')"
proof -
  obtain n d where s: "scale2 (e - e') m m' = (n, d)" by fastforce
  have "real n / real d = fval (Finite False m e) / fval (Finite False m' e')"
    using scale2_val [OF s] by (simp add: power_int_diff)
  then show thesis using that [of n d] s scale2_pos [OF s assms] assms by simp
qed

lemma cross_of_quot:
  "0 < d \<Longrightarrow> 0 < d' \<Longrightarrow> real n / real d \<le> real n' / real d' \<Longrightarrow> n * d' \<le> n' * d"
  by (simp add: field_simps flip: of_nat_mult)

lemma f64_div_mono:
  assumes "0 < m'" and "Finite False m e \<le> Finite False k f"
  shows "f64_div (Finite False m e) (Finite False m' e') \<le> f64_div (Finite False k f) (Finite False m' e')"
proof -
  obtain n d where nd: "f64_div (Finite False m e) (Finite False m' e') = round_ratio False n d" "0 < d"
    "real n / real d = fval (Finite False m e) / fval (Finite False m' e')"
    by (rule f64_div_ratio [OF assms(1)])
  obtain n2 d2 where nd2: "f64_div (Finite False k f) (Finite False m' e') = round_ratio False n2 d2"
    "0 < d2" "real n2 / real d2 = fval (Finite False k f) / fval (Finite False m' e')"
    by (rule f64_div_ratio [OF assms(1)])
  have "real n / real d \<le> real n2 / real d2"
    unfolding nd(3) nd2(3)
    using assms(2) [unfolded Finite_le_iff] by (rule divide_right_mono) simp
  then show ?thesis
    unfolding nd(1) nd2(1) using nd(2) nd2(2) by (intro round_ratio_mono cross_of_quot)
qed

lemma f64_div_self: "0 < m \<Longrightarrow> f64_div (Finite False m e) (Finite False m e) = f64_one"
proof -
  assume m: "0 < m"
  then have "f64_div (Finite False m e) (Finite False m e) = round_ratio False m m"
    by (simp add: scale2_def)
  also have "\<dots> = f64_one"
    unfolding f64_one_def by (rule round_ratio_exact) (use m in \<open>simp_all add: fval_one_aux\<close>)
  finally show ?thesis .
qed

text \<open>The quotient of two byte counts, as the program computes its fractions.\<close>

definition u64_ratio :: "u64 \<Rightarrow> u64 \<Rightarrow> f64" where
  "u64_ratio a b = f64_div (f64_of_u64 a) (f64_of_u64 b)"

lemma u64_finite:
  obtains m e where "f64_of_u64 w = Finite False m e"
proof (rule f64_of_nat_finite [of "unat w"])
  show "unat w \<le> 2 ^ 64" using unsigned_less [of w, where ?'a = nat] by simp
qed (use that in \<open>simp add: f64_of_u64_def\<close>)

lemma u64_finite_pos:
  assumes "0 < w"
  obtains m e where "f64_of_u64 w = Finite False m e" "0 < m"
proof (rule u64_finite [of w])
  fix m e
  assume f: "f64_of_u64 w = Finite False m e"
  have "0 < unat w" using assms by (simp add: word_less_nat_alt)
  then have "0 < m" by (rule f64_of_nat_pos [OF f [unfolded f64_of_u64_def]])
  with f show thesis by (rule that)
qed

lemma f64_of_u64_mono: "a \<le> b \<Longrightarrow> f64_of_u64 a \<le> f64_of_u64 b"
  by (simp add: f64_of_u64_def f64_of_nat_mono word_le_nat_alt)

lemma u64_ratio_mono:
  assumes "0 < t" and "a \<le> b"
  shows "u64_ratio a t \<le> u64_ratio b t"
proof -
  obtain m e where t: "f64_of_u64 t = Finite False m e" "0 < m" by (rule u64_finite_pos [OF assms(1)])
  obtain k f where a: "f64_of_u64 a = Finite False k f" by (rule u64_finite)
  obtain l g where b: "f64_of_u64 b = Finite False l g" by (rule u64_finite)
  show ?thesis
    unfolding u64_ratio_def t(1) a b
    using f64_of_u64_mono [OF assms(2)] t(2) a b by (intro f64_div_mono) simp_all
qed

lemma u64_ratio_self: "0 < t \<Longrightarrow> u64_ratio t t = f64_one"
  by (rule u64_finite_pos [of t]) (simp_all add: u64_ratio_def f64_div_self del: f64_div.simps)

lemma u64_ratio_le_one: "0 < t \<Longrightarrow> a \<le> t \<Longrightarrow> u64_ratio a t \<le> f64_one"
  using u64_ratio_mono [of t a t] by (simp add: u64_ratio_self)

lemma u64_ratio_nonneg:
  assumes "0 < t"
  shows "f64_zero \<le> u64_ratio a t"
proof -
  obtain m e where t: "f64_of_u64 t = Finite False m e" "0 < m" by (rule u64_finite_pos [OF assms(1)])
  obtain k f where a: "f64_of_u64 a = Finite False k f" by (rule u64_finite)
  obtain n d where "f64_div (Finite False k f) (Finite False m e) = round_ratio False n d" "0 < d"
    by (rule f64_div_ratio [OF t(2)])
  then show ?thesis by (simp add: u64_ratio_def t(1) a round_ratio_nonneg del: f64_div.simps)
qed

lemma f64_ge_not_NaN: "(a::f64) \<le> b \<Longrightarrow> a \<noteq> NaN \<and> b \<noteq> NaN"
  by (cases a; cases b) auto

section \<open>The literals of the program\<close>

lemma lit_90: "f64_lit 90 100 = Finite False 8106479329266893 (-53)"
  by code_simp

lemma lit_85: "f64_lit 85 100 = Finite False 7656119366529843 (-53)"
  by code_simp

lemma lit_2: "f64_lit 2 1 = Finite False 4503599627370496 (-51)"
  by code_simp

lemma lit_100: "f64_lit 100 1 = Finite False 7036874417766400 (-46)"
  by code_simp

lemma lit_10: "f64_lit 10 100 = Finite False 7205759403792794 (-56)"
  by code_simp

section \<open>Comparison with a tenth\<close>

text \<open>Naturals below \<open>2 ^ 53\<close> are represented exactly.\<close>

lemma f64_of_nat_exact:
  assumes "0 < n" and "n < 2 ^ 53"
  obtains m e where "f64_of_nat n = Finite False m e" "0 < m" "fval (Finite False m e) = real n"
proof -
  define l where "l = floorlog 2 n"
  have b: "2 ^ (l - 1) \<le> n" "n < 2 ^ l" "0 < l"
    using floorlog_bounds [of n 2] assms(1) by (simp_all add: l_def floorlog_def)
  have l: "l \<le> 53"
  proof (rule ccontr)
    assume "\<not> l \<le> 53"
    then have "(2::nat) ^ 53 \<le> 2 ^ (l - 1)" by (intro power_increasing) simp_all
    then show False using b assms(2) by linarith
  qed
  let ?m = "n * 2 ^ (53 - l)" and ?e = "int l - 53"
  have "?m < 2 ^ l * 2 ^ (53 - l)" using b by simp
  then have hi: "?m < 2 ^ 53" using l by (simp flip: power_add)
  have "2 ^ (l - 1) * 2 ^ (53 - l) \<le> ?m" using b by simp
  then have lo: "2 ^ 52 \<le> ?m" using l b(3) by (simp flip: power_add)
  have v: "real ?m * 2 powi ?e = real n"
  proof -
    have "(2::real) ^ (53 - l) = 2 powi (53 - int l)" using l by (simp add: powi_numeral_nat of_nat_diff)
    then have "(2::real) ^ (53 - l) * 2 powi ?e = 1" by (simp flip: powi_plus)
    then show ?thesis by simp
  qed
  have "round_ratio False n 1 = Finite False ?m ?e"
  proof (rule round_ratio_exact)
    show "f64_ok (Finite False ?m ?e)" using hi lo l by simp
  qed (use v assms in simp_all)
  then show thesis using that [of ?m ?e] v assms by (simp add: f64_of_nat_def)
qed

text \<open>
  A tenth: below \<open>2 ^ 53\<close> the comparison of a quotient with the literal \<open>0.1\<close> is the comparison of
  the integers, although neither side is exact.
\<close>

lemma tenth_below: "round_ratio False 7205759403792793 (2 ^ 56) = Finite False 7205759403792793 (-56)"
  by (rule round_ratio_exact) (simp_all add: power_int_def power_divide)

lemma cross_of_eq:
  "0 < d \<Longrightarrow> 0 < d' \<Longrightarrow> real n / real d = real n' / real d' \<Longrightarrow> n * d' = n' * d"
  by (simp add: field_simps flip: of_nat_mult)

lemma u64_ratio_exact:
  assumes "0 < a" and "0 < t" and "unat a < 2 ^ 53" and "unat t < 2 ^ 53"
  obtains n d where "u64_ratio a t = round_ratio False n d" "0 < d" "real n / real d = real (unat a) / real (unat t)"
proof -
  have p: "0 < unat a" "0 < unat t" using assms by (simp_all add: word_less_nat_alt)
  obtain m e where a: "f64_of_nat (unat a) = Finite False m e" "0 < m" "fval (Finite False m e) = real (unat a)"
    by (rule f64_of_nat_exact [OF p(1) assms(3)])
  obtain k f where t: "f64_of_nat (unat t) = Finite False k f" "0 < k" "fval (Finite False k f) = real (unat t)"
    by (rule f64_of_nat_exact [OF p(2) assms(4)])
  show thesis
    by (rule f64_div_ratio [OF t(2), of m e f])
      (use that a t in \<open>simp add: u64_ratio_def f64_of_u64_def del: f64_div.simps fval.simps\<close>)
qed

lemma less_tenthD:
  assumes "0 < t" and "unat t < 2 ^ 53" and "10 * unat a < unat t"
  shows "u64_ratio a t < f64_lit 10 100"
proof (cases "a = 0")
  case True
  obtain m e where t: "f64_of_u64 t = Finite False m e" "0 < m" by (rule u64_finite_pos [OF assms(1)])
  have "f64_of_u64 0 = f64_zero" by (simp add: f64_of_u64_def f64_of_nat_def round_ratio_def f64_zero_def)
  then show ?thesis using t
    by (simp add: True u64_ratio_def lit_10 f64_zero_def scale2_def round_ratio_def less_f64_def
        signed_mant_def split: prod.splits)
next
  case False
  then have "0 < a" by (simp add: word_gt_0)
  moreover have "unat a < 2 ^ 53" using assms by linarith
  ultimately obtain n d where r: "u64_ratio a t = round_ratio False n d" "0 < d"
    "real n / real d = real (unat a) / real (unat t)"
    using u64_ratio_exact [of a t] assms by blast
  have "0 < unat t" using assms(3) by linarith
  then have q: "n * unat t = unat a * d" by (rule cross_of_eq [OF r(2) _ r(3)])
  have "10 * unat a + 1 \<le> unat t" "unat t < 9007199254740992" using assms(2,3) by simp_all
  then have "unat a * 72057594037927936 \<le> 7205759403792793 * unat t" by linarith
  then have "unat a * 2 ^ 56 \<le> 7205759403792793 * unat t" by simp
  then have "d * (unat a * 2 ^ 56) \<le> d * (7205759403792793 * unat t)" by (rule mult_le_mono2)
  moreover have "d * (unat a * 2 ^ 56) = (n * 2 ^ 56) * unat t"
    using arg_cong [OF q, of "\<lambda>x. x * 2 ^ 56"] by (simp only: ac_simps)
  ultimately have "(n * 2 ^ 56) * unat t \<le> (7205759403792793 * d) * unat t"
    by (simp only: ac_simps)
  then have "n * 2 ^ 56 \<le> 7205759403792793 * d" using \<open>0 < unat t\<close> by simp
  then have "u64_ratio a t \<le> Finite False 7205759403792793 (-56)"
    unfolding r(1) tenth_below [symmetric] using r(2) by (intro round_ratio_mono) simp_all
  moreover obtain m e where "u64_ratio a t = Finite False m e"
    using round_ratio_False_cases [of n d] r(1) calculation
    by (metis f64_le.simps(4) f64_le.simps(3) less_eq_f64_def)
  ultimately show ?thesis
    by (simp add: lit_10 Finite_le_iff Finite_less_iff)
qed

lemma less_tenth_iff:
  assumes "0 < t" and "unat t < 2 ^ 53"
  shows "u64_ratio a t < f64_lit 10 100 \<longleftrightarrow> 10 * unat a < unat t"
proof
  assume lt: "u64_ratio a t < f64_lit 10 100"
  show "10 * unat a < unat t"
  proof (rule ccontr)
    assume ge: "\<not> 10 * unat a < unat t"
    have "f64_lit 10 100 \<le> u64_ratio a t"
    proof (cases "a \<le> t")
      case True
      then have "unat a < 2 ^ 53" using assms(2) by (simp add: word_le_nat_alt)
      moreover have a: "0 < a" using ge assms(1) by (cases "a = 0") (auto simp: word_less_nat_alt)
      ultimately obtain n d where r: "u64_ratio a t = round_ratio False n d" "0 < d"
        "real n / real d = real (unat a) / real (unat t)"
        using u64_ratio_exact [of a t] assms by blast
      have "0 < unat t" using assms(1) by (simp add: word_less_nat_alt)
      then have q: "n * unat t = unat a * d" by (rule cross_of_eq [OF r(2) _ r(3)])
      have "d * unat t \<le> d * (10 * unat a)" using ge by (intro mult_le_mono2) simp
      also have "\<dots> = 10 * n * unat t" using q by simp
      finally have "d * unat t \<le> 10 * n * unat t" .
      then have "10 * d \<le> n * 100" using \<open>0 < unat t\<close> by simp
      then show ?thesis
        unfolding r(1) f64_lit_def using r(2) by (intro round_ratio_mono) simp_all
    next
      case False
      then have "f64_one \<le> u64_ratio a t"
        using u64_ratio_mono [of t t a] assms(1) by (simp add: u64_ratio_self)
      moreover have "f64_lit 10 100 \<le> f64_one"
        by (simp add: lit_10 f64_one_def less_eq_f64_def signed_mant_def)
      ultimately show ?thesis by (rule f64_le_trans [rotated])
    qed
    moreover have "f64_lit 10 100 \<noteq> NaN" "u64_ratio a t \<noteq> NaN"
      using lt by (auto simp: lit_10)
    ultimately show False using lt f64_not_le_less by blast
  qed
qed (rule less_tenthD [OF assms])

section \<open>Sums of non-negative doubles\<close>

lemma f64_add_ratio:
  assumes "0 < m \<or> 0 < m'"
  obtains n d where "f64_add (Finite False m e) (Finite False m' e') = round_ratio False n d" "0 < d"
    "real n / real d = fval (Finite False m e) + fval (Finite False m' e')"
proof -
  define e0 where "e0 = min e e'"
  define k where "k = m * 2 ^ nat (e - e0) + m' * 2 ^ nat (e' - e0)"
  have pos: "0 < k" using assms by (auto simp: k_def)
  obtain n d where s: "scale2 e0 k 1 = (n, d)" by fastforce
  have "f64_add (Finite False m e) (Finite False m' e') = round_ratio False n d"
  proof -
    have i: "signed_mant False m * 2 ^ nat (e - e0) + signed_mant False m' * 2 ^ nat (e' - e0) = int k"
      by (simp add: signed_mant_def k_def)
    show ?thesis using pos s by (simp add: Let_def flip: e0_def) (simp add: i Let_def)
  qed
  moreover have "0 < d" using scale2_pos [OF s] by simp
  moreover have "real n / real d = fval (Finite False m e) + fval (Finite False m' e')"
  proof -
    have sh: "real (x * 2 ^ nat (f - e0)) * 2 powi e0 = real x * 2 powi f" if "e0 \<le> f" for x f
    proof -
      have "(2::real) ^ nat (f - e0) * 2 powi e0 = 2 powi f"
        using that by (simp add: powi_nat flip: powi_plus)
      then show ?thesis by (simp add: mult.assoc)
    qed
    have "real n / real d = real k * 2 powi e0" using scale2_val [OF s] by simp
    also have "\<dots> = real m * 2 powi e + real m' * 2 powi e'"
      unfolding k_def of_nat_add distrib_right
      by (subst (1 2) sh) (simp_all add: e0_def)
    finally show ?thesis by simp
  qed
  ultimately show thesis by (rule that)
qed

text \<open>A ratio that is not tiny rounds to a positive double.\<close>

lemma small_ratio: "round_ratio False 1 (2 ^ 30) = Finite False (2 ^ 52) (-82)"
  by (rule round_ratio_exact) (simp_all add: power_int_def power_divide)

lemma small_val: "fval (Finite False (2 ^ 52) (-82)) = 1 / 2 ^ 30"
  by (simp add: power_int_def power_divide)

lemma round_ratio_small:
  assumes "0 < d" and "1 / 2 ^ 30 \<le> real n / real d"
  shows "Finite False (2 ^ 52) (-82) \<le> round_ratio False n d"
  unfolding small_ratio [symmetric]
  by (rule round_ratio_mono) (use assms cross_of_quot [of "2 ^ 30" d 1 n] in simp_all)

lemma small_pos:
  assumes "Finite False (2 ^ 52) (-82) \<le> x"
  shows "f64_zero < x"
proof (cases x)
  case (Finite s m e)
  have "0 < fval (Finite False (2 ^ 52) (-82))" by simp
  also have "\<dots> \<le> fval (Finite s m e)" using assms unfolding Finite Finite_le_iff .
  finally show ?thesis unfolding Finite f64_zero_def Finite_less_iff by simp
qed (use assms in \<open>auto simp: f64_zero_def\<close>)

text \<open>Seconds and nanoseconds: \<open>q + r / 10 ^ 9\<close> is positive unless both are zero.\<close>

lemma secs_pos:
  assumes "0 < q \<or> 0 < r" and "q < 2 ^ 53" and "r < 10 ^ 9"
  shows "f64_zero < f64_add (f64_of_nat q) (f64_div (f64_of_nat r) (f64_of_nat (10 ^ 9)))"
proof -
  obtain k f where g: "f64_of_nat (10 ^ 9) = Finite False k f" "0 < k" "fval (Finite False k f) = real (10 ^ 9)"
    by (rule f64_of_nat_exact [of "10 ^ 9"]) simp_all
  have ex: "\<exists>m e. f64_of_nat x = Finite False m e \<and> fval (Finite False m e) = real x" if "x < 2 ^ 53" for x
  proof (cases "x = 0")
    case True
    then show ?thesis by (simp add: f64_of_nat_def round_ratio_def)
  next
    case False
    then show ?thesis using that by (metis f64_of_nat_exact gr0I)
  qed
  obtain m e where q: "f64_of_nat q = Finite False m e" "fval (Finite False m e) = real q"
    using ex assms(2) by blast
  have "r < 2 ^ 53" using assms(3) by simp
  then obtain i j where r: "f64_of_nat r = Finite False i j" "fval (Finite False i j) = real r"
    using ex by blast
  obtain n d where nd: "f64_div (Finite False i j) (Finite False k f) = round_ratio False n d" "0 < d"
    "real n / real d = real r / real (10 ^ 9)"
    by (rule f64_div_ratio [OF g(2), of i j f]) (use r g in simp)
  show ?thesis
  proof (rule round_ratio_False_cases [of n d])
    fix x y
    assume xy: "round_ratio False n d = Finite False x y"
    have low: "1 / 2 ^ 30 \<le> fval (Finite False m e) + fval (Finite False x y)"
    proof (cases "0 < q")
      case True
      then have "1 \<le> real q" by simp
      moreover have "0 \<le> fval (Finite False x y)" by simp
      moreover have "1 / 2 ^ 30 \<le> (1 :: real)" by simp
      ultimately show ?thesis unfolding q(2) by linarith
    next
      case False
      then have "1 \<le> real r" using assms(1) by simp
      then have "1 / 2 ^ 30 \<le> real n / real d" unfolding nd(3) by (simp add: field_simps)
      from round_ratio_small [OF nd(2) this] have "Finite False (2 ^ 52) (-82) \<le> Finite False x y"
        unfolding xy .
      then show ?thesis unfolding Finite_le_iff small_val q(2) by simp
    qed
    have "0 < m \<or> 0 < x" using low by (cases "m = 0"; cases "x = 0") simp_all
    then show ?thesis
      using f64_add_ratio [of m x e y] low round_ratio_small small_pos
      unfolding q(1) r(1) g(1) nd(1) xy by metis
  next
    assume "round_ratio False n d = Infinity False"
    then show ?thesis unfolding q(1) r(1) g(1) nd(1) by (simp add: f64_zero_def)
  qed
qed

end
