(* ===== verification/Hpc_Types.thy ===== *)
theory Hpc_Types
  imports F64
begin

text \<open>
  The domain types of \<open>hpc-core/src/types.rs\<close> and the error type of
  \<open>hpc-core/src/error.rs\<close>. A Rust struct is a record whose fields carry a short prefix where
  two structs share a field name; a \<open>String\<close> is the list of its UTF-8 bytes. Errors of other
  crates appear inside \<open>hpc_error\<close> by their display text.
\<close>

section \<open>Time\<close>

text \<open>A \<open>Duration\<close> is its number of nanoseconds.\<close>

type_synonym duration = nat

definition from_secs :: "nat \<Rightarrow> duration" where
  "from_secs s = s * 1000000000"

definition as_secs :: "duration \<Rightarrow> nat" where
  "as_secs d = d div 1000000000"

lemma as_secs_from_secs [simp]: "as_secs (from_secs s) = s"
  by (simp add: as_secs_def from_secs_def)

lemma as_secs_mono: "d \<le> d' \<Longrightarrow> as_secs d \<le> as_secs d'"
  by (simp add: as_secs_def div_le_mono)

text \<open>
  The argument is what \<open>SystemTime::now().duration_since(UNIX_EPOCH)\<close> returned: an error when the
  clock stands before the epoch.
\<close>

definition now_unix :: "'e + duration \<Rightarrow> u64" where
  "now_unix r = (case r of Inl _ \<Rightarrow> 0 | Inr d \<Rightarrow> of_nat (as_secs d))"

section \<open>Nodes\<close>

type_synonym node_id = string

datatype node_role = Unspecified | Storage | Compute | Metadata | Gateway

datatype node_status = Registered | Healthy | Degraded | Unreachable | Draining

record node_info =
  ni_node_id :: node_id
  ni_hostname :: string
  ni_ip_address :: string
  ni_role :: node_role
  ni_cpu_cores :: u32
  ni_total_memory_bytes :: u64
  ni_total_disk_bytes :: u64
  ni_agent_version :: string
  ni_kernel_version :: string
  ni_os :: string
  ni_started_at_unix :: u64
  ni_labels :: "(string, string) btree_map"

section \<open>Metrics\<close>

record cpu_metrics =
  usage_percent :: f64
  per_core_percent :: "f64 list"

record memory_metrics =
  mem_total_bytes :: u64
  mem_used_bytes :: u64
  mem_available_bytes :: u64
  swap_total_bytes :: u64
  swap_used_bytes :: u64

text \<open>\<open>MemoryMetrics::used_fraction\<close>.\<close>

definition mem_used_fraction :: "memory_metrics \<Rightarrow> f64" where
  "mem_used_fraction m =
     (if mem_total_bytes m = 0 then f64_zero
      else f64_div (f64_of_u64 (mem_used_bytes m)) (f64_of_u64 (mem_total_bytes m)))"

record load_metrics =
  load_one :: f64
  load_five :: f64
  load_fifteen :: f64

record disk_metrics =
  disk_device :: string
  disk_mount_point :: string
  disk_fs_type :: string
  disk_total_bytes :: u64
  disk_available_bytes :: u64
  read_bytes_per_sec :: u64
  write_bytes_per_sec :: u64
  io_utilization_percent :: f64

text \<open>\<open>DiskMetrics::used_fraction\<close>.\<close>

definition disk_used_fraction :: "disk_metrics \<Rightarrow> f64" where
  "disk_used_fraction d =
     (if disk_total_bytes d = 0 then f64_zero
      else let used = saturating_sub (disk_total_bytes d) (disk_available_bytes d)
           in f64_div (f64_of_u64 used) (f64_of_u64 (disk_total_bytes d)))"

record network_metrics =
  rx_bytes_per_sec :: u64
  tx_bytes_per_sec :: u64
  rx_errors :: u64
  tx_errors :: u64

record filesystem_metrics =
  fsm_name :: string
  fsm_mount_point :: string
  fsm_mounted :: bool
  fsm_total_bytes :: u64
  fsm_used_bytes :: u64
  inodes_total :: u64
  inodes_used :: u64

record metrics_report =
  mr_node_id :: node_id
  mr_timestamp_unix :: u64
  mr_cpu :: cpu_metrics
  mr_memory :: memory_metrics
  mr_load :: load_metrics
  mr_disks :: "disk_metrics list"
  mr_network :: network_metrics
  mr_filesystems :: "filesystem_metrics list"

text \<open>The derived \<open>Default\<close> values.\<close>

definition default_cpu :: cpu_metrics where
  "default_cpu = \<lparr>usage_percent = f64_zero, per_core_percent = []\<rparr>"

definition default_memory :: memory_metrics where
  "default_memory = \<lparr>mem_total_bytes = 0, mem_used_bytes = 0, mem_available_bytes = 0,
     swap_total_bytes = 0, swap_used_bytes = 0\<rparr>"

definition default_load :: load_metrics where
  "default_load = \<lparr>load_one = f64_zero, load_five = f64_zero, load_fifteen = f64_zero\<rparr>"

definition default_network :: network_metrics where
  "default_network = \<lparr>rx_bytes_per_sec = 0, tx_bytes_per_sec = 0, rx_errors = 0, tx_errors = 0\<rparr>"

section \<open>Commands\<close>

datatype deploy_action = Install | Upgrade | Rollback | Remove

record deploy_spec =
  deployment_id :: string
  ds_action :: deploy_action
  ds_component :: string
  ds_version :: string
  ds_target_path :: string
  ds_options :: "(string, string) btree_map"

datatype fs_action = Mount | Unmount | Remount | Check | Format

record fs_spec =
  fs_command_id :: string
  fs_act :: fs_action
  fs_device :: string
  fs_mount_point :: string
  fs_fs_type :: string
  fs_mount_options :: "string list"
  fs_force :: bool

record command_outcome =
  co_command_id :: string
  co_node_id :: node_id
  co_success :: bool
  co_exit_code :: i32
  co_message :: string
  co_stdout :: string
  co_stderr :: string
  co_completed_at_unix :: u64

section \<open>Node records\<close>

record node_record =
  nr_info :: node_info
  nr_status :: node_status
  nr_last_seen_unix :: u64
  nr_latest_metrics :: "metrics_report option"

text \<open>\<open>NodeRecord::new\<close>; \<open>now\<close> is the result of its \<open>now_unix()\<close> call.\<close>

definition node_record_new :: "u64 \<Rightarrow> node_info \<Rightarrow> node_record" where
  "node_record_new now info = \<lparr>nr_info = info, nr_status = Registered,
     nr_last_seen_unix = now, nr_latest_metrics = None\<rparr>"

section \<open>Benchmark results\<close>

datatype io_pattern = SequentialRead | SequentialWrite | RandomRead | RandomWrite

fun io_pattern_fmt :: "io_pattern \<Rightarrow> string" where
  "io_pattern_fmt SequentialRead = ''sequential_read''"
| "io_pattern_fmt SequentialWrite = ''sequential_write''"
| "io_pattern_fmt RandomRead = ''random_read''"
| "io_pattern_fmt RandomWrite = ''random_write''"

record latency_stats =
  min_us :: u64
  p50_us :: u64
  p90_us :: u64
  p99_us :: u64
  p999_us :: u64
  max_us :: u64
  mean_us :: u64
  samples :: u64

record bench_result =
  br_pattern :: io_pattern
  block_size_bytes :: u64
  br_total_bytes :: u64
  duration_secs :: f64
  throughput_mib_s :: f64
  iops :: f64
  latency :: latency_stats

record bench_report =
  bp_target_path :: string
  bp_started_at_unix :: u64
  bp_results :: "bench_result list"

section \<open>Errors\<close>

datatype hpc_error =
    Io "string option" string
  | ConfigParse string
  | ConfigSerialize string
  | ConfigInvalid string
  | Serde string
  | StoreErr string
  | NotFound string
  | InvalidState string
  | Rpc string
  | MetricsErr string
  | BenchErr string
  | CommandErr string
  | Conversion string
  | Ffi string
  | Diag string

type_synonym 'a result = "hpc_error + 'a"

text \<open>The display text that \<open>thiserror\<close> derives from the \<open>error\<close> attributes.\<close>

fun hpc_error_to_string :: "hpc_error \<Rightarrow> string" where
  "hpc_error_to_string (Io path source) =
     ''i/o error'' @ (case path of None \<Rightarrow> '''' | Some p \<Rightarrow> '' at '' @ p) @ '': '' @ source"
| "hpc_error_to_string (ConfigParse e) = ''failed to parse configuration: '' @ e"
| "hpc_error_to_string (ConfigSerialize e) = ''failed to serialize configuration: '' @ e"
| "hpc_error_to_string (ConfigInvalid m) = ''invalid configuration: '' @ m"
| "hpc_error_to_string (Serde e) = ''serialization error: '' @ e"
| "hpc_error_to_string (StoreErr m) = ''state store error: '' @ m"
| "hpc_error_to_string (NotFound m) = ''not found: '' @ m"
| "hpc_error_to_string (InvalidState m) = ''invalid state: '' @ m"
| "hpc_error_to_string (Rpc m) = ''rpc error: '' @ m"
| "hpc_error_to_string (MetricsErr m) = ''metrics collection error: '' @ m"
| "hpc_error_to_string (BenchErr m) = ''benchmark error: '' @ m"
| "hpc_error_to_string (CommandErr m) = ''command execution failed: '' @ m"
| "hpc_error_to_string (Conversion m) = ''protocol conversion error: '' @ m"
| "hpc_error_to_string (Ffi m) = ''ffi error: '' @ m"
| "hpc_error_to_string (Diag m) = ''diagnostics error: '' @ m"

definition io_at :: "string \<Rightarrow> string \<Rightarrow> hpc_error" where
  "io_at path source = Io (Some path) source"

definition is_retryable :: "hpc_error \<Rightarrow> bool" where
  "is_retryable e = (case e of Rpc _ \<Rightarrow> True | Io _ _ \<Rightarrow> True | _ \<Rightarrow> False)"

section \<open>The fractions stay in the unit interval\<close>

lemma f64_zero_le_one [simp]: "f64_zero \<le> f64_zero" "f64_zero \<le> f64_one"
  by (simp_all add: f64_zero_def f64_one_def Finite_le_iff fval_one_aux)

lemma mem_used_fraction_ratio:
  "mem_used_fraction m =
     (if mem_total_bytes m = 0 then f64_zero else u64_ratio (mem_used_bytes m) (mem_total_bytes m))"
  by (simp add: mem_used_fraction_def u64_ratio_def)

lemma disk_used_fraction_ratio:
  "disk_used_fraction d =
     (if disk_total_bytes d = 0 then f64_zero
      else u64_ratio (saturating_sub (disk_total_bytes d) (disk_available_bytes d)) (disk_total_bytes d))"
  by (simp add: disk_used_fraction_def u64_ratio_def Let_def)

lemma word_pos_iff: "(w::u64) \<noteq> 0 \<Longrightarrow> 0 < w"
  by (simp add: word_neq_0_conv)

lemma mem_used_fraction_nonneg: "f64_zero \<le> mem_used_fraction m"
  by (simp add: mem_used_fraction_ratio u64_ratio_nonneg word_pos_iff)

text \<open>The disk fraction needs no hypothesis: the subtraction saturates.\<close>

lemma disk_used_fraction_bounds:
  "f64_zero \<le> disk_used_fraction d \<and> disk_used_fraction d \<le> f64_one"
  by (simp add: disk_used_fraction_ratio u64_ratio_nonneg u64_ratio_le_one word_pos_iff)

lemma mem_used_fraction_le_one:
  "mem_used_bytes m \<le> mem_total_bytes m \<Longrightarrow> mem_used_fraction m \<le> f64_one"
  by (simp add: mem_used_fraction_ratio u64_ratio_le_one word_pos_iff)

end
