(* ===== verification/Config.thy ===== *)
theory Config
  imports Hpc_Types
begin

text \<open>
  The configuration structs of \<open>hpc-core/src/config.rs\<close>, their defaults and their validation.
  Reading a file and parsing TOML are arguments; so are the texts that \<open>{:?}\<close> gives for a
  duration and \<open>{}\<close> for a double, which only occur inside error messages.
\<close>

section \<open>Loading\<close>

text \<open>\<open>read\<close> is \<open>fs::read_to_string\<close> and \<open>parse\<close> is \<open>toml::from_str\<close>.\<close>

definition load_config ::
  "(string \<Rightarrow> string + string) \<Rightarrow> (string \<Rightarrow> string + 't) \<Rightarrow> string \<Rightarrow> 't result" where
  "load_config read parse path =
     and_then (map_err (io_at path) (read path)) (\<lambda>raw. map_err ConfigParse (parse raw))"

definition load_or_default ::
  "(string \<Rightarrow> bool) \<Rightarrow> (string \<Rightarrow> string + string) \<Rightarrow> (string \<Rightarrow> string + 't) \<Rightarrow> 't \<Rightarrow> string \<Rightarrow>
     't result" where
  "load_or_default exists read parse dflt path =
     (if exists path then load_config read parse path else Inr dflt)"

section \<open>Configuration structs\<close>

record log_config =
  log_filter :: string
  log_json :: bool
  log_with_location :: bool

definition default_log_config :: log_config where
  "default_log_config = \<lparr>log_filter = ''info'', log_json = False, log_with_location = False\<rparr>"

record thresholds =
  cpu_degraded :: f64
  memory_degraded :: f64
  disk_degraded :: f64
  load_per_core_degraded :: f64

definition default_thresholds :: thresholds where
  "default_thresholds = \<lparr>cpu_degraded = f64_lit 90 100, memory_degraded = f64_lit 90 100,
     disk_degraded = f64_lit 85 100, load_per_core_degraded = f64_lit 2 1\<rparr>"

text \<open>A socket address: the four bytes of the IPv4 address and the port.\<close>

datatype socket_addr = SocketV4 "u8 list" "16 word" | SocketV6 "u8 list" "16 word"

definition default_addr :: "16 word \<Rightarrow> socket_addr" where
  "default_addr port = SocketV4 [0, 0, 0, 0] port"

record daemon_config =
  dc_grpc_addr :: socket_addr
  dc_http_addr :: socket_addr
  dc_data_dir :: string
  dc_node_timeout :: duration
  dc_metrics_interval :: duration
  dc_thresholds :: thresholds
  dc_log :: log_config

text \<open>\<open>parse\<close> is \<open>str::parse::<SocketAddr>\<close>, \<open>None\<close> where it fails.\<close>

definition default_daemon_config :: "(string \<Rightarrow> socket_addr option) \<Rightarrow> daemon_config" where
  "default_daemon_config parse = \<lparr>
     dc_grpc_addr = (case parse ''0.0.0.0:7443'' of Some a \<Rightarrow> a | None \<Rightarrow> default_addr 7443),
     dc_http_addr = (case parse ''0.0.0.0:8080'' of Some a \<Rightarrow> a | None \<Rightarrow> default_addr 8080),
     dc_data_dir = ''/var/lib/hpc'',
     dc_node_timeout = from_secs 30,
     dc_metrics_interval = from_secs 10,
     dc_thresholds = default_thresholds,
     dc_log = default_log_config\<rparr>"

text \<open>\<open>Path::join\<close> with one component.\<close>

definition path_join :: "string \<Rightarrow> string \<Rightarrow> string" where
  "path_join base c =
     (if c \<noteq> [] \<and> hd c = CHR ''/'' then c
      else if base = [] \<or> last base = CHR ''/'' then base @ c
      else base @ ''/'' @ c)"

definition store_path :: "daemon_config \<Rightarrow> string" where
  "store_path cfg = path_join (dc_data_dir cfg) ''cluster.redb''"

section \<open>Validation\<close>

text \<open>\<open>(lo..=hi).contains(&v)\<close>.\<close>

definition range_contains :: "'a::ord \<Rightarrow> 'a \<Rightarrow> 'a \<Rightarrow> bool" where
  "range_contains lo hi v \<longleftrightarrow> lo \<le> v \<and> v \<le> hi"

fun validate_fractions :: "(f64 \<Rightarrow> string) \<Rightarrow> (string \<times> f64) list \<Rightarrow> unit result" where
  "validate_fractions fmt [] = Inr ()"
| "validate_fractions fmt ((name, v) # rest) =
     (if \<not> range_contains f64_zero f64_one v
      then Inl (ConfigInvalid (name @ '' must be within 0.0..=1.0, got '' @ fmt v))
      else validate_fractions fmt rest)"

definition thresholds_validate :: "(f64 \<Rightarrow> string) \<Rightarrow> thresholds \<Rightarrow> unit result" where
  "thresholds_validate fmt t = validate_fractions fmt
     [(''cpu_degraded'', cpu_degraded t),
      (''memory_degraded'', memory_degraded t),
      (''disk_degraded'', disk_degraded t)]"

definition daemon_validate ::
  "(duration \<Rightarrow> string) \<Rightarrow> (f64 \<Rightarrow> string) \<Rightarrow> daemon_config \<Rightarrow> unit result" where
  "daemon_validate fmt_dur fmt cfg =
     (if dc_node_timeout cfg < dc_metrics_interval cfg
      then Inl (ConfigInvalid (''node_timeout ('' @ fmt_dur (dc_node_timeout cfg) @
        '') must be >= metrics_interval ('' @ fmt_dur (dc_metrics_interval cfg) @ '')''))
      else thresholds_validate fmt (dc_thresholds cfg))"

section \<open>Agent and monitor\<close>

record agent_config =
  ac_daemon_endpoint :: string
  ac_node_id :: string
  ac_role :: node_role
  ac_labels :: "(string, string) btree_map"
  ac_metrics_interval :: duration
  ac_heartbeat_interval :: duration
  ac_reconnect_backoff :: duration
  ac_allow_exec :: bool
  ac_log :: log_config

definition default_agent_config :: agent_config where
  "default_agent_config = \<lparr>ac_daemon_endpoint = ''http://127.0.0.1:7443'', ac_node_id = [],
     ac_role = Storage, ac_labels = [], ac_metrics_interval = from_secs 10,
     ac_heartbeat_interval = from_secs 5, ac_reconnect_backoff = from_secs 2,
     ac_allow_exec = False, ac_log = default_log_config\<rparr>"

record monitor_config =
  mc_daemon_api :: string
  mc_metrics_addr :: socket_addr
  mc_scrape_interval :: duration
  mc_thresholds :: thresholds
  mc_log :: log_config

definition default_monitor_config :: "(string \<Rightarrow> socket_addr option) \<Rightarrow> monitor_config" where
  "default_monitor_config parse = \<lparr>mc_daemon_api = ''http://127.0.0.1:8080'',
     mc_metrics_addr = (case parse ''0.0.0.0:9090'' of Some a \<Rightarrow> a | None \<Rightarrow> default_addr 9090),
     mc_scrape_interval = from_secs 15, mc_thresholds = default_thresholds,
     mc_log = default_log_config\<rparr>"

section \<open>What validation guarantees\<close>

definition unit_fraction :: "f64 \<Rightarrow> bool" where
  "unit_fraction v \<longleftrightarrow> f64_zero \<le> v \<and> v \<le> f64_one"

lemma unit_fraction_not_NaN: "unit_fraction v \<Longrightarrow> v \<noteq> NaN"
  using f64_ge_not_NaN by (auto simp: unit_fraction_def)

lemma validate_fractions_iff:
  "validate_fractions fmt fs = Inr () \<longleftrightarrow> (\<forall>(name, v) \<in> set fs. unit_fraction v)"
  by (induction fmt fs rule: validate_fractions.induct)
    (auto simp: range_contains_def unit_fraction_def)

lemma validate_fractions_error:
  "validate_fractions fmt fs = Inl e \<Longrightarrow>
     \<exists>name v. (name, v) \<in> set fs \<and> \<not> unit_fraction v \<and>
       e = ConfigInvalid (name @ '' must be within 0.0..=1.0, got '' @ fmt v)"
  by (induction fmt fs rule: validate_fractions.induct)
    (auto simp: range_contains_def unit_fraction_def split: if_splits)

declare validate_fractions.simps [simp del]

lemma unit_fraction_90: "unit_fraction (f64_lit 90 100)"
  by (simp add: lit_90 unit_fraction_def f64_zero_def f64_one_def less_eq_f64_def signed_mant_def)

lemma unit_fraction_85: "unit_fraction (f64_lit 85 100)"
  by (simp add: lit_85 unit_fraction_def f64_zero_def f64_one_def less_eq_f64_def signed_mant_def)

lemma default_thresholds_valid: "thresholds_validate fmt default_thresholds = Inr ()"
  by (simp add: thresholds_validate_def validate_fractions_iff default_thresholds_def
      unit_fraction_90 unit_fraction_85)

text \<open>
  C6: validation accepts a daemon configuration exactly when the liveness window covers a metrics
  interval and the three fractional thresholds lie in the unit interval (so none is NaN); every
  rejection is a \<open>ConfigInvalid\<close>. The load threshold is not checked.
\<close>

theorem daemon_validate_iff:
  "(daemon_validate fmt_dur fmt cfg = Inr () \<longleftrightarrow>
      dc_metrics_interval cfg \<le> dc_node_timeout cfg \<and>
      unit_fraction (cpu_degraded (dc_thresholds cfg)) \<and>
      unit_fraction (memory_degraded (dc_thresholds cfg)) \<and>
      unit_fraction (disk_degraded (dc_thresholds cfg))) \<and>
   (\<forall>e. daemon_validate fmt_dur fmt cfg = Inl e \<longrightarrow> (\<exists>m. e = ConfigInvalid m))"
  by (auto simp: daemon_validate_def thresholds_validate_def validate_fractions_iff
      dest: validate_fractions_error)

theorem daemon_validate_iff_witness:
  "daemon_validate (\<lambda>_. ''-'') (\<lambda>_. ''-'') (default_daemon_config (\<lambda>_. None)) = Inr ()"
  using daemon_validate_iff [of "\<lambda>_. ''-''" "\<lambda>_. ''-''" "default_daemon_config (\<lambda>_. None)"]
  by (simp add: default_daemon_config_def default_thresholds_def unit_fraction_90 unit_fraction_85
      from_secs_def)

end
