(* ===== verification/Proto.thy ===== *)
theory Proto
  imports Hpc_Types
begin

text \<open>
  The protobuf messages of \<open>proto/hpc.proto\<close> and the conversions of \<open>hpc-daemon/src/proto.rs\<close>
  (the agent carries an identical copy). An enum field is the raw \<open>i32\<close> of the wire, a message
  field is an option, a map field is a hash map. The round trips are proved once for the
  interface \<open>wire_codec\<close> and obtained for every message by interpretation.
\<close>

section \<open>Enums on the wire\<close>

datatype pb_node_role = PbRoleUnspecified | PbStorage | PbCompute | PbMetadata | PbGateway

fun pb_node_role_i32 :: "pb_node_role \<Rightarrow> i32" where
  "pb_node_role_i32 PbRoleUnspecified = 0"
| "pb_node_role_i32 PbStorage = 1"
| "pb_node_role_i32 PbCompute = 2"
| "pb_node_role_i32 PbMetadata = 3"
| "pb_node_role_i32 PbGateway = 4"

definition pb_node_role_try_from :: "i32 \<Rightarrow> pb_node_role option" where
  "pb_node_role_try_from v =
     (if v = 0 then Some PbRoleUnspecified else if v = 1 then Some PbStorage
      else if v = 2 then Some PbCompute else if v = 3 then Some PbMetadata
      else if v = 4 then Some PbGateway else None)"

datatype pb_deploy_action = PbDeployUnspecified | PbInstall | PbUpgrade | PbRollback | PbRemove

fun pb_deploy_action_i32 :: "pb_deploy_action \<Rightarrow> i32" where
  "pb_deploy_action_i32 PbDeployUnspecified = 0"
| "pb_deploy_action_i32 PbInstall = 1"
| "pb_deploy_action_i32 PbUpgrade = 2"
| "pb_deploy_action_i32 PbRollback = 3"
| "pb_deploy_action_i32 PbRemove = 4"

definition pb_deploy_action_try_from :: "i32 \<Rightarrow> pb_deploy_action option" where
  "pb_deploy_action_try_from v =
     (if v = 0 then Some PbDeployUnspecified else if v = 1 then Some PbInstall
      else if v = 2 then Some PbUpgrade else if v = 3 then Some PbRollback
      else if v = 4 then Some PbRemove else None)"

datatype pb_fs_action = PbFsUnspecified | PbMount | PbUnmount | PbRemount | PbCheck | PbFormat

fun pb_fs_action_i32 :: "pb_fs_action \<Rightarrow> i32" where
  "pb_fs_action_i32 PbFsUnspecified = 0"
| "pb_fs_action_i32 PbMount = 1"
| "pb_fs_action_i32 PbUnmount = 2"
| "pb_fs_action_i32 PbRemount = 3"
| "pb_fs_action_i32 PbCheck = 4"
| "pb_fs_action_i32 PbFormat = 5"

definition pb_fs_action_try_from :: "i32 \<Rightarrow> pb_fs_action option" where
  "pb_fs_action_try_from v =
     (if v = 0 then Some PbFsUnspecified else if v = 1 then Some PbMount
      else if v = 2 then Some PbUnmount else if v = 3 then Some PbRemount
      else if v = 4 then Some PbCheck else if v = 5 then Some PbFormat else None)"

text \<open>\<open>try_from(v).unwrap_or_default()\<close>: the default of a protobuf enum is its zero value.\<close>

definition unwrap_or :: "'a \<Rightarrow> 'a option \<Rightarrow> 'a" where
  "unwrap_or d x = (case x of None \<Rightarrow> d | Some a \<Rightarrow> a)"

lemma unwrap_or_simps [simp]: "unwrap_or d None = d" "unwrap_or d (Some a) = a"
  by (simp_all add: unwrap_or_def)

definition role_to_pb :: "node_role \<Rightarrow> i32" where
  "role_to_pb r = pb_node_role_i32 (case r of
     Unspecified \<Rightarrow> PbRoleUnspecified | Storage \<Rightarrow> PbStorage | Compute \<Rightarrow> PbCompute
   | Metadata \<Rightarrow> PbMetadata | Gateway \<Rightarrow> PbGateway)"

definition role_from_pb :: "i32 \<Rightarrow> node_role" where
  "role_from_pb v = (case unwrap_or PbRoleUnspecified (pb_node_role_try_from v) of
     PbRoleUnspecified \<Rightarrow> Unspecified | PbStorage \<Rightarrow> Storage | PbCompute \<Rightarrow> Compute
   | PbMetadata \<Rightarrow> Metadata | PbGateway \<Rightarrow> Gateway)"

definition deploy_action_to_pb :: "deploy_action \<Rightarrow> i32" where
  "deploy_action_to_pb a = pb_deploy_action_i32 (case a of
     Install \<Rightarrow> PbInstall | Upgrade \<Rightarrow> PbUpgrade | Rollback \<Rightarrow> PbRollback | Remove \<Rightarrow> PbRemove)"

definition deploy_action_from_pb :: "i32 \<Rightarrow> deploy_action" where
  "deploy_action_from_pb v = (case unwrap_or PbDeployUnspecified (pb_deploy_action_try_from v) of
     PbDeployUnspecified \<Rightarrow> Install | PbInstall \<Rightarrow> Install | PbUpgrade \<Rightarrow> Upgrade
   | PbRollback \<Rightarrow> Rollback | PbRemove \<Rightarrow> Remove)"

definition fs_action_to_pb :: "fs_action \<Rightarrow> i32" where
  "fs_action_to_pb a = pb_fs_action_i32 (case a of
     Mount \<Rightarrow> PbMount | Unmount \<Rightarrow> PbUnmount | Remount \<Rightarrow> PbRemount | Check \<Rightarrow> PbCheck
   | Format \<Rightarrow> PbFormat)"

definition fs_action_from_pb :: "i32 \<Rightarrow> fs_action" where
  "fs_action_from_pb v = (case unwrap_or PbFsUnspecified (pb_fs_action_try_from v) of
     PbFsUnspecified \<Rightarrow> Mount | PbMount \<Rightarrow> Mount | PbUnmount \<Rightarrow> Unmount | PbRemount \<Rightarrow> Remount
   | PbCheck \<Rightarrow> Check | PbFormat \<Rightarrow> Format)"

section \<open>Maps\<close>

definition map_to_btree :: "(string, string) hash_map \<Rightarrow> (string, string) btree_map" where
  "map_to_btree m = btree_collect m"

definition btree_to_map :: "(string, string) btree_map \<Rightarrow> (string, string) hash_map" where
  "btree_to_map m = foldl (\<lambda>h (k, v). AList.update k v h) [] m"

section \<open>Messages\<close>

record pb_cpu_metrics =
  pb_usage_percent :: f64
  pb_per_core_percent :: "f64 list"

definition cpu_from_pb :: "pb_cpu_metrics \<Rightarrow> cpu_metrics" where
  "cpu_from_pb p = \<lparr>usage_percent = pb_usage_percent p,
     per_core_percent = pb_per_core_percent p\<rparr>"

definition cpu_to_pb :: "cpu_metrics \<Rightarrow> pb_cpu_metrics" where
  "cpu_to_pb m = \<lparr>pb_usage_percent = usage_percent m,
     pb_per_core_percent = per_core_percent m\<rparr>"

record pb_memory_metrics =
  pb_mem_total_bytes :: u64
  pb_mem_used_bytes :: u64
  pb_mem_available_bytes :: u64
  pb_swap_total_bytes :: u64
  pb_swap_used_bytes :: u64

definition memory_from_pb :: "pb_memory_metrics \<Rightarrow> memory_metrics" where
  "memory_from_pb p = \<lparr>mem_total_bytes = pb_mem_total_bytes p,
     mem_used_bytes = pb_mem_used_bytes p,
     mem_available_bytes = pb_mem_available_bytes p,
     swap_total_bytes = pb_swap_total_bytes p,
     swap_used_bytes = pb_swap_used_bytes p\<rparr>"

definition memory_to_pb :: "memory_metrics \<Rightarrow> pb_memory_metrics" where
  "memory_to_pb m = \<lparr>pb_mem_total_bytes = mem_total_bytes m,
     pb_mem_used_bytes = mem_used_bytes m,
     pb_mem_available_bytes = mem_available_bytes m,
     pb_swap_total_bytes = swap_total_bytes m,
     pb_swap_used_bytes = swap_used_bytes m\<rparr>"

record pb_load_metrics =
  pb_load_one :: f64
  pb_load_five :: f64
  pb_load_fifteen :: f64

definition load_from_pb :: "pb_load_metrics \<Rightarrow> load_metrics" where
  "load_from_pb p = \<lparr>load_one = pb_load_one p,
     load_five = pb_load_five p,
     load_fifteen = pb_load_fifteen p\<rparr>"

definition load_to_pb :: "load_metrics \<Rightarrow> pb_load_metrics" where
  "load_to_pb m = \<lparr>pb_load_one = load_one m,
     pb_load_five = load_five m,
     pb_load_fifteen = load_fifteen m\<rparr>"

record pb_disk_metrics =
  pb_disk_device :: string
  pb_disk_mount_point :: string
  pb_disk_fs_type :: string
  pb_disk_total_bytes :: u64
  pb_disk_available_bytes :: u64
  pb_read_bytes_per_sec :: u64
  pb_write_bytes_per_sec :: u64
  pb_io_utilization_percent :: f64

definition disk_from_pb :: "pb_disk_metrics \<Rightarrow> disk_metrics" where
  "disk_from_pb p = \<lparr>disk_device = pb_disk_device p,
     disk_mount_point = pb_disk_mount_point p,
     disk_fs_type = pb_disk_fs_type p,
     disk_total_bytes = pb_disk_total_bytes p,
     disk_available_bytes = pb_disk_available_bytes p,
     read_bytes_per_sec = pb_read_bytes_per_sec p,
     write_bytes_per_sec = pb_write_bytes_per_sec p,
     io_utilization_percent = pb_io_utilization_percent p\<rparr>"

definition disk_to_pb :: "disk_metrics \<Rightarrow> pb_disk_metrics" where
  "disk_to_pb m = \<lparr>pb_disk_device = disk_device m,
     pb_disk_mount_point = disk_mount_point m,
     pb_disk_fs_type = disk_fs_type m,
     pb_disk_total_bytes = disk_total_bytes m,
     pb_disk_available_bytes = disk_available_bytes m,
     pb_read_bytes_per_sec = read_bytes_per_sec m,
     pb_write_bytes_per_sec = write_bytes_per_sec m,
     pb_io_utilization_percent = io_utilization_percent m\<rparr>"

record pb_network_metrics =
  pb_rx_bytes_per_sec :: u64
  pb_tx_bytes_per_sec :: u64
  pb_rx_errors :: u64
  pb_tx_errors :: u64

definition network_from_pb :: "pb_network_metrics \<Rightarrow> network_metrics" where
  "network_from_pb p = \<lparr>rx_bytes_per_sec = pb_rx_bytes_per_sec p,
     tx_bytes_per_sec = pb_tx_bytes_per_sec p,
     rx_errors = pb_rx_errors p,
     tx_errors = pb_tx_errors p\<rparr>"

definition network_to_pb :: "network_metrics \<Rightarrow> pb_network_metrics" where
  "network_to_pb m = \<lparr>pb_rx_bytes_per_sec = rx_bytes_per_sec m,
     pb_tx_bytes_per_sec = tx_bytes_per_sec m,
     pb_rx_errors = rx_errors m,
     pb_tx_errors = tx_errors m\<rparr>"

record pb_filesystem_metrics =
  pb_fsm_name :: string
  pb_fsm_mount_point :: string
  pb_fsm_mounted :: bool
  pb_fsm_total_bytes :: u64
  pb_fsm_used_bytes :: u64
  pb_inodes_total :: u64
  pb_inodes_used :: u64

definition filesystem_from_pb :: "pb_filesystem_metrics \<Rightarrow> filesystem_metrics" where
  "filesystem_from_pb p = \<lparr>fsm_name = pb_fsm_name p,
     fsm_mount_point = pb_fsm_mount_point p,
     fsm_mounted = pb_fsm_mounted p,
     fsm_total_bytes = pb_fsm_total_bytes p,
     fsm_used_bytes = pb_fsm_used_bytes p,
     inodes_total = pb_inodes_total p,
     inodes_used = pb_inodes_used p\<rparr>"

definition filesystem_to_pb :: "filesystem_metrics \<Rightarrow> pb_filesystem_metrics" where
  "filesystem_to_pb m = \<lparr>pb_fsm_name = fsm_name m,
     pb_fsm_mount_point = fsm_mount_point m,
     pb_fsm_mounted = fsm_mounted m,
     pb_fsm_total_bytes = fsm_total_bytes m,
     pb_fsm_used_bytes = fsm_used_bytes m,
     pb_inodes_total = inodes_total m,
     pb_inodes_used = inodes_used m\<rparr>"

record pb_node_info =
  pb_ni_node_id :: string
  pb_ni_hostname :: string
  pb_ni_ip_address :: string
  pb_ni_role :: i32
  pb_ni_cpu_cores :: u32
  pb_ni_total_memory_bytes :: u64
  pb_ni_total_disk_bytes :: u64
  pb_ni_agent_version :: string
  pb_ni_kernel_version :: string
  pb_ni_os :: string
  pb_ni_started_at_unix :: u64
  pb_ni_labels :: "(string, string) hash_map"

definition node_info_from_pb :: "pb_node_info \<Rightarrow> node_info" where
  "node_info_from_pb p = \<lparr>ni_node_id = pb_ni_node_id p,
     ni_hostname = pb_ni_hostname p,
     ni_ip_address = pb_ni_ip_address p,
     ni_role = role_from_pb (pb_ni_role p),
     ni_cpu_cores = pb_ni_cpu_cores p,
     ni_total_memory_bytes = pb_ni_total_memory_bytes p,
     ni_total_disk_bytes = pb_ni_total_disk_bytes p,
     ni_agent_version = pb_ni_agent_version p,
     ni_kernel_version = pb_ni_kernel_version p,
     ni_os = pb_ni_os p,
     ni_started_at_unix = pb_ni_started_at_unix p,
     ni_labels = map_to_btree (pb_ni_labels p)\<rparr>"

definition node_info_to_pb :: "node_info \<Rightarrow> pb_node_info" where
  "node_info_to_pb m = \<lparr>pb_ni_node_id = ni_node_id m,
     pb_ni_hostname = ni_hostname m,
     pb_ni_ip_address = ni_ip_address m,
     pb_ni_role = role_to_pb (ni_role m),
     pb_ni_cpu_cores = ni_cpu_cores m,
     pb_ni_total_memory_bytes = ni_total_memory_bytes m,
     pb_ni_total_disk_bytes = ni_total_disk_bytes m,
     pb_ni_agent_version = ni_agent_version m,
     pb_ni_kernel_version = ni_kernel_version m,
     pb_ni_os = ni_os m,
     pb_ni_started_at_unix = ni_started_at_unix m,
     pb_ni_labels = btree_to_map (ni_labels m)\<rparr>"

record pb_deploy_command =
  pb_deployment_id :: string
  pb_ds_action :: i32
  pb_ds_component :: string
  pb_ds_version :: string
  pb_ds_target_path :: string
  pb_ds_options :: "(string, string) hash_map"

definition deploy_spec_from_pb :: "pb_deploy_command \<Rightarrow> deploy_spec" where
  "deploy_spec_from_pb p = \<lparr>deployment_id = pb_deployment_id p,
     ds_action = deploy_action_from_pb (pb_ds_action p),
     ds_component = pb_ds_component p,
     ds_version = pb_ds_version p,
     ds_target_path = pb_ds_target_path p,
     ds_options = map_to_btree (pb_ds_options p)\<rparr>"

definition deploy_spec_to_pb :: "deploy_spec \<Rightarrow> pb_deploy_command" where
  "deploy_spec_to_pb m = \<lparr>pb_deployment_id = deployment_id m,
     pb_ds_action = deploy_action_to_pb (ds_action m),
     pb_ds_component = ds_component m,
     pb_ds_version = ds_version m,
     pb_ds_target_path = ds_target_path m,
     pb_ds_options = btree_to_map (ds_options m)\<rparr>"

record pb_fs_command =
  pb_fs_command_id :: string
  pb_fs_act :: i32
  pb_fs_device :: string
  pb_fs_mount_point :: string
  pb_fs_fs_type :: string
  pb_fs_mount_options :: "string list"
  pb_fs_force :: bool

definition fs_spec_from_pb :: "pb_fs_command \<Rightarrow> fs_spec" where
  "fs_spec_from_pb p = \<lparr>fs_command_id = pb_fs_command_id p,
     fs_act = fs_action_from_pb (pb_fs_act p),
     fs_device = pb_fs_device p,
     fs_mount_point = pb_fs_mount_point p,
     fs_fs_type = pb_fs_fs_type p,
     fs_mount_options = pb_fs_mount_options p,
     fs_force = pb_fs_force p\<rparr>"

definition fs_spec_to_pb :: "fs_spec \<Rightarrow> pb_fs_command" where
  "fs_spec_to_pb m = \<lparr>pb_fs_command_id = fs_command_id m,
     pb_fs_act = fs_action_to_pb (fs_act m),
     pb_fs_device = fs_device m,
     pb_fs_mount_point = fs_mount_point m,
     pb_fs_fs_type = fs_fs_type m,
     pb_fs_mount_options = fs_mount_options m,
     pb_fs_force = fs_force m\<rparr>"

record pb_command_result =
  pb_co_command_id :: string
  pb_co_node_id :: string
  pb_co_success :: bool
  pb_co_exit_code :: i32
  pb_co_message :: string
  pb_co_stdout :: string
  pb_co_stderr :: string
  pb_co_completed_at_unix :: u64

definition outcome_from_pb :: "pb_command_result \<Rightarrow> command_outcome" where
  "outcome_from_pb p = \<lparr>co_command_id = pb_co_command_id p,
     co_node_id = pb_co_node_id p,
     co_success = pb_co_success p,
     co_exit_code = pb_co_exit_code p,
     co_message = pb_co_message p,
     co_stdout = pb_co_stdout p,
     co_stderr = pb_co_stderr p,
     co_completed_at_unix = pb_co_completed_at_unix p\<rparr>"

definition outcome_to_pb :: "command_outcome \<Rightarrow> pb_command_result" where
  "outcome_to_pb m = \<lparr>pb_co_command_id = co_command_id m,
     pb_co_node_id = co_node_id m,
     pb_co_success = co_success m,
     pb_co_exit_code = co_exit_code m,
     pb_co_message = co_message m,
     pb_co_stdout = co_stdout m,
     pb_co_stderr = co_stderr m,
     pb_co_completed_at_unix = co_completed_at_unix m\<rparr>"

record pb_metrics_report =
  pb_mr_node_id :: string
  pb_mr_timestamp_unix :: u64
  pb_mr_cpu :: "pb_cpu_metrics option"
  pb_mr_memory :: "pb_memory_metrics option"
  pb_mr_load :: "pb_load_metrics option"
  pb_mr_disks :: "pb_disk_metrics list"
  pb_mr_network :: "pb_network_metrics option"
  pb_mr_filesystems :: "pb_filesystem_metrics list"

definition report_from_pb :: "pb_metrics_report \<Rightarrow> metrics_report" where
  "report_from_pb p = \<lparr>mr_node_id = pb_mr_node_id p,
     mr_timestamp_unix = pb_mr_timestamp_unix p,
     mr_cpu = unwrap_or default_cpu (map_option cpu_from_pb (pb_mr_cpu p)),
     mr_memory = unwrap_or default_memory (map_option memory_from_pb (pb_mr_memory p)),
     mr_load = unwrap_or default_load (map_option load_from_pb (pb_mr_load p)),
     mr_disks = map disk_from_pb (pb_mr_disks p),
     mr_network = unwrap_or default_network (map_option network_from_pb (pb_mr_network p)),
     mr_filesystems = map filesystem_from_pb (pb_mr_filesystems p)\<rparr>"

definition report_to_pb :: "metrics_report \<Rightarrow> pb_metrics_report" where
  "report_to_pb m = \<lparr>pb_mr_node_id = mr_node_id m,
     pb_mr_timestamp_unix = mr_timestamp_unix m,
     pb_mr_cpu = Some (cpu_to_pb (mr_cpu m)),
     pb_mr_memory = Some (memory_to_pb (mr_memory m)),
     pb_mr_load = Some (load_to_pb (mr_load m)),
     pb_mr_disks = map disk_to_pb (mr_disks m),
     pb_mr_network = Some (network_to_pb (mr_network m)),
     pb_mr_filesystems = map filesystem_to_pb (mr_filesystems m)\<rparr>"

text \<open>The command envelope pushed down an agent's stream.\<close>

datatype pb_payload = PbDeploy pb_deploy_command | PbFs pb_fs_command

record pb_command =
  pb_command_id :: string
  pb_issued_at_unix :: u64
  pb_payload :: "pb_payload option"

record pb_node_ref =
  nref_node_id :: string
  nref_cluster_epoch :: u64

section \<open>Round trips\<close>

text \<open>
  The contract of a pair of conversions: what one side encodes, the other decodes, for the
  values of the domain type that satisfy its invariant.
\<close>

locale wire_codec =
  fixes to_pb :: "'a \<Rightarrow> 'p" and from_pb :: "'p \<Rightarrow> 'a" and ok :: "'a \<Rightarrow> bool"
  assumes from_to: "ok x \<Longrightarrow> from_pb (to_pb x) = x"
begin

lemma to_inject: "ok x \<Longrightarrow> ok y \<Longrightarrow> to_pb x = to_pb y \<longleftrightarrow> x = y"
  by (metis from_to)

lemma list_from_to: "list_all ok xs \<Longrightarrow> map from_pb (map to_pb xs) = xs"
  by (induction xs) (simp_all add: from_to)

lemma option_from_to: "ok x \<Longrightarrow> unwrap_or d (map_option from_pb (Some (to_pb x))) = x"
  by (simp add: from_to)

end

lemmas enum_defs = role_to_pb_def role_from_pb_def deploy_action_to_pb_def deploy_action_from_pb_def
  fs_action_to_pb_def fs_action_from_pb_def pb_node_role_try_from_def pb_deploy_action_try_from_def
  pb_fs_action_try_from_def

interpretation role_wire: wire_codec role_to_pb role_from_pb "\<lambda>_. True"
proof
  show "role_from_pb (role_to_pb r) = r" for r
    by (cases r) (simp_all add: enum_defs)
qed

interpretation deploy_action_wire: wire_codec deploy_action_to_pb deploy_action_from_pb "\<lambda>_. True"
proof
  show "deploy_action_from_pb (deploy_action_to_pb a) = a" for a
    by (cases a) (simp_all add: enum_defs)
qed

interpretation fs_action_wire: wire_codec fs_action_to_pb fs_action_from_pb "\<lambda>_. True"
proof
  show "fs_action_from_pb (fs_action_to_pb a) = a" for a
    by (cases a) (simp_all add: enum_defs)
qed

lemma btree_to_map_gen:
  assumes "distinct (map fst (h @ m))"
  shows "foldl (\<lambda>h (k, v). AList.update k v h) h m = h @ m"
  using assms
proof (induction m arbitrary: h)
  case (Cons kv m)
  then have "AList.update (fst kv) (snd kv) h = h @ [kv]"
    by (induction h) auto
  with Cons show ?case by (simp add: case_prod_beta)
qed simp

lemma btree_to_map_id: "btree_ok m \<Longrightarrow> btree_to_map m = m"
  using btree_to_map_gen [of "[]" m] by (simp add: btree_to_map_def btree_ok_distinct)

interpretation map_wire: wire_codec btree_to_map map_to_btree btree_ok
  by unfold_locales (simp add: btree_to_map_id map_to_btree_def btree_collect_perm)

lemmas leaf_defs = cpu_to_pb_def cpu_from_pb_def memory_to_pb_def memory_from_pb_def
  load_to_pb_def load_from_pb_def disk_to_pb_def disk_from_pb_def network_to_pb_def
  network_from_pb_def filesystem_to_pb_def filesystem_from_pb_def outcome_to_pb_def
  outcome_from_pb_def

interpretation cpu_wire: wire_codec cpu_to_pb cpu_from_pb "\<lambda>_. True"
  by unfold_locales (simp add: leaf_defs)

interpretation memory_wire: wire_codec memory_to_pb memory_from_pb "\<lambda>_. True"
  by unfold_locales (simp add: leaf_defs)

interpretation load_wire: wire_codec load_to_pb load_from_pb "\<lambda>_. True"
  by unfold_locales (simp add: leaf_defs)

interpretation disk_wire: wire_codec disk_to_pb disk_from_pb "\<lambda>_. True"
  by unfold_locales (simp add: leaf_defs)

interpretation network_wire: wire_codec network_to_pb network_from_pb "\<lambda>_. True"
  by unfold_locales (simp add: leaf_defs)

interpretation filesystem_wire: wire_codec filesystem_to_pb filesystem_from_pb "\<lambda>_. True"
  by unfold_locales (simp add: leaf_defs)

interpretation outcome_wire: wire_codec outcome_to_pb outcome_from_pb "\<lambda>_. True"
  by unfold_locales (simp add: leaf_defs)

interpretation report_wire: wire_codec report_to_pb report_from_pb "\<lambda>_. True"
proof
  show "report_from_pb (report_to_pb m) = m" for m
    by (simp add: report_to_pb_def report_from_pb_def cpu_wire.from_to memory_wire.from_to
        load_wire.from_to network_wire.from_to disk_wire.list_from_to [unfolded list_all_iff]
        filesystem_wire.list_from_to [unfolded list_all_iff] del: map_map list.map_comp)
qed

definition node_info_ok :: "node_info \<Rightarrow> bool" where
  "node_info_ok i \<longleftrightarrow> btree_ok (ni_labels i)"

definition deploy_spec_ok :: "deploy_spec \<Rightarrow> bool" where
  "deploy_spec_ok d \<longleftrightarrow> btree_ok (ds_options d)"

interpretation node_info_wire: wire_codec node_info_to_pb node_info_from_pb node_info_ok
  by unfold_locales (simp add: node_info_to_pb_def node_info_from_pb_def node_info_ok_def
      role_wire.from_to map_wire.from_to)

interpretation deploy_wire: wire_codec deploy_spec_to_pb deploy_spec_from_pb deploy_spec_ok
  by unfold_locales (simp add: deploy_spec_to_pb_def deploy_spec_from_pb_def deploy_spec_ok_def
      deploy_action_wire.from_to map_wire.from_to)

interpretation fs_wire: wire_codec fs_spec_to_pb fs_spec_from_pb "\<lambda>_. True"
  by unfold_locales (simp add: fs_spec_to_pb_def fs_spec_from_pb_def fs_action_wire.from_to)

section \<open>Properties\<close>

text \<open>
  C24: the registration an agent sends is the one the daemon decodes, in whatever order the
  labels' hash map is iterated on the way.
\<close>

theorem registration_roundtrip:
  assumes "node_info_ok info" and "mset labels = mset (pb_ni_labels (node_info_to_pb info))"
  shows "node_info_from_pb ((node_info_to_pb info)\<lparr>pb_ni_labels := labels\<rparr>) = info"
proof -
  have "btree_to_map (ni_labels info) = ni_labels info"
    using assms(1) by (simp add: node_info_ok_def btree_to_map_id)
  then have "map_to_btree labels = ni_labels info"
    using assms by (simp add: map_to_btree_def node_info_to_pb_def node_info_ok_def btree_collect_perm)
  then show ?thesis
    by (simp add: node_info_from_pb_def node_info_to_pb_def role_wire.from_to)
qed

theorem registration_roundtrip_witness:
  "\<exists>info. map fst (ni_labels info) = [''gpu'', ''rack''] \<and> node_info_from_pb ((node_info_to_pb info)
     \<lparr>pb_ni_labels := [(''rack'', ''r1''), (''gpu'', ''a100'')]\<rparr>) = info"
proof -
  define info :: node_info where "info = \<lparr>ni_node_id = ''n1'', ni_hostname = ''h'',
    ni_ip_address = ''10.0.0.1'', ni_role = Storage, ni_cpu_cores = 8, ni_total_memory_bytes = 1,
    ni_total_disk_bytes = 1, ni_agent_version = ''0.1.0'', ni_kernel_version = ''6.1'',
    ni_os = ''linux'', ni_started_at_unix = 0, ni_labels = [(''gpu'', ''a100''), (''rack'', ''r1'')]\<rparr>"
  have ok: "node_info_ok info" by (simp add: info_def node_info_ok_def btree_ok_def less_list_code)
  then have "btree_to_map (ni_labels info) = ni_labels info"
    by (simp add: node_info_ok_def btree_to_map_id)
  then have "mset [(''rack'', ''r1''), (''gpu'', ''a100'')] = mset (pb_ni_labels (node_info_to_pb info))"
    by (simp add: node_info_to_pb_def) (simp add: info_def)
  from registration_roundtrip [OF ok this] show ?thesis
    by (intro exI [of _ info]) (simp add: info_def)
qed

text \<open>
  An unknown or unspecified enum value decodes to the harmless default (an unspecified role,
  an install, a mount), never to another action; in particular only the number 5 decodes to
  \<open>Format\<close> and only 4 to \<open>Remove\<close>.
\<close>

theorem enum_decoding:
  "role_to_pb (role_from_pb v) = (if v \<in> {1, 2, 3, 4} then v else 0) \<and>
   deploy_action_to_pb (deploy_action_from_pb v) = (if v \<in> {2, 3, 4} then v else 1) \<and>
   fs_action_to_pb (fs_action_from_pb v) = (if v \<in> {2, 3, 4, 5} then v else 1) \<and>
   (fs_action_from_pb v = Format \<longleftrightarrow> v = 5) \<and> (deploy_action_from_pb v = Remove \<longleftrightarrow> v = 4)"
  by (simp add: enum_defs)

text \<open>
  C25: commands, their results and whole metrics reports (nested metrics, lists of disks and file
  systems, doubles included) survive the wire unchanged.
\<close>

theorem message_roundtrips:
  "report_from_pb (report_to_pb m) = m \<and> outcome_from_pb (outcome_to_pb oc) = oc \<and>
   fs_spec_from_pb (fs_spec_to_pb f) = f \<and>
   deploy_spec_from_pb (deploy_spec_to_pb (d\<lparr>ds_options := btree_collect os\<rparr>)) =
     d\<lparr>ds_options := btree_collect os\<rparr>"
  by (simp add: report_wire.from_to outcome_wire.from_to fs_wire.from_to deploy_wire.from_to
      deploy_spec_ok_def)

end
