(* ===== verification/Store.thy ===== *)
theory Store
  imports Hpc_Types
begin

text \<open>
  The durable store of \<open>hpc-daemon/src/store.rs\<close>. The two crates it is built on are arguments:
  the redb database engine (a record of its calls, each of which may fail with a message) and
  the serde_json codec. What the code relies on is stated by the locales \<open>redb_engine\<close> (a
  committed transaction has its effect on the tables, iteration is in key order) and
  \<open>json_codec\<close> (a document decodes to what was encoded, a double may come back as a nearby one,
  a NaN or an infinity is written as \<open>null\<close> and does not decode). Every call takes the engine
  again, so transient faults are covered: two calls may be given different engines.
\<close>

section \<open>The engine and the codec\<close>

datatype table = NODES | OUTCOMES

record ('db, 'tx, 'b) redb =
  db_create :: "string \<Rightarrow> string + 'db"
  db_begin_write :: "'db \<Rightarrow> string + 'tx"
  db_begin_read :: "'db \<Rightarrow> string + 'tx"
  tx_open_table :: "'tx \<Rightarrow> table \<Rightarrow> string + 'tx"
  tx_insert :: "'tx \<Rightarrow> table \<Rightarrow> string \<Rightarrow> 'b \<Rightarrow> string + 'tx"
  tx_remove :: "'tx \<Rightarrow> table \<Rightarrow> string \<Rightarrow> string + ('b option \<times> 'tx)"
  tx_commit :: "'tx \<Rightarrow> string + 'db"
  tx_iter :: "'tx \<Rightarrow> table \<Rightarrow> string + (string + string \<times> 'b) list"

record 'b json =
  enc_node :: "node_record \<Rightarrow> string + 'b"
  dec_node :: "'b \<Rightarrow> string + node_record"
  enc_outcome :: "command_outcome \<Rightarrow> string + 'b"
  dec_outcome :: "'b \<Rightarrow> string + command_outcome"

section \<open>The operations\<close>

text \<open>The result of a call and the database after it: unchanged where the call failed.\<close>

definition committed :: "'db \<Rightarrow> ('a \<times> 'db) result \<Rightarrow> 'a result \<times> 'db" where
  "committed db r = (case r of Inl e \<Rightarrow> (Inl e, db) | Inr (a, db') \<Rightarrow> (Inr a, db'))"

text \<open>\<open>parent\<close> is \<open>Path::parent\<close> and \<open>create_dir_all\<close> the file system call.\<close>

definition store_open ::
  "('db, 'tx, 'b) redb \<Rightarrow> (string \<Rightarrow> string option) \<Rightarrow> (string \<Rightarrow> string + unit) \<Rightarrow> string \<Rightarrow> 'db result"
  where
  "store_open E parent create_dir_all path =
     and_then (case parent path of
         None \<Rightarrow> Inr ()
       | Some p \<Rightarrow> map_err (io_at p) (create_dir_all p)) (\<lambda>_.
     and_then (map_err StoreErr (db_create E path)) (\<lambda>db.
     and_then (map_err StoreErr (db_begin_write E db)) (\<lambda>wtx.
     and_then (map_err StoreErr (tx_open_table E wtx NODES)) (\<lambda>wtx.
     and_then (map_err StoreErr (tx_open_table E wtx OUTCOMES)) (\<lambda>wtx.
     map_err StoreErr (tx_commit E wtx))))))"

definition put_node ::
  "('db, 'tx, 'b) redb \<Rightarrow> 'b json \<Rightarrow> node_record \<Rightarrow> 'db \<Rightarrow> unit result \<times> 'db" where
  "put_node E J record db = committed db (
     and_then (map_err Serde (enc_node J record)) (\<lambda>bytes.
     and_then (map_err StoreErr (db_begin_write E db)) (\<lambda>wtx.
     and_then (map_err StoreErr (tx_open_table E wtx NODES)) (\<lambda>wtx.
     and_then (map_err StoreErr (tx_insert E wtx NODES (ni_node_id (nr_info record)) bytes)) (\<lambda>wtx.
     and_then (map_err StoreErr (tx_commit E wtx)) (\<lambda>db'. Inr ((), db')))))))"

definition delete_node ::
  "('db, 'tx, 'b) redb \<Rightarrow> node_id \<Rightarrow> 'db \<Rightarrow> bool result \<times> 'db" where
  "delete_node E node_id db = committed db (
     and_then (map_err StoreErr (db_begin_write E db)) (\<lambda>wtx.
     and_then (map_err StoreErr (tx_open_table E wtx NODES)) (\<lambda>wtx.
     and_then (map_err StoreErr (tx_remove E wtx NODES node_id)) (\<lambda>(old, wtx).
     and_then (map_err StoreErr (tx_commit E wtx)) (\<lambda>db'. Inr (old \<noteq> None, db'))))))"

text \<open>The loop over a table's entries: it stops at the first entry it cannot read or decode.\<close>

fun decode_entries :: "('b \<Rightarrow> string + 'a) \<Rightarrow> (string + string \<times> 'b) list \<Rightarrow> 'a list result" where
  "decode_entries dec [] = Inr []"
| "decode_entries dec (Inl e # es) = Inl (StoreErr e)"
| "decode_entries dec (Inr (k, v) # es) =
     and_then (map_err Serde (dec v)) (\<lambda>a.
     and_then (decode_entries dec es) (\<lambda>out. Inr (a # out)))"

definition load_nodes ::
  "('db, 'tx, 'b) redb \<Rightarrow> 'b json \<Rightarrow> 'db \<Rightarrow> node_record list result" where
  "load_nodes E J db =
     and_then (map_err StoreErr (db_begin_read E db)) (\<lambda>rtx.
     and_then (map_err StoreErr (tx_open_table E rtx NODES)) (\<lambda>rtx.
     and_then (map_err StoreErr (tx_iter E rtx NODES)) (\<lambda>entries.
     decode_entries (dec_node J) entries)))"

definition put_outcome ::
  "('db, 'tx, 'b) redb \<Rightarrow> 'b json \<Rightarrow> command_outcome \<Rightarrow> 'db \<Rightarrow> unit result \<times> 'db" where
  "put_outcome E J outcome db = committed db (
     and_then (map_err Serde (enc_outcome J outcome)) (\<lambda>bytes.
     and_then (map_err StoreErr (db_begin_write E db)) (\<lambda>wtx.
     and_then (map_err StoreErr (tx_open_table E wtx OUTCOMES)) (\<lambda>wtx.
     and_then (map_err StoreErr (tx_insert E wtx OUTCOMES (co_command_id outcome) bytes)) (\<lambda>wtx.
     and_then (map_err StoreErr (tx_commit E wtx)) (\<lambda>db'. Inr ((), db')))))))"

text \<open>\<open>sort_by_key(|o| Reverse(o.completed_at_unix))\<close>, a stable sort.\<close>

definition most_recent_first :: "command_outcome list \<Rightarrow> command_outcome list" where
  "most_recent_first out = sort_key (\<lambda>oc. - int (unat (co_completed_at_unix oc))) out"

definition load_outcomes ::
  "('db, 'tx, 'b) redb \<Rightarrow> 'b json \<Rightarrow> 'db \<Rightarrow> command_outcome list result" where
  "load_outcomes E J db =
     and_then (map_err StoreErr (db_begin_read E db)) (\<lambda>rtx.
     and_then (map_err StoreErr (tx_open_table E rtx OUTCOMES)) (\<lambda>rtx.
     and_then (map_err StoreErr (tx_iter E rtx OUTCOMES)) (\<lambda>entries.
     and_then (decode_entries (dec_outcome J) entries) (\<lambda>out.
     Inr (most_recent_first out)))))"

text \<open>The methods of a \<open>Store\<close> handle, as its clients call them.\<close>

record 'db store =
  st_put_node :: "node_record \<Rightarrow> 'db \<Rightarrow> unit result \<times> 'db"
  st_delete_node :: "node_id \<Rightarrow> 'db \<Rightarrow> bool result \<times> 'db"
  st_load_nodes :: "'db \<Rightarrow> node_record list result"
  st_put_outcome :: "command_outcome \<Rightarrow> 'db \<Rightarrow> unit result \<times> 'db"
  st_load_outcomes :: "'db \<Rightarrow> command_outcome list result"

definition redb_store :: "('db, 'tx, 'b) redb \<Rightarrow> 'b json \<Rightarrow> 'db store" where
  "redb_store E J = \<lparr>st_put_node = put_node E J, st_delete_node = delete_node E,
     st_load_nodes = load_nodes E J, st_put_outcome = put_outcome E J,
     st_load_outcomes = load_outcomes E J\<rparr>"

section \<open>What the code relies on\<close>

text \<open>The documented behaviour of redb, over the contents of the tables as maps.\<close>

locale redb_engine =
  fixes E :: "('db, 'tx, 'b) redb"
    and view :: "'db \<Rightarrow> table \<Rightarrow> string \<Rightarrow> 'b option"
    and tview :: "'tx \<Rightarrow> table \<Rightarrow> string \<Rightarrow> 'b option"
  assumes begin_write: "db_begin_write E db = Inr tx \<Longrightarrow> tview tx = view db"
    and begin_read: "db_begin_read E db = Inr tx \<Longrightarrow> tview tx = view db"
    and open_table: "tx_open_table E tx t = Inr tx' \<Longrightarrow> tview tx' = tview tx"
    and insert: "tx_insert E tx t k v = Inr tx' \<Longrightarrow>
      tview tx' = (tview tx)(t := (tview tx t)(k \<mapsto> v))"
    and remove: "tx_remove E tx t k = Inr (old, tx') \<Longrightarrow>
      tview tx' = (tview tx)(t := (tview tx t)(k := None)) \<and> old = tview tx t k"
    and commit: "tx_commit E tx = Inr db' \<Longrightarrow> view db' = tview tx"
    and iter: "tx_iter E tx t = Inr (map Inr kvs) \<Longrightarrow>
      btree_ok kvs \<and> map_of kvs = tview tx t"

text \<open>The doubles of a record, and a record with each of them replaced.\<close>

definition report_doubles :: "metrics_report \<Rightarrow> f64 list" where
  "report_doubles m = usage_percent (mr_cpu m) # per_core_percent (mr_cpu m) @
     [load_one (mr_load m), load_five (mr_load m), load_fifteen (mr_load m)] @
     map io_utilization_percent (mr_disks m)"

definition record_finite :: "node_record \<Rightarrow> bool" where
  "record_finite r \<longleftrightarrow>
     (case nr_latest_metrics r of None \<Rightarrow> True | Some m \<Rightarrow> list_all is_finite (report_doubles m))"

definition report_map_doubles :: "(f64 \<Rightarrow> f64) \<Rightarrow> metrics_report \<Rightarrow> metrics_report" where
  "report_map_doubles f m = m\<lparr>
     mr_cpu := \<lparr>usage_percent = f (usage_percent (mr_cpu m)),
       per_core_percent = map f (per_core_percent (mr_cpu m))\<rparr>,
     mr_load := \<lparr>load_one = f (load_one (mr_load m)), load_five = f (load_five (mr_load m)),
       load_fifteen = f (load_fifteen (mr_load m))\<rparr>,
     mr_disks := map (\<lambda>d. d\<lparr>io_utilization_percent := f (io_utilization_percent d)\<rparr>) (mr_disks m)\<rparr>"

definition record_map_doubles :: "(f64 \<Rightarrow> f64) \<Rightarrow> node_record \<Rightarrow> node_record" where
  "record_map_doubles f r = r\<lparr>nr_latest_metrics := map_option (report_map_doubles f) (nr_latest_metrics r)\<rparr>"

text \<open>
  The documented behaviour of serde_json: \<open>jf\<close> is what a finite double reads back as (its parser
  is accurate to within one unit in the last place unless the \<open>float_roundtrip\<close> feature is on).
\<close>

locale json_codec =
  fixes J :: "'b json" and jf :: "f64 \<Rightarrow> f64"
  assumes enc_node_total: "\<exists>b. enc_node J r = Inr b"
    and node_rt: "enc_node J r = Inr b \<Longrightarrow> record_finite r \<Longrightarrow>
      dec_node J b = Inr (record_map_doubles jf r)"
    and node_null: "enc_node J r = Inr b \<Longrightarrow> \<not> record_finite r \<Longrightarrow> \<exists>e. dec_node J b = Inl e"
    and outcome_rt: "enc_outcome J oc = Inr b \<Longrightarrow> dec_outcome J b = Inr oc"

lemma record_map_doubles_id [simp]:
  "nr_info (record_map_doubles f r) = nr_info r"
  "nr_status (record_map_doubles f r) = nr_status r"
  "nr_last_seen_unix (record_map_doubles f r) = nr_last_seen_unix r"
  "nr_latest_metrics (record_map_doubles f r) = map_option (report_map_doubles f) (nr_latest_metrics r)"
  by (simp_all add: record_map_doubles_def)

section \<open>What the store promises its clients\<close>

text \<open>
  \<open>stored db id\<close> is the node document kept under \<open>id\<close>, decoded (\<open>Inl\<close> if it does not decode);
  \<open>rb r\<close> is what a record reads back as. The audit log is a map from command ids.
\<close>

locale durable_store =
  fixes S :: "'db store"
    and stored :: "'db \<Rightarrow> node_id \<Rightarrow> (string + node_record) option"
    and log :: "'db \<Rightarrow> string \<Rightarrow> (string + command_outcome) option"
    and rb :: "node_record \<Rightarrow> string + node_record"
  assumes put_ok: "st_put_node S r db = (Inr (), db') \<Longrightarrow>
      stored db' = (stored db)(ni_node_id (nr_info r) \<mapsto> rb r) \<and> log db' = log db"
    and put_err: "st_put_node S r db = (Inl e, db') \<Longrightarrow> db' = db"
    and del_ok: "st_delete_node S i db = (Inr b, db') \<Longrightarrow>
      stored db' = (stored db)(i := None) \<and> log db' = log db \<and> b = (stored db i \<noteq> None)"
    and del_err: "st_delete_node S i db = (Inl e, db') \<Longrightarrow> db' = db"
    and load_ok: "st_load_nodes S db = Inr rs \<Longrightarrow>
      \<exists>ks. length ks = length rs \<and> btree_ok (zip ks rs) \<and>
        stored db = (\<lambda>i. map_option Inr (map_of (zip ks rs) i))"
    and log_ok: "st_put_outcome S oc db = (Inr (), db') \<Longrightarrow>
      log db' = (log db)(co_command_id oc \<mapsto> Inr oc) \<and> stored db' = stored db"
    and log_err: "st_put_outcome S oc db = (Inl e, db') \<Longrightarrow> db' = db"
    and rb_info: "rb r = Inr r' \<Longrightarrow> nr_info r' = nr_info r"
begin

text \<open>A document that does not decode makes the whole load fail.\<close>

lemma load_needs_all: "stored db i = Some (Inl e) \<Longrightarrow> \<exists>e. st_load_nodes S db = Inl e"
proof (cases "st_load_nodes S db")
  case (Inr rs)
  moreover assume "stored db i = Some (Inl e)"
  ultimately show ?thesis using load_ok [OF Inr] by auto
qed simp

lemma load_complete:
  assumes "st_load_nodes S db = Inr rs" and "stored db i = Some x"
  obtains r where "x = Inr r" and "r \<in> set rs"
proof -
  from load_ok [OF assms(1)] obtain ks where ks: "length ks = length rs"
    "stored db = (\<lambda>i. map_option Inr (map_of (zip ks rs) i))" by blast
  then obtain r where r: "map_of (zip ks rs) i = Some r" "x = Inr r" using assms(2) by auto
  then have "r \<in> set rs" by (auto dest!: map_of_SomeD elim: in_set_zipE)
  with r(2) show thesis by (rule that)
qed

end

section \<open>The redb store keeps the promise\<close>

definition stored_of ::
  "'b json \<Rightarrow> ('db \<Rightarrow> table \<Rightarrow> string \<Rightarrow> 'b option) \<Rightarrow> 'db \<Rightarrow> node_id \<Rightarrow> (string + node_record) option"
  where
  "stored_of J view db i = map_option (dec_node J) (view db NODES i)"

definition log_of ::
  "'b json \<Rightarrow> ('db \<Rightarrow> table \<Rightarrow> string \<Rightarrow> 'b option) \<Rightarrow> 'db \<Rightarrow> string \<Rightarrow> (string + command_outcome) option"
  where
  "log_of J view db i = map_option (dec_outcome J) (view db OUTCOMES i)"

definition read_back :: "'b json \<Rightarrow> node_record \<Rightarrow> string + node_record" where
  "read_back J r = and_then (enc_node J r) (dec_node J)"

lemma committed_iff:
  "committed db r = (Inr a, db') \<longleftrightarrow> r = Inr (a, db')"
  "committed db r = (Inl e, db') \<longleftrightarrow> r = Inl e \<and> db' = db"
  by (auto simp: committed_def split: sum.splits)

lemma decode_entries_ok:
  assumes "decode_entries dec es = Inr out"
  obtains kvs where "es = map Inr kvs" and "map Inr out = map (dec \<circ> snd) kvs"
  using assms
proof (induction dec es arbitrary: out thesis rule: decode_entries.induct)
  case (3 dec k v es)
  from "3.prems"(2) obtain a out' where a: "dec v = Inr a" "decode_entries dec es = Inr out'"
      "out = a # out'"
    by (auto simp: and_then_Inr_iff)
  from "3.IH" [OF _ a(2)] a(1) obtain kvs where "es = map Inr kvs" "map Inr out' = map (dec \<circ> snd) kvs"
    unfolding comp_def by blast
  with a show ?case by (intro "3.prems"(1) [of "(k, v) # kvs"]) simp_all
qed simp_all

locale redb_backed = redb_engine E view tview + json_codec J jf
  for E :: "('db, 'tx, 'b) redb"
    and view :: "'db \<Rightarrow> table \<Rightarrow> string \<Rightarrow> 'b option"
    and tview :: "'tx \<Rightarrow> table \<Rightarrow> string \<Rightarrow> 'b option"
    and J :: "'b json" and jf :: "f64 \<Rightarrow> f64"
begin

lemma put_node_view:
  assumes "put_node E J r db = (Inr (), db')"
  obtains b where "enc_node J r = Inr b"
    "view db' = (view db)(NODES := (view db NODES)(ni_node_id (nr_info r) \<mapsto> b))"
  using assms
  by (auto simp: put_node_def committed_iff and_then_Inr_iff dest!: begin_write open_table insert commit)

lemma put_outcome_view:
  assumes "put_outcome E J oc db = (Inr (), db')"
  obtains b where "enc_outcome J oc = Inr b"
    "view db' = (view db)(OUTCOMES := (view db OUTCOMES)(co_command_id oc \<mapsto> b))"
  using assms
  by (auto simp: put_outcome_def committed_iff and_then_Inr_iff dest!: begin_write open_table insert commit)

lemma delete_node_view:
  "delete_node E i db = (Inr b, db') \<Longrightarrow>
     view db' = (view db)(NODES := (view db NODES)(i := None)) \<and> b = (view db NODES i \<noteq> None)"
  by (auto simp: delete_node_def committed_iff and_then_Inr_iff
      dest!: begin_write open_table remove commit)

lemma load_nodes_view:
  assumes "load_nodes E J db = Inr rs"
  obtains kvs where "btree_ok kvs" "map_of kvs = view db NODES" "map Inr rs = map (dec_node J \<circ> snd) kvs"
proof -
  from assms obtain rtx rtx' es where 1: "db_begin_read E db = Inr rtx"
      "tx_open_table E rtx NODES = Inr rtx'" "tx_iter E rtx' NODES = Inr es"
      and 2: "decode_entries (dec_node J) es = Inr rs"
    by (auto simp: load_nodes_def and_then_Inr_iff)
  from 2 obtain kvs where "es = map Inr kvs" "map Inr rs = map (dec_node J \<circ> snd) kvs"
    by (rule decode_entries_ok)
  with 1 show thesis
    by (intro that [of kvs]) (auto dest!: begin_read open_table iter)
qed

end

lemma map_of_zip_decoded:
  assumes "map Inr rs = map (dec \<circ> snd) kvs"
  shows "map_option dec (map_of kvs i) = map_option Inr (map_of (zip (map fst kvs) rs) i)"
  using assms
proof (induction kvs arbitrary: rs)
  case (Cons kv kvs)
  then obtain r rs' where "rs = r # rs'" by (cases rs) auto
  with Cons show ?case by (cases kv) auto
qed simp

context redb_backed
begin

lemma read_back_finite: "record_finite r \<Longrightarrow> read_back J r = Inr (record_map_doubles jf r)"
  using enc_node_total [of r] by (auto simp: read_back_def dest: node_rt)

lemma read_back_null: "\<not> record_finite r \<Longrightarrow> \<exists>e. read_back J r = Inl e"
  using enc_node_total [of r] by (auto simp: read_back_def dest: node_null)

lemma read_back_info: "read_back J r = Inr r' \<Longrightarrow> nr_info r' = nr_info r"
  using read_back_finite [of r] read_back_null [of r] by (cases "record_finite r") auto

end

sublocale redb_backed \<subseteq>
  durable_store "redb_store E J" "stored_of J view" "log_of J view" "read_back J"
proof (unfold_locales, unfold redb_store_def store.simps)
  show "stored_of J view db' = (stored_of J view db)(ni_node_id (nr_info r) \<mapsto> read_back J r) \<and>
      log_of J view db' = log_of J view db"
    if "put_node E J r db = (Inr (), db')" for r db db'
    by (rule put_node_view [OF that]) (auto simp: stored_of_def log_of_def read_back_def fun_eq_iff)
  show "stored_of J view db' = (stored_of J view db)(i := None) \<and> log_of J view db' = log_of J view db \<and>
      b = (stored_of J view db i \<noteq> None)"
    if "delete_node E i db = (Inr b, db')" for i db b db'
    using delete_node_view [OF that] by (auto simp: stored_of_def log_of_def fun_eq_iff)
  show "log_of J view db' = (log_of J view db)(co_command_id oc \<mapsto> Inr oc) \<and>
      stored_of J view db' = stored_of J view db"
    if "put_outcome E J oc db = (Inr (), db')" for oc db db'
    by (rule put_outcome_view [OF that])
      (auto simp: stored_of_def log_of_def fun_eq_iff dest: outcome_rt)
  show "\<exists>ks. length ks = length rs \<and> btree_ok (zip ks rs) \<and>
      stored_of J view db = (\<lambda>i. map_option Inr (map_of (zip ks rs) i))"
    if l: "load_nodes E J db = Inr rs" for db rs
  proof (rule load_nodes_view [OF l])
    fix kvs
    assume k: "btree_ok kvs" "map_of kvs = view db NODES" "map Inr rs = map (dec_node J \<circ> snd) kvs"
    have len: "length rs = length kvs" using arg_cong [OF k(3), of length] by simp
    show ?thesis
      using k len map_of_zip_decoded [OF k(3)]
      by (intro exI [of _ "map fst kvs"]) (simp add: btree_ok_def stored_of_def fun_eq_iff)
  qed
qed (auto simp: put_node_def put_outcome_def delete_node_def committed_iff read_back_info)

context redb_backed
begin

lemma durable: "durable_store (redb_store E J) (stored_of J view) (log_of J view) (read_back J)"
  by unfold_locales

end

section \<open>An engine and a codec in memory\<close>

text \<open>
  The two contracts can be met together: tables as sorted association lists, documents as the
  values themselves.
\<close>

type_synonym 'b mem_db = "table \<Rightarrow> (string, 'b) btree_map"

definition mem_redb :: "('b mem_db, 'b mem_db, 'b) redb" where
  "mem_redb = \<lparr>db_create = (\<lambda>_. Inr (\<lambda>_. [])), db_begin_write = Inr, db_begin_read = Inr,
     tx_open_table = (\<lambda>tx _. Inr tx),
     tx_insert = (\<lambda>tx t k v. Inr (tx(t := AList.update k v (tx t)))),
     tx_remove = (\<lambda>tx t k. Inr (map_of (tx t) k, tx(t := AList.delete k (tx t)))),
     tx_commit = Inr,
     tx_iter = (\<lambda>tx t. Inr (map Inr (btree_collect (AList.clearjunk (tx t)))))\<rparr>"

definition mem_view :: "'b mem_db \<Rightarrow> table \<Rightarrow> string \<Rightarrow> 'b option" where
  "mem_view db t = map_of (db t)"

lemma mem_view_upd: "mem_view (tx(t := a)) = (mem_view tx)(t := map_of a)"
  by (auto simp: mem_view_def)

datatype document = NodeDoc node_record | OutcomeDoc command_outcome

definition mem_json :: "document json" where
  "mem_json = \<lparr>enc_node = (\<lambda>r. Inr (NodeDoc r)),
     dec_node = (\<lambda>d. case d of
         NodeDoc r \<Rightarrow> (if record_finite r then Inr r else Inl ''invalid type: null, expected f64'')
       | OutcomeDoc _ \<Rightarrow> Inl ''missing field''),
     enc_outcome = (\<lambda>oc. Inr (OutcomeDoc oc)),
     dec_outcome = (\<lambda>d. case d of OutcomeDoc oc \<Rightarrow> Inr oc | NodeDoc _ \<Rightarrow> Inl ''missing field'')\<rparr>"

lemma record_map_doubles_ident [simp]: "record_map_doubles (\<lambda>x. x) r = r"
  by (cases "nr_latest_metrics r")
    (simp_all add: record_map_doubles_def report_map_doubles_def)

interpretation mem: redb_backed mem_redb mem_view mem_view mem_json "\<lambda>x. x"
proof
  show "btree_ok kvs \<and> map_of kvs = mem_view tx t"
    if "tx_iter mem_redb tx t = Inr (map Inr kvs)" for tx t and kvs :: "(string \<times> document) list"
  proof -
    have "map Inr (btree_collect (AList.clearjunk (tx t))) = (map Inr kvs :: (string + string \<times> document) list)"
      using that by (simp add: mem_redb_def)
    then have "kvs = btree_collect (AList.clearjunk (tx t))"
      by (simp add: inj_map_eq_map inj_def)
    then show ?thesis
      by (simp add: mem_view_def map_of_btree_collect distinct_clearjunk map_of_clearjunk)
  qed
qed (auto simp: mem_redb_def mem_view_upd mem_json_def mem_view_def split: if_splits)

end
