(* ===== verification/Cluster_State.thy ===== *)
theory Cluster_State
  imports Config Store
begin

text \<open>
  \<open>SharedState\<close> of \<open>hpc-daemon/src/state.rs\<close>. The two locked maps, the database and the command
  channels are one record; a method is a function that returns its result and the state after
  it. The sections a method runs under the write lock are definitions of their own
  (\<open>register_mem\<close>, \<open>ingest_mem\<close>), since the lock is released before the store is written. A
  call of \<open>now_unix()\<close> is an argument. A \<open>Sender\<close> is the index of its channel in \<open>ss_chans\<close>.
\<close>

section \<open>Commands and channels\<close>

datatype node_command = Deploy deploy_spec | Fs fs_spec

fun command_id :: "node_command \<Rightarrow> string" where
  "command_id (Deploy d) = deployment_id d"
| "command_id (Fs f) = fs_command_id f"

text \<open>A bounded mpsc channel: its buffer, and whether its receiver still exists.\<close>

record mchan =
  ch_queue :: "node_command list"
  ch_open :: bool

definition chan_capacity :: nat where
  "chan_capacity = 64"

definition nth_opt :: "'a list \<Rightarrow> nat \<Rightarrow> 'a option" where
  "nth_opt xs i = (if i < length xs then Some (xs ! i) else None)"

text \<open>An awaited call that may have to wait.\<close>

datatype 'a poll = Pending | Ready 'a

section \<open>The state\<close>

record 'db shared_state =
  ss_nodes :: "(node_id, node_record) hash_map"
  ss_channels :: "(node_id, nat) hash_map"
  ss_chans :: "mchan list"
  ss_db :: 'db
  ss_thresholds :: thresholds
  ss_node_timeout :: duration
  ss_metrics_interval_secs :: u32
  ss_epoch :: u64

text \<open>\<open>classify\<close>: the health of a sample under the thresholds; load is not looked at.\<close>

definition classify :: "metrics_report \<Rightarrow> thresholds \<Rightarrow> node_status" where
  "classify report t =
     (let cpu_frac = f64_div (usage_percent (mr_cpu report)) (f64_lit 100 1) in
      if cpu_frac \<ge> cpu_degraded t then Degraded
      else if mem_used_fraction (mr_memory report) \<ge> memory_degraded t then Degraded
      else if list_ex (\<lambda>d. disk_used_fraction d \<ge> disk_degraded t) (mr_disks report) then Degraded
      else Healthy)"

section \<open>Construction\<close>

fun hydrate :: "node_record list \<Rightarrow> (node_id, node_record) hash_map \<Rightarrow>
    (node_id, node_record) hash_map" where
  "hydrate [] nodes = nodes"
| "hydrate (record # records) nodes =
     (let record' = record\<lparr>nr_status := Unreachable\<rparr>
      in hydrate records (AList.update (ni_node_id (nr_info record')) record' nodes))"

definition bootstrap ::
  "'db store \<Rightarrow> daemon_config \<Rightarrow> u64 \<Rightarrow> 'db \<Rightarrow> 'db shared_state result" where
  "bootstrap S cfg now db =
     and_then (st_load_nodes S db) (\<lambda>records. Inr \<lparr>
       ss_nodes = hydrate records [],
       ss_channels = [],
       ss_chans = [],
       ss_db = db,
       ss_thresholds = dc_thresholds cfg,
       ss_node_timeout = dc_node_timeout cfg,
       ss_metrics_interval_secs = of_nat (max (as_secs (dc_metrics_interval cfg)) 1),
       ss_epoch = now\<rparr>)"

section \<open>Nodes\<close>

definition persist ::
  "'db store \<Rightarrow> node_record \<Rightarrow> 'db shared_state \<Rightarrow> unit result \<times> 'db shared_state" where
  "persist S record s =
     (let (res, db') = st_put_node S record (ss_db s) in (res, s\<lparr>ss_db := db'\<rparr>))"

text \<open>\<open>now0\<close> is the clock read by \<open>NodeRecord::new\<close>, \<open>now\<close> the one written to \<open>last_seen_unix\<close>.\<close>

definition register_mem ::
  "u64 \<Rightarrow> u64 \<Rightarrow> node_info \<Rightarrow> 'db shared_state \<Rightarrow> node_record \<times> 'db shared_state" where
  "register_mem now0 now info s =
     (let node_id = ni_node_id info;
          entry = (case map_of (ss_nodes s) node_id of
            Some r \<Rightarrow> r | None \<Rightarrow> node_record_new now0 info);
          entry' = entry\<lparr>nr_info := info, nr_status := Registered, nr_last_seen_unix := now\<rparr>
      in (entry', s\<lparr>ss_nodes := AList.update node_id entry' (ss_nodes s)\<rparr>))"

definition register_node ::
  "'db store \<Rightarrow> u64 \<Rightarrow> u64 \<Rightarrow> node_info \<Rightarrow> 'db shared_state \<Rightarrow>
     node_record result \<times> 'db shared_state" where
  "register_node S now0 now info s =
     (let (record, s1) = register_mem now0 now info s; (res, s2) = persist S record s1
      in (and_then res (\<lambda>_. Inr record), s2))"

definition unknown_node :: "node_id \<Rightarrow> hpc_error" where
  "unknown_node node_id = NotFound (''unknown node '' @ node_id)"

definition ingest_mem ::
  "u64 \<Rightarrow> metrics_report \<Rightarrow> 'db shared_state \<Rightarrow> node_record result \<times> 'db shared_state" where
  "ingest_mem now report s =
     (let node_id = mr_node_id report in
      case map_of (ss_nodes s) node_id of
        None \<Rightarrow> (Inl (unknown_node node_id), s)
      | Some r \<Rightarrow>
          let r' = r\<lparr>nr_status := classify report (ss_thresholds s), nr_last_seen_unix := now,
                nr_latest_metrics := Some report\<rparr>
          in (Inr r', s\<lparr>ss_nodes := AList.update node_id r' (ss_nodes s)\<rparr>))"

definition ingest_metrics ::
  "'db store \<Rightarrow> u64 \<Rightarrow> metrics_report \<Rightarrow> 'db shared_state \<Rightarrow> unit result \<times> 'db shared_state" where
  "ingest_metrics S now report s =
     (case ingest_mem now report s of
        (Inl e, s1) \<Rightarrow> (Inl e, s1)
      | (Inr record, s1) \<Rightarrow> persist S record s1)"

definition heartbeat ::
  "u64 \<Rightarrow> node_id \<Rightarrow> 'db shared_state \<Rightarrow> unit result \<times> 'db shared_state" where
  "heartbeat now node_id s =
     (case map_of (ss_nodes s) node_id of
        None \<Rightarrow> (Inl (unknown_node node_id), s)
      | Some r \<Rightarrow>
          let r1 = r\<lparr>nr_last_seen_unix := now\<rparr>;
              r2 = (if nr_status r1 = Unreachable then r1\<lparr>nr_status := Healthy\<rparr> else r1)
          in (Inr (), s\<lparr>ss_nodes := AList.update node_id r2 (ss_nodes s)\<rparr>))"

definition list_nodes :: "'db shared_state \<Rightarrow> node_record list" where
  "list_nodes s = sort_key (\<lambda>r. ni_node_id (nr_info r)) (map snd (ss_nodes s))"

definition get_node :: "node_id \<Rightarrow> 'db shared_state \<Rightarrow> node_record option" where
  "get_node node_id s = map_of (ss_nodes s) node_id"

definition list_outcomes :: "'db store \<Rightarrow> 'db shared_state \<Rightarrow> command_outcome list result" where
  "list_outcomes S s = st_load_outcomes S (ss_db s)"

definition connected_count :: "'db shared_state \<Rightarrow> nat" where
  "connected_count s = length (ss_channels s)"

definition record_outcome ::
  "'db store \<Rightarrow> command_outcome \<Rightarrow> 'db shared_state \<Rightarrow> unit result \<times> 'db shared_state" where
  "record_outcome S outcome s =
     (let (res, db') = st_put_outcome S outcome (ss_db s) in (res, s\<lparr>ss_db := db'\<rparr>))"

text \<open>The loop of \<open>reap_stale\<close> over the node table: the table after it and the changed ids.\<close>

definition is_stale :: "u64 \<Rightarrow> node_record \<Rightarrow> bool" where
  "is_stale cutoff r \<longleftrightarrow> nr_last_seen_unix r < cutoff"

fun reap_loop :: "u64 \<Rightarrow> (node_id, node_record) hash_map \<Rightarrow>
    (node_id, node_record) hash_map \<times> node_id list" where
  "reap_loop cutoff [] = ([], [])"
| "reap_loop cutoff ((k, r) # m) =
     (let (m', changed) = reap_loop cutoff m in
      if is_stale cutoff r \<and> nr_status r \<noteq> Unreachable
      then ((k, r\<lparr>nr_status := Unreachable\<rparr>) # m', ni_node_id (nr_info r) # changed)
      else ((k, r) # m', changed))"

definition reap_cutoff :: "u64 \<Rightarrow> 'db shared_state \<Rightarrow> u64" where
  "reap_cutoff now s = saturating_sub now (of_nat (as_secs (ss_node_timeout s)))"

definition reap_stale :: "u64 \<Rightarrow> 'db shared_state \<Rightarrow> node_id list \<times> 'db shared_state" where
  "reap_stale now s =
     (let (nodes', changed) = reap_loop (reap_cutoff now s) (ss_nodes s)
      in (changed, s\<lparr>ss_nodes := nodes'\<rparr>))"

section \<open>Command dispatch\<close>

definition attach_command_channel ::
  "node_id \<Rightarrow> 'db shared_state \<Rightarrow> nat \<times> 'db shared_state" where
  "attach_command_channel node_id s =
     (let c = length (ss_chans s)
      in (c, s\<lparr>ss_channels := AList.update node_id c (ss_channels s),
               ss_chans := ss_chans s @ [\<lparr>ch_queue = [], ch_open = True\<rparr>]\<rparr>))"

definition detach_command_channel :: "node_id \<Rightarrow> 'db shared_state \<Rightarrow> 'db shared_state" where
  "detach_command_channel node_id s = s\<lparr>ss_channels := AList.delete node_id (ss_channels s)\<rparr>"

definition is_connected :: "node_id \<Rightarrow> 'db shared_state \<Rightarrow> bool" where
  "is_connected node_id s \<longleftrightarrow> map_of (ss_channels s) node_id \<noteq> None"

text \<open>\<open>Sender::send\<close>: an error when the receiver is gone, waiting while the buffer is full.\<close>

definition chan_send ::
  "nat \<Rightarrow> node_command \<Rightarrow> 'db shared_state \<Rightarrow> (unit + unit) poll \<times> 'db shared_state" where
  "chan_send c cmd s =
     (case nth_opt (ss_chans s) c of
        None \<Rightarrow> (Ready (Inl ()), s)
      | Some ch \<Rightarrow>
          if \<not> ch_open ch then (Ready (Inl ()), s)
          else if chan_capacity \<le> length (ch_queue ch) then (Pending, s)
          else (Ready (Inr ()), s\<lparr>ss_chans :=
                 (ss_chans s)[c := ch\<lparr>ch_queue := ch_queue ch @ [cmd]\<rparr>]\<rparr>))"

definition dispatch ::
  "node_id \<Rightarrow> node_command \<Rightarrow> 'db shared_state \<Rightarrow> unit result poll \<times> 'db shared_state" where
  "dispatch node_id cmd s =
     (if get_node node_id s = None then (Ready (Inl (unknown_node node_id)), s)
      else case map_of (ss_channels s) node_id of
        None \<Rightarrow> (Ready (Inl (InvalidState
          (''node '' @ node_id @ '' has no live command stream''))), s)
      | Some c \<Rightarrow>
          (case chan_send c cmd s of
             (Pending, s') \<Rightarrow> (Pending, s')
           | (Ready (Inl _), s') \<Rightarrow> (Ready (Inl (InvalidState
               (''command channel for '' @ node_id @ '' closed''))), s')
           | (Ready (Inr _), s') \<Rightarrow> (Ready (Inr ()), s')))"

text \<open>\<open>deregister_node\<close>: memory, then the channel, then the store.\<close>

definition deregister_mem :: "node_id \<Rightarrow> 'db shared_state \<Rightarrow> bool \<times> 'db shared_state" where
  "deregister_mem node_id s =
     (map_of (ss_nodes s) node_id \<noteq> None, s\<lparr>ss_nodes := AList.delete node_id (ss_nodes s)\<rparr>)"

definition unpersist ::
  "'db store \<Rightarrow> node_id \<Rightarrow> 'db shared_state \<Rightarrow> bool result \<times> 'db shared_state" where
  "unpersist S node_id s =
     (let (res, db') = st_delete_node S node_id (ss_db s) in (res, s\<lparr>ss_db := db'\<rparr>))"

definition deregister_node ::
  "'db store \<Rightarrow> node_id \<Rightarrow> 'db shared_state \<Rightarrow> bool result \<times> 'db shared_state" where
  "deregister_node S node_id s =
     (let (removed, s1) = deregister_mem node_id s;
          s2 = detach_command_channel node_id s1;
          (res, s3) = unpersist S node_id s2
      in (and_then res (\<lambda>_. Inr removed), s3))"

end
