(* ===== verification/Sample.thy ===== *)
theory Sample
  imports Cluster_State
begin

text \<open>
  Concrete values on which the properties are instantiated: the in-memory engine, a small cluster
  configuration, one node, one sample of it, and the states of a short run.
\<close>

definition sample_store :: "document mem_db store" where
  "sample_store = redb_store mem_redb mem_json"

definition empty_db :: "document mem_db" where
  "empty_db = (\<lambda>_. [])"

definition sample_cfg :: daemon_config where
  "sample_cfg = default_daemon_config (\<lambda>_. None)"

definition sample_info :: node_info where
  "sample_info = \<lparr>ni_node_id = ''n1'', ni_hostname = ''n1'', ni_ip_address = ''10.0.0.1'',
     ni_role = Storage, ni_cpu_cores = 8, ni_total_memory_bytes = 100, ni_total_disk_bytes = 100,
     ni_agent_version = ''0.1.0'', ni_kernel_version = ''6.1'', ni_os = ''linux'',
     ni_started_at_unix = 0, ni_labels = []\<rparr>"

definition sample_report :: "f64 \<Rightarrow> metrics_report" where
  "sample_report cpu = \<lparr>mr_node_id = ''n1'', mr_timestamp_unix = 50,
     mr_cpu = \<lparr>usage_percent = cpu, per_core_percent = []\<rparr>, mr_memory = default_memory,
     mr_load = default_load, mr_disks = [], mr_network = default_network, mr_filesystems = []\<rparr>"

definition sample_record :: node_record where
  "sample_record = \<lparr>nr_info = sample_info, nr_status = Registered, nr_last_seen_unix = 20,
     nr_latest_metrics = None\<rparr>"

definition state0 :: "document mem_db shared_state" where
  "state0 = \<lparr>ss_nodes = [], ss_channels = [], ss_chans = [], ss_db = empty_db,
     ss_thresholds = default_thresholds, ss_node_timeout = from_secs 30,
     ss_metrics_interval_secs = 10, ss_epoch = 10\<rparr>"

definition db1 :: "document mem_db" where
  "db1 = empty_db(NODES := [(''n1'', NodeDoc sample_record)])"

definition state1 :: "document mem_db shared_state" where
  "state1 = state0\<lparr>ss_nodes := [(''n1'', sample_record)], ss_db := db1\<rparr>"

lemmas sample_defs = sample_store_def empty_db_def sample_cfg_def sample_info_def
  sample_report_def sample_record_def state0_def db1_def state1_def default_daemon_config_def

lemmas store_defs = redb_store_def put_node_def load_nodes_def delete_node_def put_outcome_def
  load_outcomes_def mem_redb_def mem_json_def committed_def

lemma sample_boot: "bootstrap sample_store sample_cfg 10 empty_db = Inr state0"
  by (simp add: sample_defs store_defs bootstrap_def btree_collect_def)

lemma sample_node_id [simp]: "ni_node_id sample_info = ''n1''"
  by (simp add: sample_info_def)

lemma sample_register: "register_node sample_store 20 20 sample_info state0 = (Inr sample_record, state1)"
  by (simp add: register_node_def register_mem_def persist_def sample_store_def store_defs
      state0_def state1_def db1_def empty_db_def Let_def sample_record_def node_record_new_def)

text \<open>The store calls of the sample runs.\<close>

lemma sample_persist:
  "persist sample_store r s = (Inr (), s\<lparr>ss_db := (ss_db s)(NODES :=
     AList.update (ni_node_id (nr_info r)) (NodeDoc r) (ss_db s NODES))\<rparr>)"
  by (simp add: persist_def sample_store_def store_defs)

lemma sample_unpersist:
  "unpersist sample_store i s = (Inr (map_of (ss_db s NODES) i \<noteq> None), s\<lparr>ss_db := (ss_db s)(NODES :=
     AList.delete i (ss_db s NODES))\<rparr>)"
  by (simp add: unpersist_def sample_store_def store_defs)

lemma sample_boot_one:
  "db NODES = [(k, NodeDoc r)] \<Longrightarrow> record_finite r \<Longrightarrow>
     \<exists>s'. bootstrap sample_store cfg now db = Inr s'"
  by (simp add: bootstrap_def sample_store_def store_defs btree_collect_def)

lemma sample_record_finite [simp]: "record_finite sample_record"
  by (simp add: record_finite_def sample_record_def)

end
