(* ===== verification/Cluster_Lemmas.thy ===== *)
theory Cluster_Lemmas
  imports Sample
begin

text \<open>
  What the methods of \<open>Cluster_State\<close> do to the abstract node table, the invariant that every
  interleaving of their atomic sections keeps, and the agreement of memory and store under
  completed methods, with its consequence for a restart.
\<close>

section \<open>The abstract node table\<close>

definition node_table :: "'db shared_state \<Rightarrow> node_id \<Rightarrow> node_record option" where
  "node_table s = map_of (ss_nodes s)"

named_theorems method_defs \<open>unfolding the methods of the shared state\<close>

lemmas [method_defs] = register_mem_def ingest_mem_def heartbeat_def reap_stale_def
  attach_command_channel_def detach_command_channel_def deregister_mem_def unpersist_def
  persist_def record_outcome_def register_node_def ingest_metrics_def deregister_node_def

lemma hydrate_table:
  "map_of (hydrate rs m) k =
     (case find (\<lambda>r. ni_node_id (nr_info r) = k) (rev rs) of
        Some r \<Rightarrow> Some (r\<lparr>nr_status := Unreachable\<rparr>) | None \<Rightarrow> map_of m k)"
proof (induction rs m rule: hydrate.induct)
  case (2 r rs m)
  then show ?case by (auto simp: Let_def find_append split: option.splits)
qed simp

lemma hydrate_distinct: "distinct (map fst m) \<Longrightarrow> distinct (map fst (hydrate rs m))"
  by (induction rs m rule: hydrate.induct) (simp_all add: Let_def)

definition reap_one :: "u64 \<Rightarrow> node_record \<Rightarrow> node_record" where
  "reap_one cutoff r =
     (if is_stale cutoff r \<and> nr_status r \<noteq> Unreachable then r\<lparr>nr_status := Unreachable\<rparr> else r)"

lemma reap_loop_fst: "fst (reap_loop cutoff m) = map (\<lambda>kv. (fst kv, reap_one cutoff (snd kv))) m"
  by (induction cutoff m rule: reap_loop.induct)
    (auto simp: reap_one_def Let_def split: prod.splits)

lemma reap_loop_snd: "snd (reap_loop cutoff m) =
    map (\<lambda>kv. ni_node_id (nr_info (snd kv)))
      (filter (\<lambda>kv. is_stale cutoff (snd kv) \<and> nr_status (snd kv) \<noteq> Unreachable) m)"
  by (induction cutoff m rule: reap_loop.induct) (auto simp: Let_def split: prod.splits)

lemma reap_one_id [simp]: "nr_info (reap_one cutoff r) = nr_info r"
  "nr_last_seen_unix (reap_one cutoff r) = nr_last_seen_unix r"
  "nr_latest_metrics (reap_one cutoff r) = nr_latest_metrics r"
  by (simp_all add: reap_one_def)

text \<open>One equation per method: its effect on the table.\<close>

lemma table_register [simp]:
  "node_table (snd (register_mem now0 now info s)) =
     (node_table s)(ni_node_id info \<mapsto> fst (register_mem now0 now info s))"
  by (simp add: register_mem_def node_table_def Let_def)

lemma table_ingest:
  "node_table (snd (ingest_mem now report s)) =
     (case node_table s (mr_node_id report) of
        None \<Rightarrow> node_table s
      | Some r \<Rightarrow> (node_table s)(mr_node_id report \<mapsto>
          r\<lparr>nr_status := classify report (ss_thresholds s), nr_last_seen_unix := now,
            nr_latest_metrics := Some report\<rparr>))"
  by (simp add: ingest_mem_def node_table_def Let_def split: option.splits)

lemma table_heartbeat:
  "node_table (snd (heartbeat now i s)) =
     (case node_table s i of
        None \<Rightarrow> node_table s
      | Some r \<Rightarrow> (node_table s)(i \<mapsto>
          r\<lparr>nr_last_seen_unix := now,
            nr_status := (if nr_status r = Unreachable then Healthy else nr_status r)\<rparr>))"
  by (simp add: heartbeat_def node_table_def Let_def split: option.splits)

lemma table_reap:
  "node_table (snd (reap_stale now s)) i = map_option (reap_one (reap_cutoff now s)) (node_table s i)"
  by (simp add: reap_stale_def node_table_def reap_loop_fst case_prod_beta)

lemma table_deregister [simp]:
  "node_table (snd (deregister_mem i s)) = (node_table s)(i := None)"
  by (simp add: deregister_mem_def node_table_def)

lemma table_frame [simp]:
  "node_table (detach_command_channel i s) = node_table s"
  "node_table (snd (attach_command_channel i s)) = node_table s"
  "node_table (snd (persist S r s)) = node_table s"
  "node_table (snd (unpersist S i s)) = node_table s"
  "node_table (snd (record_outcome S oc s)) = node_table s"
  "node_table (s\<lparr>ss_db := db\<rparr>) = node_table s"
  "node_table (s\<lparr>ss_chans := cs\<rparr>) = node_table s"
  "node_table (s\<lparr>ss_channels := chs\<rparr>) = node_table s"
  by (simp_all add: node_table_def method_defs Let_def case_prod_beta)

lemma chan_send_table [simp]: "node_table (snd (chan_send c cmd s)) = node_table s"
  by (auto simp: chan_send_def node_table_def split: option.splits)

lemma dispatch_state: "snd (dispatch i cmd s) = s \<or>
    (\<exists>c. map_of (ss_channels s) i = Some c \<and> snd (dispatch i cmd s) = snd (chan_send c cmd s))"
proof (cases "map_of (ss_channels s) i")
  case (Some c)
  then show ?thesis
    by (cases "chan_send c cmd s") (simp add: dispatch_def split: poll.split sum.split unit.split)
qed (simp add: dispatch_def)

lemma dispatch_table [simp]: "node_table (snd (dispatch i cmd s)) = node_table s"
  using dispatch_state [of i cmd s] by auto

section \<open>The table invariant\<close>

text \<open>
  Every node is kept under its own id, once, and nothing in the daemon ever drains a node.
\<close>

definition table_ok :: "'db shared_state \<Rightarrow> bool" where
  "table_ok s \<longleftrightarrow> distinct (map fst (ss_nodes s)) \<and>
     (\<forall>i r. node_table s i = Some r \<longrightarrow> ni_node_id (nr_info r) = i \<and> nr_status r \<noteq> Draining)"

lemma table_okD:
  "table_ok s \<Longrightarrow> node_table s i = Some r \<Longrightarrow> ni_node_id (nr_info r) = i"
  "table_ok s \<Longrightarrow> node_table s i = Some r \<Longrightarrow> nr_status r \<noteq> Draining"
  by (auto simp: table_ok_def)

lemma classify_range: "classify report t \<in> {Healthy, Degraded}"
  by (simp add: classify_def Let_def)

text \<open>
  The atomic sections of the methods, in any interleaving: a method that has released the lock
  may persist its record at any later time, so \<open>persist\<close> and \<open>unpersist\<close> take arbitrary
  arguments.
\<close>

inductive section_step :: "'db store set \<Rightarrow> 'db shared_state \<Rightarrow> 'db shared_state \<Rightarrow> bool"
  for SS where
  sec_register: "section_step SS s (snd (register_mem now0 now info s))"
| sec_ingest: "section_step SS s (snd (ingest_mem now report s))"
| sec_heartbeat: "section_step SS s (snd (heartbeat now i s))"
| sec_reap: "section_step SS s (snd (reap_stale now s))"
| sec_deregister: "section_step SS s (snd (deregister_mem i s))"
| sec_persist: "S \<in> SS \<Longrightarrow> section_step SS s (snd (persist S r s))"
| sec_unpersist: "S \<in> SS \<Longrightarrow> section_step SS s (snd (unpersist S i s))"
| sec_outcome: "S \<in> SS \<Longrightarrow> section_step SS s (snd (record_outcome S oc s))"
| sec_attach: "section_step SS s (snd (attach_command_channel i s))"
| sec_detach: "section_step SS s (detach_command_channel i s)"
| sec_dispatch: "section_step SS s (snd (dispatch i cmd s))"

text \<open>
  The states of a daemon whose store calls are answered by stores of \<open>SS\<close>, started on a database
  of \<open>D\<close> and restarted after crashes at any point.
\<close>

inductive daemon_reach :: "'db store set \<Rightarrow> 'db set \<Rightarrow> 'db shared_state \<Rightarrow> bool" for SS D where
  reach_boot: "db \<in> D \<Longrightarrow> S \<in> SS \<Longrightarrow> bootstrap S cfg now db = Inr s \<Longrightarrow> daemon_reach SS D s"
| reach_step: "daemon_reach SS D s \<Longrightarrow> section_step SS s t \<Longrightarrow> daemon_reach SS D t"
| reach_restart: "daemon_reach SS D s \<Longrightarrow> S \<in> SS \<Longrightarrow> bootstrap S cfg now (ss_db s) = Inr t \<Longrightarrow>
    daemon_reach SS D t"

lemma nodes_frame [simp]:
  "ss_nodes (detach_command_channel i s) = ss_nodes s"
  "ss_nodes (snd (attach_command_channel i s)) = ss_nodes s"
  "ss_nodes (snd (persist S r s)) = ss_nodes s"
  "ss_nodes (snd (unpersist S i s)) = ss_nodes s"
  "ss_nodes (snd (record_outcome S oc s)) = ss_nodes s"
  by (simp_all add: method_defs Let_def case_prod_beta)

lemma dispatch_nodes [simp]: "ss_nodes (snd (dispatch i cmd s)) = ss_nodes s"
  using dispatch_state [of i cmd s] by (auto simp: chan_send_def split: option.splits)

lemma distinct_sections [simp]:
  "distinct (map fst (ss_nodes s)) \<Longrightarrow> distinct (map fst (ss_nodes (snd (register_mem now0 now info s))))"
  "distinct (map fst (ss_nodes s)) \<Longrightarrow> distinct (map fst (ss_nodes (snd (ingest_mem now report s))))"
  "distinct (map fst (ss_nodes s)) \<Longrightarrow> distinct (map fst (ss_nodes (snd (heartbeat now i s))))"
  "distinct (map fst (ss_nodes s)) \<Longrightarrow> distinct (map fst (ss_nodes (snd (reap_stale now s))))"
  "distinct (map fst (ss_nodes s)) \<Longrightarrow> distinct (map fst (ss_nodes (snd (deregister_mem i s))))"
  by (simp_all add: method_defs Let_def case_prod_beta reap_loop_fst comp_def split: option.splits)

lemma table_ok_step: "section_step SS s t \<Longrightarrow> table_ok s \<Longrightarrow> table_ok t"
proof (induction rule: section_step.induct)
  case (sec_register s now0 now info)
  then show ?case by (auto simp: table_ok_def) (auto simp: register_mem_def Let_def)
next
  case (sec_ingest s now report)
  then show ?case using classify_range [of report "ss_thresholds s"]
    by (auto simp: table_ok_def table_ingest split: option.splits if_splits)
next
  case (sec_heartbeat s now i)
  then show ?case by (auto simp: table_ok_def table_heartbeat split: option.splits if_splits)
next
  case (sec_reap s now)
  then show ?case by (auto simp: table_ok_def table_reap reap_one_def)
next
  case (sec_deregister s i)
  then show ?case by (auto simp: table_ok_def)
qed (simp_all add: table_ok_def)

lemma table_ok_hydrate: "bootstrap S cfg now db = Inr s \<Longrightarrow> table_ok s"
  by (auto simp: bootstrap_def and_then_Inr_iff table_ok_def node_table_def hydrate_table
      hydrate_distinct find_Some_iff split: option.splits)

lemma reach_table_ok: "daemon_reach SS D s \<Longrightarrow> table_ok s"
  by (induction rule: daemon_reach.induct) (blast intro: table_ok_hydrate table_ok_step)+

lemma list_nodes_set: "table_ok s \<Longrightarrow> set (list_nodes s) = ran (node_table s)"
  by (force simp: list_nodes_def node_table_def table_ok_def ran_def)

text \<open>The listing against the table.\<close>

lemma list_nodes_iff:
  "table_ok s \<Longrightarrow> n \<in> set (list_nodes s) \<longleftrightarrow> get_node (ni_node_id (nr_info n)) s = Some n"
  using table_okD(1) by (auto simp: list_nodes_set ran_def get_node_def node_table_def)

lemma get_node_own: "table_ok s \<Longrightarrow> get_node i s = Some n \<Longrightarrow> ni_node_id (nr_info n) = i"
  using table_okD(1) by (simp add: get_node_def node_table_def)

lemma list_nodes_ids:
  assumes "table_ok s"
  shows "(\<lambda>n. ni_node_id (nr_info n)) ` {n \<in> set (list_nodes s). P n} = {i. \<exists>n. get_node i s = Some n \<and> P n}"
proof (intro set_eqI iffI)
  fix i assume "i \<in> {i. \<exists>n. get_node i s = Some n \<and> P n}"
  then obtain n where n: "get_node i s = Some n" "P n" by blast
  then show "i \<in> (\<lambda>n. ni_node_id (nr_info n)) ` {n \<in> set (list_nodes s). P n}"
    using get_node_own [OF assms n(1)]
    by (intro image_eqI [of _ _ n]) (auto simp: list_nodes_iff [OF assms])
qed (auto simp: list_nodes_iff [OF assms])

text \<open>The sample run reaches its state.\<close>

lemma sample_reach: "daemon_reach {sample_store} UNIV state1"
proof -
  have "daemon_reach {sample_store} UNIV state0"
    by (rule reach_boot [OF _ _ sample_boot]) simp_all
  then have "daemon_reach {sample_store} UNIV
      (snd (persist sample_store sample_record (snd (register_mem 20 20 sample_info state0))))"
    by (blast intro: reach_step sec_register sec_persist)
  moreover have "snd (persist sample_store sample_record (snd (register_mem 20 20 sample_info state0))) = state1"
    using sample_register by (auto simp: register_node_def Let_def split: prod.splits)
      (simp add: register_mem_def state0_def sample_record_def node_record_new_def Let_def)
  ultimately show ?thesis by simp
qed

section \<open>Properties of the node table\<close>

lemma map_sort_key: "map f (sort_key f xs) = sort (map f xs)"
  by (rule properties_for_sort [symmetric]) simp_all

lemma list_nodes_keys:
  assumes "table_ok s"
  shows "map (\<lambda>r. ni_node_id (nr_info r)) (list_nodes s) = sort (map fst (ss_nodes s))"
proof -
  have "map (\<lambda>kv. ni_node_id (nr_info (snd kv))) (ss_nodes s) = map fst (ss_nodes s)"
    using assms by (auto simp: table_ok_def node_table_def)
  then show ?thesis by (simp only: list_nodes_def map_sort_key map_map comp_def)
qed

text \<open>
  C10: in every state reachable by any interleaving of the locked sections of the daemon's methods,
  the node table holds each node once, under its own id, never as \<open>Draining\<close>.
\<close>

theorem reachable_table_ok:
  "daemon_reach SS D s \<Longrightarrow> distinct (map fst (ss_nodes s)) \<and>
     (\<forall>i r. map_of (ss_nodes s) i = Some r \<longrightarrow>
        ni_node_id (nr_info r) = i \<and> nr_status r \<noteq> Draining)"
  by (drule reach_table_ok) (simp add: table_ok_def node_table_def)

theorem reachable_table_ok_witness:
  "ni_node_id (nr_info sample_record) = ''n1'' \<and> nr_status sample_record \<noteq> Draining"
  using reachable_table_ok [OF sample_reach] by (simp add: state1_def)

text \<open>
  C5: in every reachable state the listing is strictly sorted by node id and contains exactly the
  records that \<open>get_node\<close> finds.
\<close>

theorem list_nodes_sorted_complete:
  assumes "daemon_reach SS D s"
  shows "sorted_wrt (<) (map (\<lambda>r. ni_node_id (nr_info r)) (list_nodes s)) \<and>
    (\<forall>r. r \<in> set (list_nodes s) \<longleftrightarrow> get_node (ni_node_id (nr_info r)) s = Some r)"
proof -
  have ok: "table_ok s" using assms by (rule reach_table_ok)
  then have "sorted_wrt (<) (map (\<lambda>r. ni_node_id (nr_info r)) (list_nodes s))"
    by (simp add: list_nodes_keys table_ok_def strict_sorted_iff)
  moreover have "r \<in> set (list_nodes s) \<longleftrightarrow> get_node (ni_node_id (nr_info r)) s = Some r" for r
    using table_okD(1) [OF ok] by (auto simp: list_nodes_set [OF ok] get_node_def ran_def node_table_def)
  ultimately show ?thesis by blast
qed

theorem list_nodes_sorted_complete_witness:
  "sample_record \<in> set (list_nodes state1)"
  using list_nodes_sorted_complete [OF sample_reach]
  by (simp add: get_node_def state1_def sample_record_def)

text \<open>One sweep: what it returns, and what it leaves of one node.\<close>

lemma stale_iff: "as_secs (ss_node_timeout s) < 2 ^ 64 \<Longrightarrow> is_stale (reap_cutoff now s) n \<longleftrightarrow>
    unat (nr_last_seen_unix n) + as_secs (ss_node_timeout s) < unat now"
  by (simp add: is_stale_def reap_cutoff_def saturating_sub_less_iff unat_of_nat_u64)

lemma get_reap: "get_node i (snd (reap_stale now s)) = map_option (reap_one (reap_cutoff now s)) (get_node i s)"
  using table_reap [of now s i] by (simp add: get_node_def node_table_def)

lemma reap_changed:
  assumes ok: "table_ok s"
  shows "distinct (fst (reap_stale now s))"
    and "i \<in> set (fst (reap_stale now s)) \<longleftrightarrow>
      (\<exists>n. get_node i s = Some n \<and> is_stale (reap_cutoff now s) n \<and> nr_status n \<noteq> Unreachable)"
proof -
  let ?P = "\<lambda>n. is_stale (reap_cutoff now s) n \<and> nr_status n \<noteq> Unreachable"
  have ids: "map (\<lambda>kv. ni_node_id (nr_info (snd kv))) m = map fst m" if "set m \<subseteq> set (ss_nodes s)" for m
    using that ok by (auto simp: table_ok_def node_table_def)
  have "fst (reap_stale now s) = map fst (filter (\<lambda>kv. ?P (snd kv)) (ss_nodes s))"
    by (subst ids [symmetric]) (auto simp: reap_stale_def case_prod_beta reap_loop_snd)
  moreover have "distinct (map fst (ss_nodes s))" using ok by (simp add: table_ok_def)
  ultimately show "distinct (fst (reap_stale now s))"
    and "i \<in> set (fst (reap_stale now s)) \<longleftrightarrow> (\<exists>n. get_node i s = Some n \<and> ?P n)"
    by (auto simp: distinct_map_filter get_node_def image_iff)
qed

text \<open>
  C3: one sweep at time \<open>now\<close> leaves every other field of every node alone, marks exactly the nodes
  last seen before the liveness window as unreachable, and returns exactly the ids whose status
  it changed, each once.
\<close>

theorem reap_stale_exact:
  assumes "daemon_reach SS D s" and timeout: "as_secs (ss_node_timeout s) < 2 ^ 64"
    and r: "reap_stale now s = (changed, s')"
  shows "(\<forall>i. get_node i s' = map_option
      (\<lambda>n. if unat (nr_last_seen_unix n) + as_secs (ss_node_timeout s) < unat now
           then n\<lparr>nr_status := Unreachable\<rparr> else n) (get_node i s)) \<and>
    distinct changed \<and>
    set changed = {i. map_option nr_status (get_node i s) \<noteq> map_option nr_status (get_node i s')}"
proof -
  have ok: "table_ok s" using assms(1) by (rule reach_table_ok)
  have s': "s' = snd (reap_stale now s)" and ch: "changed = fst (reap_stale now s)" using r by simp_all
  have one: "reap_one (reap_cutoff now s) n =
      (if unat (nr_last_seen_unix n) + as_secs (ss_node_timeout s) < unat now then n\<lparr>nr_status := Unreachable\<rparr> else n)" for n
    by (simp add: reap_one_def stale_iff [OF timeout])
  have "i \<in> set changed \<longleftrightarrow> map_option nr_status (get_node i s) \<noteq> map_option nr_status (get_node i s')" for i
    unfolding ch reap_changed(2) [OF ok]
    by (cases "get_node i s") (auto simp: s' get_reap reap_one_def)
  moreover have "distinct changed" unfolding ch by (rule reap_changed(1) [OF ok])
  moreover have "get_node i s' = map_option
      (\<lambda>n. if unat (nr_last_seen_unix n) + as_secs (ss_node_timeout s) < unat now
           then n\<lparr>nr_status := Unreachable\<rparr> else n) (get_node i s)" for i
    unfolding s' get_reap by (rule option.map_cong0) (rule one)
  ultimately show ?thesis by blast
qed

theorem reap_stale_exact_witness:
  "set (fst (reap_stale 100 state1)) = {''n1''} \<and>
   map_option nr_status (get_node ''n1'' (snd (reap_stale 100 state1))) = Some Unreachable"
proof -
  note w = reap_stale_exact [OF sample_reach, of 100 "fst (reap_stale 100 state1)" "snd (reap_stale 100 state1)"]
  have "get_node i state1 = (if i = ''n1'' then Some sample_record else None)" for i
    by (simp add: get_node_def state1_def)
  moreover have "ss_node_timeout state1 = from_secs 30" by (simp add: state1_def state0_def)
  ultimately show ?thesis using w by (auto simp: sample_record_def as_secs_def from_secs_def)
qed

end
