(* ===== verification/Cluster_Refine.thy ===== *)
theory Cluster_Refine
  imports Cluster_Lemmas Sample
begin

text \<open>
  Memory and store. Completed methods keep the durable documents in agreement with the node
  table (static description and latest sample; status and last-seen time are not written by
  heartbeats and sweeps), so a restart recovers the table. The lemmas are proved for any store
  that meets \<open>durable_store\<close> and reach the redb store by its sublocale.
\<close>

section \<open>Agreement\<close>

text \<open>A document agrees with a record: it is, or reads back from, one with the same content.\<close>

definition agrees :: "(node_record \<Rightarrow> string + node_record) \<Rightarrow> node_record \<Rightarrow>
    string + node_record \<Rightarrow> bool" where
  "agrees rb r x \<longleftrightarrow> (\<exists>r'. (x = Inr r' \<or> x = rb r') \<and> nr_info r' = nr_info r \<and>
     nr_latest_metrics r' = nr_latest_metrics r)"

definition in_sync ::
  "('db \<Rightarrow> node_id \<Rightarrow> (string + node_record) option) \<Rightarrow> (node_record \<Rightarrow> string + node_record) \<Rightarrow>
     'db shared_state \<Rightarrow> bool" where
  "in_sync stored rb s \<longleftrightarrow>
     (\<forall>i. rel_option (agrees rb) (node_table s i) (stored (ss_db s) i))"

lemma agrees_refl: "agrees rb r (rb r)" "agrees rb r (Inr r)"
  by (auto simp: agrees_def)

lemma agrees_cong: "nr_info r' = nr_info r \<Longrightarrow> nr_latest_metrics r' = nr_latest_metrics r \<Longrightarrow>
    agrees rb r' x = agrees rb r x"
  by (simp add: agrees_def)

text \<open>The content of the table that agreement looks at.\<close>

definition content :: "'db shared_state \<Rightarrow> node_id \<Rightarrow> (node_info \<times> metrics_report option) option" where
  "content s i = map_option (\<lambda>r. (nr_info r, nr_latest_metrics r)) (node_table s i)"

lemma agrees_content:
  "map_option (\<lambda>r. (nr_info r, nr_latest_metrics r)) a =
   map_option (\<lambda>r. (nr_info r, nr_latest_metrics r)) b \<Longrightarrow>
     rel_option (agrees rb) a x = rel_option (agrees rb) b x"
  by (cases a; cases b; cases x) (auto simp: agrees_def)

lemma in_sync_cong:
  assumes "content t = content s" and "stored (ss_db t) = stored (ss_db s)"
  shows "in_sync stored rb t = in_sync stored rb s"
proof -
  have "rel_option (agrees rb) (node_table t i) x = rel_option (agrees rb) (node_table s i) x" for i x
    using fun_cong [OF assms(1), of i] by (intro agrees_content) (simp add: content_def)
  then show ?thesis by (simp add: in_sync_def assms(2))
qed

lemma content_heartbeat: "content (snd (heartbeat now i s)) = content s"
  by (auto simp: content_def table_heartbeat fun_eq_iff split: option.splits)

lemma content_reap: "content (snd (reap_stale now s)) = content s"
  by (auto simp: content_def table_reap fun_eq_iff option.map_comp comp_def)

lemma content_frame [simp]:
  "content (detach_command_channel i s) = content s"
  "content (snd (attach_command_channel i s)) = content s"
  "content (snd (persist S r s)) = content s"
  "content (snd (unpersist S i s)) = content s"
  "content (snd (record_outcome S oc s)) = content s"
  "content (snd (dispatch i cmd s)) = content s"
  by (simp_all add: content_def fun_eq_iff)

lemma db_frame [simp]:
  "ss_db (detach_command_channel i s) = ss_db s"
  "ss_db (snd (attach_command_channel i s)) = ss_db s"
  "ss_db (snd (register_mem now0 now info s)) = ss_db s"
  "ss_db (snd (ingest_mem now report s)) = ss_db s"
  "ss_db (snd (heartbeat now i s)) = ss_db s"
  "ss_db (snd (reap_stale now s)) = ss_db s"
  "ss_db (snd (deregister_mem i s)) = ss_db s"
  by (simp_all add: method_defs Let_def case_prod_beta split: option.splits)

lemma dispatch_db [simp]: "ss_db (snd (dispatch i cmd s)) = ss_db s"
  using dispatch_state [of i cmd s] by (auto simp: chan_send_def split: option.splits)

text \<open>Documents are kept under the id of the node they describe.\<close>

definition filed :: "(node_id \<Rightarrow> (string + node_record) option) \<Rightarrow> bool" where
  "filed d \<longleftrightarrow> (\<forall>i r. d i = Some (Inr r) \<longrightarrow> ni_node_id (nr_info r) = i)"

section \<open>Each method that succeeds keeps agreement\<close>

context durable_store
begin

lemma persist_sync:
  assumes "persist S r s = (Inr (), t)"
    and sync: "\<And>i. i \<noteq> ni_node_id (nr_info r) \<Longrightarrow>
      rel_option (agrees rb) (node_table s i) (stored (ss_db s) i)"
    and "node_table s (ni_node_id (nr_info r)) = Some r"
  shows "in_sync stored rb t"
proof -
  obtain db' where put: "st_put_node S r (ss_db s) = (Inr (), db')" and t: "t = s\<lparr>ss_db := db'\<rparr>"
    using assms(1) by (auto simp: persist_def split: prod.splits)
  show ?thesis
    using put_ok [OF put] assms(3) agrees_refl sync by (auto simp: in_sync_def t)
qed

lemma register_sync:
  assumes "register_node S now0 now info s = (Inr r, t)" and "in_sync stored rb s"
  shows "in_sync stored rb t"
proof -
  obtain r1 s1 where m: "register_mem now0 now info s = (r1, s1)" by fastforce
  have p: "persist S r1 s1 = (Inr (), t)"
    using assms(1) m by (auto simp: register_node_def and_then_Inr_iff split: prod.splits)
  have "node_table s1 = (node_table s)(ni_node_id info \<mapsto> r1)"
    using table_register [of now0 now info s] m by simp
  moreover have "ss_db s1 = ss_db s" using db_frame(3) [of now0 now info s] m by simp
  moreover have "nr_info r1 = info" using m by (auto simp: register_mem_def Let_def)
  ultimately show ?thesis
    using persist_sync [OF p] assms(2) by (simp add: in_sync_def)
qed

lemma ingest_sync:
  assumes "ingest_metrics S now report s = (Inr (), t)" and "in_sync stored rb s" and "table_ok s"
  shows "in_sync stored rb t"
proof -
  obtain r1 s1 where m: "ingest_mem now report s = (Inr r1, s1)" and p: "persist S r1 s1 = (Inr (), t)"
    using assms(1) by (auto simp: ingest_metrics_def split: prod.splits sum.splits)
  from m obtain r where r: "node_table s (mr_node_id report) = Some r" and i: "nr_info r1 = nr_info r"
    and s1: "s1 = s\<lparr>ss_nodes := AList.update (mr_node_id report) r1 (ss_nodes s)\<rparr>"
    by (auto simp: ingest_mem_def node_table_def Let_def split: option.splits)
  have "node_table s1 = (node_table s)(mr_node_id report \<mapsto> r1)" by (simp add: s1 node_table_def)
  moreover have "ni_node_id (nr_info r1) = mr_node_id report"
    using table_okD(1) [OF assms(3) r] by (simp add: i)
  moreover have "ss_db s1 = ss_db s" by (simp add: s1)
  ultimately show ?thesis
    using persist_sync [OF p] assms(2) by (simp add: in_sync_def)
qed

lemma deregister_sync:
  assumes "deregister_node S i s = (Inr b, t)" and "in_sync stored rb s"
  shows "in_sync stored rb t"
proof -
  let ?s2 = "detach_command_channel i (snd (deregister_mem i s))"
  obtain c where u: "unpersist S i ?s2 = (Inr c, t)"
    using assms(1) by (auto simp: deregister_node_def and_then_Inr_iff Let_def split: prod.splits)
  then obtain db' where "st_delete_node S i (ss_db ?s2) = (Inr c, db')" and t: "t = ?s2\<lparr>ss_db := db'\<rparr>"
    by (auto simp: unpersist_def split: prod.splits)
  then have "stored db' = (stored (ss_db s))(i := None)" using del_ok by simp
  moreover have "node_table t = (node_table s)(i := None)" and "ss_db t = db'" by (simp_all add: t)
  ultimately show ?thesis using assms(2) by (auto simp: in_sync_def)
qed

lemma boot_table:
  assumes boot: "bootstrap S cfg now db = Inr s'" and filed: "filed (stored db)"
  obtains t where "stored db = (\<lambda>i. map_option Inr (t i))" and "ss_db s' = db"
    and "node_table s' = (\<lambda>i. map_option (\<lambda>r. r\<lparr>nr_status := Unreachable\<rparr>) (t i))"
proof -
  obtain rs where load: "st_load_nodes S db = Inr rs"
    and s': "ss_nodes s' = hydrate rs []" "ss_db s' = db"
    using boot by (auto simp: bootstrap_def and_then_Inr_iff)
  obtain ks where len: "length ks = length rs" and bt: "btree_ok (zip ks rs)"
    and st: "\<And>i. stored db i = map_option Inr (map_of (zip ks rs) i)"
    using load_ok [OF load] by (metis (full_types))
  have dist: "distinct ks" using btree_ok_distinct [OF bt] len by simp
  have ids: "map (\<lambda>r. ni_node_id (nr_info r)) rs = ks"
  proof (rule nth_equalityI)
    fix j assume "j < length (map (\<lambda>r. ni_node_id (nr_info r)) rs)"
    then have j: "j < length rs" by simp
    then have "map_of (zip ks rs) (ks ! j) = Some (rs ! j)"
      using len dist by (intro map_of_zip_nth) simp_all
    then show "map (\<lambda>r. ni_node_id (nr_info r)) rs ! j = ks ! j"
      using filed j by (simp add: filed_def st)
  qed (use len in simp)
  have "node_table s' i = map_option (\<lambda>r. r\<lparr>nr_status := Unreachable\<rparr>) (map_of (zip ks rs) i)" for i
    using find_rev_distinct [of "\<lambda>r. ni_node_id (nr_info r)" rs i] dist
    by (simp add: node_table_def s' hydrate_table ids split: option.splits)
  then show thesis using st s' by (intro that [of "map_of (zip ks rs)"]) (simp_all add: fun_eq_iff)
qed

lemma sync_filed:
  assumes "in_sync stored rb s" and "table_ok s"
  shows "filed (stored (ss_db s))"
  unfolding filed_def
proof (intro allI impI)
  fix i p assume "stored (ss_db s) i = Some (Inr p)"
  then have "rel_option (agrees rb) (node_table s i) (Some (Inr p))"
    using assms(1) [unfolded in_sync_def, rule_format, of i] by simp
  then obtain r where r: "node_table s i = Some r" "agrees rb r (Inr p)"
    by (auto simp: option_rel_Some2)
  then have "nr_info p = nr_info r" unfolding agrees_def by (metis rb_info sum.inject(2))
  then show "ni_node_id (nr_info p) = i" using table_okD(1) [OF assms(2) r(1)] by simp
qed

text \<open>
  A restart finds every node the table held, unreachable until it reports again; the new table
  agrees with the store in turn.
\<close>

lemma restart:
  assumes boot: "bootstrap S cfg now (ss_db s) = Inr s'" and sync: "in_sync stored rb s"
    and ok: "table_ok s"
  shows "rel_option (\<lambda>r r'. nr_info r' = nr_info r \<and> nr_status r' = Unreachable \<and>
      (\<exists>p. agrees rb r (Inr p) \<and> nr_latest_metrics r' = nr_latest_metrics p))
      (node_table s i) (node_table s' i)"
    and "rel_option (agrees rb) (node_table s' i) (stored (ss_db s') i)"
proof -
  obtain t where st: "stored (ss_db s) = (\<lambda>i. map_option Inr (t i))" and db: "ss_db s' = ss_db s"
    and t: "node_table s' = (\<lambda>i. map_option (\<lambda>r. r\<lparr>nr_status := Unreachable\<rparr>) (t i))"
    by (rule boot_table [OF boot sync_filed [OF sync ok]])
  have rel: "rel_option (agrees rb) (node_table s i) (map_option Inr (t i))"
    using sync by (simp add: in_sync_def st)
  show "rel_option (\<lambda>r r'. nr_info r' = nr_info r \<and> nr_status r' = Unreachable \<and>
      (\<exists>p. agrees rb r (Inr p) \<and> nr_latest_metrics r' = nr_latest_metrics p))
      (node_table s i) (node_table s' i)"
  proof (cases "t i")
    case (Some p)
    then obtain r where r: "node_table s i = Some r" "agrees rb r (Inr p)"
      using rel by (auto simp: option_rel_Some2)
    then have "nr_info p = nr_info r" unfolding agrees_def by (metis rb_info sum.inject(2))
    then show ?thesis using Some r by (auto simp: t intro!: exI [of _ p])
  qed (use rel in \<open>simp add: t\<close>)
  show "rel_option (agrees rb) (node_table s' i) (stored (ss_db s') i)"
    by (cases "t i") (auto simp: t st db agrees_def)
qed

text \<open>Whatever the interleaving, documents stay filed under their own id.\<close>

lemma filed_persist: "filed (stored (ss_db s)) \<Longrightarrow> filed (stored (ss_db (snd (persist S r s))))"
proof (cases "st_put_node S r (ss_db s)")
  case (Pair res db')
  assume f: "filed (stored (ss_db s))"
  show ?thesis
  proof (cases res)
    case (Inl e)
    then show ?thesis using f Pair put_err [of r "ss_db s" e db'] by (simp add: persist_def)
  next
    case (Inr u)
    then have "stored db' = (stored (ss_db s))(ni_node_id (nr_info r) \<mapsto> rb r)"
      using Pair put_ok [of r "ss_db s" db'] by simp
    then show ?thesis using f Pair by (auto simp: persist_def filed_def dest: rb_info)
  qed
qed

lemma filed_unpersist: "filed (stored (ss_db s)) \<Longrightarrow> filed (stored (ss_db (snd (unpersist S i s))))"
proof (cases "st_delete_node S i (ss_db s)")
  case (Pair res db')
  assume f: "filed (stored (ss_db s))"
  show ?thesis
  proof (cases res)
    case (Inl e)
    then show ?thesis using f Pair del_err [of i "ss_db s" e db'] by (simp add: unpersist_def)
  next
    case (Inr b)
    then have "stored db' = (stored (ss_db s))(i := None)"
      using Pair del_ok [of i "ss_db s" b db'] by simp
    then show ?thesis using f Pair by (simp add: unpersist_def filed_def)
  qed
qed

lemma outcome_stored: "stored (ss_db (snd (record_outcome S oc s))) = stored (ss_db s)"
proof (cases "st_put_outcome S oc (ss_db s)")
  case (Pair res db')
  then show ?thesis
    using log_ok [of oc "ss_db s" db'] log_err [of oc "ss_db s" _ db']
    by (cases res) (auto simp: record_outcome_def)
qed

lemma outcome_sync:
  "in_sync stored rb s \<Longrightarrow> in_sync stored rb (snd (record_outcome S oc s))"
  by (simp only: in_sync_cong [OF content_frame(5) outcome_stored])

end

section \<open>Completed methods and restarts\<close>

text \<open>The stores a redb database of fixed contents may present: any engine that behaves.\<close>

definition lawful_stores ::
  "('db \<Rightarrow> table \<Rightarrow> string \<Rightarrow> 'b option) \<Rightarrow> ('tx \<Rightarrow> table \<Rightarrow> string \<Rightarrow> 'b option) \<Rightarrow> 'b json \<Rightarrow>
     (f64 \<Rightarrow> f64) \<Rightarrow> 'db store set" where
  "lawful_stores view tview J jf = {redb_store E J | E. redb_backed E view tview J jf}"

lemma lawful_durable:
  "S \<in> lawful_stores view tview J jf \<Longrightarrow>
     durable_store S (stored_of J view) (log_of J view) (read_back J)"
  by (auto simp: lawful_stores_def dest: redb_backed.durable)

text \<open>A method call that returned success, or a crash followed by a successful bootstrap.\<close>

inductive ok_step :: "'db store set \<Rightarrow> 'db shared_state \<Rightarrow> 'db shared_state \<Rightarrow> bool" for SS where
  ok_register: "S \<in> SS \<Longrightarrow> register_node S now0 now info s = (Inr r, t) \<Longrightarrow> ok_step SS s t"
| ok_ingest: "S \<in> SS \<Longrightarrow> ingest_metrics S now report s = (Inr (), t) \<Longrightarrow> ok_step SS s t"
| ok_heartbeat: "ok_step SS s (snd (heartbeat now i s))"
| ok_reap: "ok_step SS s (snd (reap_stale now s))"
| ok_deregister: "S \<in> SS \<Longrightarrow> deregister_node S i s = (Inr b, t) \<Longrightarrow> ok_step SS s t"
| ok_outcome: "S \<in> SS \<Longrightarrow> ok_step SS s (snd (record_outcome S oc s))"
| ok_attach: "ok_step SS s (snd (attach_command_channel i s))"
| ok_detach: "ok_step SS s (detach_command_channel i s)"
| ok_dispatch: "ok_step SS s (snd (dispatch i cmd s))"
| ok_restart: "S \<in> SS \<Longrightarrow> bootstrap S cfg now (ss_db s) = Inr t \<Longrightarrow> ok_step SS s t"

lemma two_steps:
  "section_step SS a b \<Longrightarrow> section_step SS b c \<Longrightarrow> (section_step SS)\<^sup>*\<^sup>* a c"
  by (rule converse_rtranclp_into_rtranclp [OF _ r_into_rtranclp])

lemma register_sections:
  assumes "S \<in> SS" and "register_node S now0 now info s = (res, t)"
  shows "(section_step SS)\<^sup>*\<^sup>* s t"
proof (rule two_steps [OF sec_register])
  let ?m = "register_mem now0 now info s"
  have "t = snd (persist S (fst ?m) (snd ?m))"
    using assms(2) by (auto simp: register_node_def split: prod.splits)
  then show "section_step SS (snd ?m) t" using sec_persist [OF assms(1)] by simp
qed

lemma ingest_sections:
  assumes "S \<in> SS" and "ingest_metrics S now report s = (res, t)"
  shows "(section_step SS)\<^sup>*\<^sup>* s t"
proof (cases "ingest_mem now report s")
  case (Pair r s1)
  have 1: "section_step SS s s1" using sec_ingest [of SS s now report] Pair by simp
  show ?thesis
  proof (cases r)
    case (Inl e)
    then show ?thesis using assms(2) Pair 1 by (auto simp: ingest_metrics_def)
  next
    case (Inr rec)
    then have "t = snd (persist S rec s1)" using assms(2) Pair by (simp add: ingest_metrics_def)
    then show ?thesis using two_steps [OF 1 sec_persist [OF assms(1)]] by simp
  qed
qed

lemma deregister_sections:
  assumes "S \<in> SS" and "deregister_node S i s = (res, t)"
  shows "(section_step SS)\<^sup>*\<^sup>* s t"
proof -
  let ?s2 = "detach_command_channel i (snd (deregister_mem i s))"
  have "t = snd (unpersist S i ?s2)"
    using assms(2) by (auto simp: deregister_node_def Let_def split: prod.splits)
  then have "section_step SS ?s2 t" using sec_unpersist [OF assms(1)] by simp
  with two_steps [OF sec_deregister sec_detach] show ?thesis
    by (rule rtranclp.rtrancl_into_rtrancl)
qed

lemma table_ok_sections: "(section_step SS)\<^sup>*\<^sup>* s t \<Longrightarrow> table_ok s \<Longrightarrow> table_ok t"
  by (induction rule: rtranclp_induct) (blast intro: table_ok_step)+

lemma ok_step_table_ok: "ok_step SS s t \<Longrightarrow> table_ok s \<Longrightarrow> table_ok t"
  by (induction rule: ok_step.induct)
    (blast intro: table_ok_sections register_sections ingest_sections deregister_sections
      table_ok_step section_step.intros table_ok_hydrate)+

lemma ok_step_sync:
  assumes "ok_step SS s t" and durable: "\<And>S. S \<in> SS \<Longrightarrow> durable_store S stored lg rb"
    and "in_sync stored rb s" and "table_ok s"
  shows "in_sync stored rb t"
  using assms(1,3,4)
proof (induction rule: ok_step.induct)
  case (ok_restart S cfg now s t)
  then show ?case
    unfolding in_sync_def using durable_store.restart(2) [OF durable] in_sync_def by blast
next
  case (ok_heartbeat s now i)
  then show ?case by (simp add: in_sync_cong [OF content_heartbeat])
next
  case (ok_reap s now)
  then show ?case by (simp add: in_sync_cong [OF content_reap])
next
  case (ok_attach s i)
  then show ?case by (simp add: in_sync_cong [OF content_frame(2)])
next
  case (ok_detach s i)
  then show ?case by (simp add: in_sync_cong [OF content_frame(1)])
next
  case (ok_dispatch s i cmd)
  then show ?case by (simp add: in_sync_cong [OF content_frame(6)])
qed (blast intro: durable durable_store.register_sync durable_store.ingest_sync
    durable_store.deregister_sync durable_store.outcome_sync)+

lemma ok_run_sync:
  assumes "(ok_step SS)\<^sup>*\<^sup>* s t" and "\<And>S. S \<in> SS \<Longrightarrow> durable_store S stored lg rb"
    and "in_sync stored rb s \<and> table_ok s"
  shows "in_sync stored rb t \<and> table_ok t"
  using assms(1,3)
proof (induction rule: rtranclp_induct)
  case (step t u)
  then show ?case using ok_step_sync [OF step.hyps(2) assms(2)] ok_step_table_ok by blast
qed simp

lemma bootstrap_empty_sync:
  assumes "durable_store S stored lg rb" and "stored db = (\<lambda>_. None)"
    and "bootstrap S cfg now db = Inr s"
  shows "in_sync stored rb s \<and> table_ok s"
proof -
  obtain rs where rs: "st_load_nodes S db = Inr rs" and s: "ss_nodes s = hydrate rs []" "ss_db s = db"
    using assms(3) by (auto simp: bootstrap_def and_then_Inr_iff)
  obtain ks where ks: "length ks = length rs" "\<And>i. map_option Inr (map_of (zip ks rs) i) =
      (None :: (string + node_record) option)"
    using durable_store.load_ok [OF assms(1) rs] assms(2) by (auto simp: fun_eq_iff)
  have "zip ks rs = []"
    using ks(2) by (cases "zip ks rs") (auto simp: map_of_eq_None_iff, metis fun_upd_same option.simps(3))
  then have "rs = []" using ks(1) by (cases ks; cases rs) auto
  then have "node_table s = (\<lambda>_. None)" using s by (simp add: node_table_def fun_eq_iff)
  then show ?thesis
    using table_ok_hydrate [OF assms(3)] assms(2) s by (simp add: in_sync_def)
qed

end
