(* ===== verification/Cluster_Durability.thy ===== *)
theory Cluster_Durability
  imports Cluster_Refine
begin

text \<open>
  The durability properties of the daemon's state over any redb engine and JSON codec that meet
  their contracts: what a restart recovers, what it cannot read, what a failed write leaves, and
  the interleaving of a registration with a deregistration that leaves a stale document.
\<close>

lemma filed_step:
  assumes "section_step SS s t" and "\<And>S. S \<in> SS \<Longrightarrow> durable_store S stored lg rb"
    and "filed (stored (ss_db s))"
  shows "filed (stored (ss_db t))"
  using assms(1,3)
proof (induction rule: section_step.induct)
  case (sec_persist S s r)
  then show ?case using durable_store.filed_persist [OF assms(2)] by blast
next
  case (sec_unpersist S s i)
  then show ?case using durable_store.filed_unpersist [OF assms(2)] by blast
next
  case (sec_outcome S s oc)
  then show ?case using durable_store.outcome_stored [OF assms(2)] by (simp add: filed_def)
qed simp_all

lemma reach_run:
  "(section_step SS)\<^sup>*\<^sup>* s t \<Longrightarrow> daemon_reach SS D s \<Longrightarrow> daemon_reach SS D t"
  by (induction rule: rtranclp_induct) (auto intro: reach_step)

lemma deregister_table:
  "deregister_node S i s = (res, t) \<Longrightarrow> node_table t = (node_table s)(i := None)"
  by (auto simp: deregister_node_def Let_def split: prod.splits)
    (metis snd_conv table_frame(1,4) table_deregister)

lemma deregister_result:
  "deregister_node S i s = (Inr b, t) \<Longrightarrow> b \<longleftrightarrow> node_table s i \<noteq> None"
  by (auto simp: deregister_node_def and_then_Inr_iff deregister_mem_def node_table_def Let_def
      split: prod.splits)

text \<open>The databases the daemon may first be started on.\<close>

definition fresh_db :: "('db \<Rightarrow> table \<Rightarrow> string \<Rightarrow> 'b option) \<Rightarrow> 'db set" where
  "fresh_db view = {db. view db NODES = Map.empty}"

lemma reach_filed:
  "daemon_reach (lawful_stores view tview J jf) (fresh_db view) s \<Longrightarrow>
     filed (stored_of J view (ss_db s))"
proof (induction rule: daemon_reach.induct)
  case (reach_boot db S cfg now s)
  then show ?case
    by (auto simp: bootstrap_def and_then_Inr_iff fresh_db_def filed_def stored_of_def)
next
  case (reach_step s t)
  then show ?case using filed_step lawful_durable by blast
next
  case (reach_restart s S cfg now t)
  then show ?case by (auto simp: bootstrap_def and_then_Inr_iff)
qed

section \<open>The sample run\<close>

lemma sample_lawful: "sample_store \<in> lawful_stores mem_view mem_view mem_json (\<lambda>x. x)"
  unfolding lawful_stores_def sample_store_def using mem.redb_backed_axioms by blast

lemma sample_lawful_reach:
  "daemon_reach (lawful_stores mem_view mem_view mem_json (\<lambda>x. x)) (fresh_db mem_view) state1"
proof -
  have "empty_db \<in> fresh_db mem_view" by (simp add: fresh_db_def mem_view_def empty_db_def)
  then have "daemon_reach (lawful_stores mem_view mem_view mem_json (\<lambda>x. x)) (fresh_db mem_view) state0"
    by (rule reach_boot [OF _ sample_lawful sample_boot])
  with register_sections [OF sample_lawful sample_register] show ?thesis by (rule reach_run)
qed

lemma sample_reboot: "\<exists>s'. bootstrap sample_store sample_cfg 30 (ss_db state1) = Inr s'"
  by (rule sample_boot_one [where r = sample_record]) (simp_all add: state1_def db1_def)

lemma sample_ingest: "\<exists>t. ingest_metrics sample_store 50 (sample_report NaN) state1 = (Inr (), t)"
  by (simp add: ingest_metrics_def ingest_mem_def sample_persist state1_def sample_report_def Let_def)

lemma sample_deregister: "\<exists>t. deregister_node sample_store ''n1'' state1 = (Inr True, t)"
  by (simp add: deregister_node_def deregister_mem_def sample_unpersist state1_def Let_def)

lemma sample_race: "\<exists>r s1 b s2 s3 s4. register_mem 40 40 sample_info state1 = (r, s1) \<and>
    deregister_node sample_store (ni_node_id sample_info) s1 = (Inr b, s2) \<and>
    persist sample_store r s2 = (Inr (), s3) \<and>
    bootstrap sample_store sample_cfg 60 (ss_db s3) = Inr s4"
proof -
  obtain r s1 where m: "register_mem 40 40 sample_info state1 = (r, s1)" by fastforce
  have r: "nr_info r = sample_info" "record_finite r" and db: "ss_db s1 = db1"
    using m by (auto simp: register_mem_def state1_def sample_record_def record_finite_def Let_def)
  obtain b s2 where d: "deregister_node sample_store ''n1'' s1 = (Inr b, s2)"
    and db2: "ss_db s2 NODES = []"
    by (simp add: deregister_node_def sample_unpersist Let_def case_prod_beta db db1_def)
  obtain s3 where p: "persist sample_store r s2 = (Inr (), s3)" and "ss_db s3 NODES = [(''n1'', NodeDoc r)]"
    by (simp add: sample_persist db2 r)
  then obtain s4 where "bootstrap sample_store sample_cfg 60 (ss_db s3) = Inr s4"
    using sample_boot_one r(2) by blast
  with m d p show ?thesis unfolding sample_node_id by blast
qed

section \<open>Properties\<close>

lemma lawful_restart:
  assumes "S \<in> lawful_stores view tview J jf" and "bootstrap S cfg now (ss_db s) = Inr s'"
    and "in_sync (stored_of J view) (read_back J) s" and "table_ok s"
  shows "rel_option (\<lambda>r r'. nr_info r' = nr_info r \<and> nr_status r' = Unreachable \<and>
      (\<exists>p. agrees (read_back J) r (Inr p) \<and> nr_latest_metrics r' = nr_latest_metrics p))
      (node_table s i) (node_table s' i)"
  using durable_store.restart(1) [OF lawful_durable [OF assms(1)] assms(2-4)] .

lemma lawful_agrees:
  assumes S: "S \<in> lawful_stores view tview J jf" and a: "agrees (read_back J) r (Inr p)"
  shows "nr_latest_metrics p = nr_latest_metrics r \<or>
    nr_latest_metrics p = map_option (report_map_doubles jf) (nr_latest_metrics r)"
proof -
  obtain E where E: "redb_backed E view tview J jf" using S by (auto simp: lawful_stores_def)
  obtain r' where r': "Inr p = Inr r' \<or> Inr p = read_back J r'"
      "nr_latest_metrics r' = nr_latest_metrics r"
    using a by (auto simp: agrees_def)
  show ?thesis
  proof (cases "record_finite r'")
    case True
    then show ?thesis using r' redb_backed.read_back_finite [OF E True] by auto
  next
    case False
    then show ?thesis using r' redb_backed.read_back_null [OF E False] by auto
  qed
qed

text \<open>
  C1: after any run of completed methods and restarts from an empty database, restarting once more
  recovers exactly the nodes of the table, with the description each had, its latest sample
  (doubles up to what the JSON parser returns for them) and the status \<open>Unreachable\<close>.
\<close>

theorem restart_recovers:
  assumes "S0 \<in> lawful_stores view tview J jf" and "view db0 NODES = Map.empty"
    and "bootstrap S0 cfg0 now0 db0 = Inr s0"
    and "(ok_step (lawful_stores view tview J jf))\<^sup>*\<^sup>* s0 s"
    and "S \<in> lawful_stores view tview J jf" and "bootstrap S cfg now (ss_db s) = Inr s'"
  shows "rel_option (\<lambda>r r'. nr_info r' = nr_info r \<and> nr_status r' = Unreachable \<and>
      (nr_latest_metrics r' = nr_latest_metrics r \<or>
       nr_latest_metrics r' = map_option (report_map_doubles jf) (nr_latest_metrics r)))
      (get_node i s) (get_node i s')"
proof -
  have "stored_of J view db0 = (\<lambda>_. None)" using assms(2) by (simp add: stored_of_def fun_eq_iff)
  then have "in_sync (stored_of J view) (read_back J) s0 \<and> table_ok s0"
    by (rule bootstrap_empty_sync [OF lawful_durable [OF assms(1)] _ assms(3)])
  with assms(4) have "in_sync (stored_of J view) (read_back J) s \<and> table_ok s"
    using ok_run_sync lawful_durable by blast
  then have "rel_option (\<lambda>r r'. nr_info r' = nr_info r \<and> nr_status r' = Unreachable \<and>
      (\<exists>p. agrees (read_back J) r (Inr p) \<and> nr_latest_metrics r' = nr_latest_metrics p))
      (get_node i s) (get_node i s')"
    using lawful_restart [OF assms(5,6)] by (simp add: get_node_def node_table_def)
  then show ?thesis
    by (rule option.rel_mono_strong) (metis lawful_agrees [OF assms(5)])
qed

theorem restart_recovers_witness:
  "\<exists>s'. bootstrap sample_store sample_cfg 30 (ss_db state1) = Inr s' \<and>
     map_option nr_status (get_node ''n1'' s') = Some Unreachable"
proof -
  obtain s' where boot: "bootstrap sample_store sample_cfg 30 (ss_db state1) = Inr s'"
    using sample_reboot by blast
  have "(ok_step (lawful_stores mem_view mem_view mem_json (\<lambda>x. x)))\<^sup>*\<^sup>* state0 state1"
    using ok_register [OF sample_lawful sample_register] by blast
  from restart_recovers [OF sample_lawful _ sample_boot this sample_lawful boot, of "''n1''"]
  have "rel_option (\<lambda>r r'. nr_status r' = Unreachable) (get_node ''n1'' state1) (get_node ''n1'' s')"
    by (auto simp: mem_view_def empty_db_def elim: option.rel_mono_strong)
  then show ?thesis using boot by (auto simp: get_node_def state1_def option_rel_Some1)
qed

text \<open>
  C8: a sample with a NaN or an infinite double is accepted from a registered node and reported
  stored, but its document is not readable: no restart from that database succeeds.
\<close>

theorem non_finite_sample_blocks_restart:
  assumes "S \<in> lawful_stores view tview J jf" and "S' \<in> lawful_stores view tview J jf"
    and "ingest_metrics S now report s = (Inr (), t)"
    and "\<not> list_all is_finite (report_doubles report)"
  shows "\<exists>e. bootstrap S' cfg now' (ss_db t) = Inl e"
proof -
  note d = lawful_durable [OF assms(1)] and d' = lawful_durable [OF assms(2)]
  obtain E where E: "redb_backed E view tview J jf" using assms(1) by (auto simp: lawful_stores_def)
  obtain r s1 where "ingest_mem now report s = (Inr r, s1)" and p: "persist S r s1 = (Inr (), t)"
    using assms(3) by (auto simp: ingest_metrics_def split: prod.splits sum.splits)
  then have "nr_latest_metrics r = Some report"
    by (auto simp: ingest_mem_def Let_def split: option.splits)
  then obtain e where rb: "read_back J r = Inl e"
    using redb_backed.read_back_null [OF E, of r] assms(4) by (auto simp: record_finite_def)
  obtain db' where "st_put_node S r (ss_db s1) = (Inr (), db')" and "t = s1\<lparr>ss_db := db'\<rparr>"
    using p by (auto simp: persist_def split: prod.splits)
  then have "stored_of J view (ss_db t) (ni_node_id (nr_info r)) = Some (Inl e)"
    using durable_store.put_ok [OF d] rb by simp
  then show ?thesis using durable_store.load_needs_all [OF d'] by (fastforce simp: bootstrap_def)
qed

theorem non_finite_sample_blocks_restart_witness:
  "\<exists>t. ingest_metrics sample_store 50 (sample_report NaN) state1 = (Inr (), t) \<and>
     (\<exists>e. bootstrap sample_store sample_cfg 60 (ss_db t) = Inl e)"
proof -
  obtain t where t: "ingest_metrics sample_store 50 (sample_report NaN) state1 = (Inr (), t)"
    using sample_ingest by blast
  from non_finite_sample_blocks_restart [OF sample_lawful sample_lawful t]
  show ?thesis using t by (auto simp: report_doubles_def sample_report_def)
qed

text \<open>
  C7: \<open>deregister_node\<close>, when it returns, has forgotten the node everywhere: in the table, the
  command channels and the database, so that a restart does not bring it back; no other node
  is touched, and the result says whether the node was known.
\<close>

theorem deregister_forgets:
  assumes reach: "daemon_reach (lawful_stores view tview J jf) (fresh_db view) s"
    and S: "S \<in> lawful_stores view tview J jf" and S': "S' \<in> lawful_stores view tview J jf"
    and d: "deregister_node S i s = (Inr b, t)"
  shows "(b \<longleftrightarrow> get_node i s \<noteq> None) \<and>
    (\<forall>j. get_node j t = (if j = i then None else get_node j s)) \<and>
    (\<forall>j. is_connected j t \<longleftrightarrow> j \<noteq> i \<and> is_connected j s) \<and>
    (\<forall>cfg now s'. bootstrap S' cfg now (ss_db t) = Inr s' \<longrightarrow> get_node i s' = None)"
proof -
  let ?s2 = "detach_command_channel i (snd (deregister_mem i s))"
  obtain c where u: "unpersist S i ?s2 = (Inr c, t)" and b: "b = fst (deregister_mem i s)"
    using d by (auto simp: deregister_node_def and_then_Inr_iff Let_def split: prod.splits)
  then obtain db' where "st_delete_node S i (ss_db ?s2) = (Inr c, db')" and t: "t = ?s2\<lparr>ss_db := db'\<rparr>"
    by (auto simp: unpersist_def split: prod.splits)
  then have gone: "stored_of J view (ss_db t) = (stored_of J view (ss_db s))(i := None)"
    using durable_store.del_ok [OF lawful_durable [OF S]] by fastforce
  then have filed: "filed (stored_of J view (ss_db t))"
    using reach_filed [OF reach] by (simp add: filed_def)
  have "get_node i s' = None" if boot: "bootstrap S' cfg now (ss_db t) = Inr s'" for cfg now s'
    using gone durable_store.boot_table [OF lawful_durable [OF S'] boot filed]
    by (metis (mono_tags) fun_upd_same get_node_def node_table_def option.map_disc_iff)
  then show ?thesis
    by (auto simp: t b get_node_def is_connected_def deregister_mem_def detach_command_channel_def)
qed

theorem deregister_forgets_witness:
  "fst (deregister_node sample_store ''n1'' state1) = Inr True \<and>
   get_node ''n1'' (snd (deregister_node sample_store ''n1'' state1)) = None"
proof -
  obtain t where d: "deregister_node sample_store ''n1'' state1 = (Inr True, t)"
    using sample_deregister by blast
  from deregister_forgets [OF sample_lawful_reach sample_lawful sample_lawful d]
  show ?thesis by (simp add: d)
qed

text \<open>
  C9: the record of a registration is written after the lock is released: when the node is
  deregistered in between, both calls succeed, the node is gone from the table, and the next
  restart brings it back.
\<close>

theorem late_registration_resurrects:
  assumes reach: "daemon_reach (lawful_stores view tview J jf) (fresh_db view) s"
    and S: "S \<in> lawful_stores view tview J jf" "S' \<in> lawful_stores view tview J jf"
    and mem: "register_mem now0 now info s = (r, s1)"
    and dereg: "deregister_node S (ni_node_id info) s1 = (Inr b, s2)"
    and late: "persist S r s2 = (Inr (), s3)"
    and boot: "bootstrap S' cfg now' (ss_db s3) = Inr s4"
  shows "b \<and> get_node (ni_node_id info) s3 = None \<and>
    (\<exists>r'. get_node (ni_node_id info) s4 = Some r' \<and> nr_info r' = info)"
proof -
  let ?i = "ni_node_id info"
  have r: "nr_info r = info" and s1: "get_node ?i s1 = Some r"
    using mem by (auto simp: register_mem_def Let_def get_node_def)
  have "(section_step (lawful_stores view tview J jf))\<^sup>*\<^sup>* s s3"
    using sec_register [of _ s now0 now info] deregister_sections [OF S(1) dereg]
      sec_persist [OF S(1), of s2 r] mem late
    by (metis (no_types) converse_rtranclp_into_rtranclp rtranclp.rtrancl_into_rtrancl snd_conv)
  with reach have filed: "filed (stored_of J view (ss_db s3))" by (blast intro: reach_run reach_filed)
  obtain db' where put: "st_put_node S r (ss_db s2) = (Inr (), db')" and s3: "s3 = s2\<lparr>ss_db := db'\<rparr>"
    using late by (auto simp: persist_def split: prod.splits)
  have st: "stored_of J view (ss_db s3) ?i = Some (read_back J r)"
    using durable_store.put_ok [OF lawful_durable [OF S(1)] put] by (simp add: s3 r)
  obtain t where t: "stored_of J view (ss_db s3) = (\<lambda>i. map_option Inr (t i))"
    and s4: "node_table s4 = (\<lambda>i. map_option (\<lambda>r. r\<lparr>nr_status := Unreachable\<rparr>) (t i))"
    by (rule durable_store.boot_table [OF lawful_durable [OF S(2)] boot filed])
  obtain r' where r': "t ?i = Some r'" "read_back J r = Inr r'" using st by (auto simp: t)
  then have "nr_info r' = info"
    using durable_store.rb_info [OF lawful_durable [OF S(1)]] r by blast
  then have "\<exists>r'. get_node ?i s4 = Some r' \<and> nr_info r' = info"
    using r' s4 by (simp add: get_node_def node_table_def)
  moreover have "b" and "get_node ?i s3 = None"
    using deregister_table [OF dereg] deregister_result [OF dereg] s1
    by (simp_all add: s3 get_node_def node_table_def fun_eq_iff)
  ultimately show ?thesis by simp
qed

theorem late_registration_resurrects_witness:
  "\<exists>s3 s4. bootstrap sample_store sample_cfg 60 (ss_db s3) = Inr s4 \<and>
     get_node ''n1'' s3 = None \<and> get_node ''n1'' s4 \<noteq> None"
proof -
  obtain r s1 b s2 s3 s4 where m: "register_mem 40 40 sample_info state1 = (r, s1)"
    and d: "deregister_node sample_store (ni_node_id sample_info) s1 = (Inr b, s2)"
    and p: "persist sample_store r s2 = (Inr (), s3)"
    and boot: "bootstrap sample_store sample_cfg 60 (ss_db s3) = Inr s4"
    using sample_race by blast
  from late_registration_resurrects [OF sample_lawful_reach sample_lawful sample_lawful m d p boot]
  show ?thesis using boot by auto
qed

end
