(* ===== verification/Grpc.thy ===== *)
theory Grpc
  imports Proto Cluster_Durability
begin

text \<open>
  The unary and client-streaming calls of \<open>hpc-daemon/src/grpc.rs\<close> over the shared state. A
  \<open>tonic::Status\<close> is its code and message; a call returns \<open>Inl\<close> a status or \<open>Inr\<close> a response.
  The server-streaming call is in \<open>Command_Streams\<close>.
\<close>

section \<open>Messages and statuses\<close>

datatype grpc_code = Code_Internal | Code_NotFound | Code_Unavailable | Code_Unknown

record grpc_status =
  status_code :: grpc_code
  status_message :: string

definition status_internal :: "string \<Rightarrow> grpc_status" where
  "status_internal msg = \<lparr>status_code = Code_Internal, status_message = msg\<rparr>"

definition status_not_found :: "string \<Rightarrow> grpc_status" where
  "status_not_found msg = \<lparr>status_code = Code_NotFound, status_message = msg\<rparr>"

record register_ack =
  ra_accepted :: bool
  ra_assigned_node_id :: string
  ra_cluster_epoch :: u64
  ra_metrics_interval_secs :: u32
  ra_message :: string

record heartbeat_ack =
  ha_ok :: bool
  ha_cluster_epoch :: u64
  ha_directives :: "string list"

record metrics_ack =
  ma_received :: bool
  ma_server_time_unix :: u64

record ack =
  ack_ok :: bool
  ack_message :: string

section \<open>The calls\<close>

definition to_pb_command :: "u64 \<Rightarrow> node_command \<Rightarrow> pb_command" where
  "to_pb_command now cmd =
     (let (command_id, payload) = (case cmd of
            Deploy d \<Rightarrow> (deployment_id d, PbDeploy (deploy_spec_to_pb d))
          | Fs f \<Rightarrow> (fs_command_id f, PbFs (fs_spec_to_pb f)))
      in \<lparr>pb_command_id = command_id, pb_issued_at_unix = now, pb_payload = Some payload\<rparr>)"

definition rpc_register_node ::
  "'db store \<Rightarrow> u64 \<Rightarrow> u64 \<Rightarrow> pb_node_info \<Rightarrow> 'db shared_state \<Rightarrow>
     (grpc_status + register_ack) \<times> 'db shared_state" where
  "rpc_register_node S now0 now request s =
     (let info = node_info_from_pb request;
          (res, s') = register_node S now0 now info s
      in (and_then (map_err (\<lambda>e. status_internal (hpc_error_to_string e)) res) (\<lambda>record.
            Inr \<lparr>ra_accepted = True, ra_assigned_node_id = ni_node_id (nr_info record),
              ra_cluster_epoch = ss_epoch s', ra_metrics_interval_secs = ss_metrics_interval_secs s',
              ra_message = ''registered''\<rparr>), s'))"

definition rpc_heartbeat ::
  "u64 \<Rightarrow> pb_node_ref \<Rightarrow> 'db shared_state \<Rightarrow> (grpc_status + heartbeat_ack) \<times> 'db shared_state" where
  "rpc_heartbeat now node_ref s =
     (let directives = (if nref_cluster_epoch node_ref \<noteq> 0 \<and> nref_cluster_epoch node_ref \<noteq> ss_epoch s
                        then [''reregister''] else []);
          (res, s') = heartbeat now (nref_node_id node_ref) s;
          directives' = (case res of Inr _ \<Rightarrow> directives | Inl _ \<Rightarrow> directives @ [''reregister''])
      in (Inr \<lparr>ha_ok = True, ha_cluster_epoch = ss_epoch s', ha_directives = directives'\<rparr>, s'))"

text \<open>
  The loop of \<open>report_metrics\<close>: the items of the stream, each with the clock reading of its
  ingestion. It stops at the first item that is an error or is not ingested.
\<close>

fun ingest_stream ::
  "'db store \<Rightarrow> (u64 \<times> (grpc_status + pb_metrics_report)) list \<Rightarrow> u64 \<Rightarrow> 'db shared_state \<Rightarrow>
     (grpc_status + u64) \<times> 'db shared_state" where
  "ingest_stream S [] received s = (Inr received, s)"
| "ingest_stream S ((now, Inl status) # items) received s = (Inl status, s)"
| "ingest_stream S ((now, Inr report) # items) received s =
     (case ingest_metrics S now (report_from_pb report) s of
        (Inl e, s') \<Rightarrow> (Inl (status_internal (hpc_error_to_string e)), s')
      | (Inr _, s') \<Rightarrow> ingest_stream S items (received + 1) s')"

definition rpc_report_metrics ::
  "'db store \<Rightarrow> u64 \<Rightarrow> (u64 \<times> (grpc_status + pb_metrics_report)) list \<Rightarrow> 'db shared_state \<Rightarrow>
     (grpc_status + metrics_ack) \<times> 'db shared_state" where
  "rpc_report_metrics S now items s =
     (let (res, s') = ingest_stream S items 0 s
      in (and_then res (\<lambda>received.
            Inr \<lparr>ma_received = (received > 0), ma_server_time_unix = now\<rparr>), s'))"

definition rpc_report_command_result ::
  "'db store \<Rightarrow> pb_command_result \<Rightarrow> 'db shared_state \<Rightarrow> (grpc_status + ack) \<times> 'db shared_state" where
  "rpc_report_command_result S request s =
     (let outcome = outcome_from_pb request; (res, s') = record_outcome S outcome s
      in (and_then (map_err (\<lambda>e. status_internal (hpc_error_to_string e)) res) (\<lambda>_.
            Inr \<lparr>ack_ok = True, ack_message = ''recorded''\<rparr>), s'))"

section \<open>Lemmas\<close>

lemma heartbeat_result: "fst (heartbeat now i s) =
    (case get_node i s of None \<Rightarrow> Inl (unknown_node i) | Some _ \<Rightarrow> Inr ())"
  by (simp add: heartbeat_def get_node_def Let_def split: option.splits)

lemma heartbeat_epoch [simp]: "ss_epoch (snd (heartbeat now i s)) = ss_epoch s"
  by (cases "map_of (ss_nodes s) i") (simp_all add: heartbeat_def Let_def)

lemma register_epoch [simp]:
  "ss_epoch (snd (register_node S now0 now info s)) = ss_epoch s"
  "ss_metrics_interval_secs (snd (register_node S now0 now info s)) = ss_metrics_interval_secs s"
  by (simp_all add: register_node_def register_mem_def persist_def Let_def case_prod_beta)

lemma register_result:
  assumes "rpc_register_node S now0 now p s = (Inr a, s')"
  shows "ra_assigned_node_id a = ni_node_id (node_info_from_pb p) \<and>
    ra_cluster_epoch a = ss_epoch s \<and> ra_metrics_interval_secs a = ss_metrics_interval_secs s \<and>
    (\<forall>j. get_node j s' = (if j = ra_assigned_node_id a
       then Some \<lparr>nr_info = node_info_from_pb p, nr_status = Registered, nr_last_seen_unix = now,
              nr_latest_metrics = Option.bind (get_node j s) nr_latest_metrics\<rparr>
       else get_node j s))"
proof -
  let ?i = "node_info_from_pb p"
  obtain r where reg: "register_node S now0 now ?i s = (Inr r, s')"
    and a: "ra_assigned_node_id a = ni_node_id (nr_info r)" "ra_cluster_epoch a = ss_epoch s'"
      "ra_metrics_interval_secs a = ss_metrics_interval_secs s'"
    using assms by (auto simp: rpc_register_node_def and_then_Inr_iff map_err_def Let_def
        split: prod.splits sum.splits)
  obtain s1 where mem: "register_mem now0 now ?i s = (r, s1)" and p: "persist S r s1 = (Inr (), s')"
    using reg by (auto simp: register_node_def and_then_Inr_iff split: prod.splits)
  have r: "r = fst (register_mem now0 now ?i s)" by (simp add: mem)
  have t: "node_table s' = node_table (snd (register_mem now0 now ?i s))"
    using table_frame(3) [of S r s1] by (simp add: mem p)
  have "r = \<lparr>nr_info = ?i, nr_status = Registered, nr_last_seen_unix = now,
      nr_latest_metrics = Option.bind (get_node (ni_node_id ?i) s) nr_latest_metrics\<rparr>"
    by (simp add: r register_mem_def node_record_new_def get_node_def Let_def split: option.splits)
  moreover have "node_table s' = (node_table s)(ni_node_id ?i \<mapsto> r)" by (simp add: t r)
  moreover have "ss_epoch s' = ss_epoch s" "ss_metrics_interval_secs s' = ss_metrics_interval_secs s"
    using register_epoch [of S now0 now ?i s] reg by simp_all
  ultimately show ?thesis using a by (simp add: get_node_def node_table_def)
qed

lemma register_fields:
  assumes "rpc_register_node S now0 now p s = (Inr a, s')"
  shows "ra_cluster_epoch a = ss_epoch s'"
    and "\<exists>r. get_node (ni_node_id (node_info_from_pb p)) s' = Some r \<and> nr_info r = node_info_from_pb p \<and>
      nr_status r = Registered"
proof -
  have "ss_epoch s' = ss_epoch s"
    using assms register_epoch(1) [of S now0 now "node_info_from_pb p" s]
    by (auto simp: rpc_register_node_def Let_def case_prod_beta)
  then show "ra_cluster_epoch a = ss_epoch s'" using register_result [OF assms] by simp
  show "\<exists>r. get_node (ni_node_id (node_info_from_pb p)) s' = Some r \<and> nr_info r = node_info_from_pb p \<and>
      nr_status r = Registered"
    using register_result [OF assms] by simp
qed

section \<open>Properties\<close>

text \<open>
  A heartbeat always succeeds; it asks the agent to register again exactly when the agent
  names another epoch than the daemon's (0 meaning none) or the node is unknown, and otherwise
  it has refreshed the node's last-seen time.
\<close>

theorem heartbeat_directives:
  assumes "rpc_heartbeat now \<lparr>nref_node_id = i, nref_cluster_epoch = e\<rparr> s = (res, s')"
  shows "\<exists>a. res = Inr a \<and> ha_ok a \<and> ha_cluster_epoch a = ss_epoch s \<and>
    set (ha_directives a) \<subseteq> {''reregister''} \<and>
    (ha_directives a = [] \<longleftrightarrow> (e = 0 \<or> e = ss_epoch s) \<and> get_node i s \<noteq> None) \<and>
    map_option nr_last_seen_unix (get_node i s') = map_option (\<lambda>_. now) (get_node i s)"
proof -
  have "map_option nr_last_seen_unix (get_node i (snd (heartbeat now i s))) =
      map_option (\<lambda>_. now) (get_node i s)"
    using table_heartbeat [of now i s] by (simp add: get_node_def node_table_def split: option.splits)
  moreover have "rpc_heartbeat now \<lparr>nref_node_id = i, nref_cluster_epoch = e\<rparr> s =
      (Inr \<lparr>ha_ok = True, ha_cluster_epoch = ss_epoch s, ha_directives =
         (if e \<noteq> 0 \<and> e \<noteq> ss_epoch s then [''reregister''] else []) @
         (if get_node i s = None then [''reregister''] else [])\<rparr>, snd (heartbeat now i s))"
    using heartbeat_result [of now i s]
    by (simp add: rpc_heartbeat_def Let_def case_prod_beta split: option.splits)
  ultimately show ?thesis using assms by (simp split del: if_split) (simp add: subset_iff)
qed

theorem heartbeat_directives_witness:
  "map_sum id ha_directives (fst (rpc_heartbeat 40 \<lparr>nref_node_id = ''n1'', nref_cluster_epoch = 10\<rparr> state1)) =
     Inr []"
proof -
  obtain res s' where r: "rpc_heartbeat 40 \<lparr>nref_node_id = ''n1'', nref_cluster_epoch = 10\<rparr> state1 = (res, s')"
    by fastforce
  have "ss_epoch state1 = 10" and "get_node ''n1'' state1 \<noteq> None"
    by (simp_all add: state1_def state0_def get_node_def)
  with heartbeat_directives [OF r] r show ?thesis by auto
qed

text \<open>
  Registration over gRPC is idempotent: whatever the table held, the node is afterwards kept
  once under its id with the new description, freshly seen and \<open>Registered\<close>, keeping the latest
  sample it had; no other node changes; the acknowledgement names the id, the daemon's epoch and
  the metrics cadence.
\<close>

theorem register_effect:
  assumes "rpc_register_node S now0 now p s = (Inr a, s')"
  shows "ra_assigned_node_id a = ni_node_id (node_info_from_pb p) \<and>
    ra_cluster_epoch a = ss_epoch s \<and> ra_metrics_interval_secs a = ss_metrics_interval_secs s \<and>
    (\<forall>j. get_node j s' = (if j = ra_assigned_node_id a
       then Some \<lparr>nr_info = node_info_from_pb p, nr_status = Registered, nr_last_seen_unix = now,
              nr_latest_metrics = Option.bind (get_node j s) nr_latest_metrics\<rparr>
       else get_node j s))"
  using register_result [OF assms] .

theorem register_effect_witness:
  "\<exists>a s'. rpc_register_node sample_store 20 20 (node_info_to_pb sample_info) state0 = (Inr a, s') \<and>
     map_option nr_status (get_node ''n1'' s') = Some Registered"
proof -
  have "node_info_from_pb (node_info_to_pb sample_info) = sample_info"
    by (rule node_info_wire.from_to) (simp add: node_info_ok_def sample_info_def btree_ok_def)
  then obtain a s' where r: "rpc_register_node sample_store 20 20 (node_info_to_pb sample_info) state0 = (Inr a, s')"
    and i: "ni_node_id (node_info_from_pb (node_info_to_pb sample_info)) = ''n1''"
    by (simp add: rpc_register_node_def sample_register map_err_def and_then_def)
  show ?thesis using r register_effect [OF r] i by simp
qed

end
