(* ===== verification/Text.thy ===== *)
theory Text
  imports Prelude
begin

text \<open>
  The string methods of the Rust standard library that the program uses. A string is its UTF-8
  bytes, so a white space character is one, two or three of them.
\<close>

definition byte_at :: "string \<Rightarrow> nat \<Rightarrow> nat" where
  "byte_at s i = (if i < length s then of_char (s ! i) else 256)"

text \<open>\<open>char::is_whitespace\<close> of the first character: its length in bytes, 0 if it is not one.\<close>

definition ws_len :: "string \<Rightarrow> nat" where
  "ws_len s = (let a = byte_at s 0; b = byte_at s 1; c = byte_at s 2 in
     if (9 \<le> a \<and> a \<le> 13) \<or> a = 32 then 1
     else if a = 0xC2 \<and> (b = 0x85 \<or> b = 0xA0) then 2
     else if a = 0xE1 \<and> b = 0x9A \<and> c = 0x80 then 3
     else if a = 0xE2 \<and> b = 0x80 \<and> ((0x80 \<le> c \<and> c \<le> 0x8A) \<or> c = 0xA8 \<or> c = 0xA9 \<or> c = 0xAF) then 3
     else if a = 0xE2 \<and> b = 0x81 \<and> c = 0x9F then 3
     else if a = 0xE3 \<and> b = 0x80 \<and> c = 0x80 then 3
     else 0)"

lemma ws_len_Nil [simp]: "ws_len [] = 0"
  by (simp add: ws_len_def byte_at_def)

text \<open>\<open>trim_start\<close>.\<close>

function trim_start :: "string \<Rightarrow> string" where
  "trim_start s = (if ws_len s = 0 then s else trim_start (drop (ws_len s) s))"
  by auto
termination
proof (relation "measure length")
  fix s assume "ws_len s \<noteq> 0"
  moreover from this have "s \<noteq> []" by auto
  ultimately show "(drop (ws_len s) s, s) \<in> measure length" by simp
qed simp

declare trim_start.simps [simp del]

text \<open>\<open>s.trim().is_empty()\<close>: nothing is left once the leading white space is gone.\<close>

definition is_blank :: "string \<Rightarrow> bool" where
  "is_blank s \<longleftrightarrow> trim_start s = []"

lemma is_blank_Nil [simp]: "is_blank []"
  by (simp add: is_blank_def trim_start.simps)

lemma not_blankI: "ws_len s = 0 \<Longrightarrow> s \<noteq> [] \<Longrightarrow> \<not> is_blank s"
  by (simp add: is_blank_def trim_start.simps)

lemma is_blank_step: "ws_len s \<noteq> 0 \<Longrightarrow> is_blank s \<longleftrightarrow> is_blank (drop (ws_len s) s)"
  unfolding is_blank_def by (subst trim_start.simps) simp

text \<open>\<open>slice::join\<close>.\<close>

fun join :: "string \<Rightarrow> string list \<Rightarrow> string" where
  "join sep [] = []"
| "join sep [x] = x"
| "join sep (x # y # xs) = x @ sep @ join sep (y # xs)"

text \<open>\<open>trim_end\<close>: drop white space characters from the end.\<close>

definition ws_end :: "string \<Rightarrow> nat" where
  "ws_end s = (if ws_len (drop (length s - 1) s) = 1 then 1
     else if ws_len (drop (length s - 2) s) = 2 then 2
     else if ws_len (drop (length s - 3) s) = 3 then 3 else 0)"

lemma ws_end_pos: "ws_end s \<noteq> 0 \<Longrightarrow> s \<noteq> []"
  by (auto simp: ws_end_def)

function trim_end :: "string \<Rightarrow> string" where
  "trim_end s = (if ws_end s = 0 then s else trim_end (take (length s - ws_end s) s))"
  by auto
termination
proof (relation "measure length")
  fix s assume "ws_end s \<noteq> 0"
  with ws_end_pos [OF this] show "(take (length s - ws_end s) s, s) \<in> measure length"
    by (cases s) simp_all
qed simp

declare trim_end.simps [simp del]

definition trim :: "string \<Rightarrow> string" where
  "trim s = trim_end (trim_start s)"

text \<open>\<open>split_once(c)\<close> and \<open>split\<close> by a predicate on ASCII characters.\<close>

definition split_once :: "char \<Rightarrow> string \<Rightarrow> (string \<times> string) option" where
  "split_once c s = (case dropWhile (\<lambda>x. x \<noteq> c) s of
     [] \<Rightarrow> None | _ # r \<Rightarrow> Some (takeWhile (\<lambda>x. x \<noteq> c) s, r))"

fun split_on :: "(char \<Rightarrow> bool) \<Rightarrow> string \<Rightarrow> string list" where
  "split_on P [] = [[]]"
| "split_on P (c # s) =
     (if P c then [] # split_on P s
      else (case split_on P s of [] \<Rightarrow> [[c]] | w # ws \<Rightarrow> (c # w) # ws))"

text \<open>\<open>lines\<close>: a line ends at a newline, a carriage return before which is dropped.\<close>

definition strip_cr :: "string \<Rightarrow> string" where
  "strip_cr l = (if l \<noteq> [] \<and> last l = CHR 0x0D then butlast l else l)"

function text_lines :: "string \<Rightarrow> string list" where
  "text_lines s = (if s = [] then []
     else case dropWhile (\<lambda>c. c \<noteq> CHR 0x0A) s of
            [] \<Rightarrow> [s]
          | _ # r \<Rightarrow> strip_cr (takeWhile (\<lambda>c. c \<noteq> CHR 0x0A) s) # text_lines r)"
  by auto
termination
proof (relation "measure length")
  fix s :: string and x r assume "dropWhile (\<lambda>c. c \<noteq> CHR 0x0A) s = x # r"
  then have "length (x # r) \<le> length s" by (metis length_dropWhile_le)
  then show "(r, s) \<in> measure length" by simp
qed simp

declare text_lines.simps [simp del]

text \<open>\<open>split_whitespace\<close>: the maximal runs of other characters.\<close>

fun token :: "string \<Rightarrow> string \<times> string" where
  "token [] = ([], [])"
| "token (c # s) =
     (if ws_len (c # s) \<noteq> 0 then ([], c # s) else (let (w, r) = token s in (c # w, r)))"

lemma token_split: "token s = (w, r) \<Longrightarrow> s = w @ r"
  by (induction s arbitrary: w r rule: token.induct) (auto simp: Let_def split: if_splits prod.splits)

lemma token_nonempty: "s \<noteq> [] \<Longrightarrow> ws_len s = 0 \<Longrightarrow> fst (token s) \<noteq> []"
  by (cases s) (auto simp: Let_def split: prod.splits)

lemma trim_start_length: "length (trim_start s) \<le> length s"
proof (induction s rule: trim_start.induct)
  case (1 s)
  then show ?case by (subst trim_start.simps) (auto intro: order.trans)
qed

lemma trim_start_no_ws: "ws_len (trim_start s) = 0"
proof (induction s rule: trim_start.induct)
  case (1 s)
  then show ?case by (subst trim_start.simps) auto
qed

function split_whitespace :: "string \<Rightarrow> string list" where
  "split_whitespace s =
     (let s' = trim_start s in if s' = [] then []
      else fst (token s') # split_whitespace (snd (token s')))"
  by auto
termination
proof (relation "measure length")
  fix s s' assume s': "s' = trim_start s" "s' \<noteq> []"
  have "s' = fst (token s') @ snd (token s')" by (rule token_split) simp
  moreover have "fst (token s') \<noteq> []" using token_nonempty [OF s'(2)] trim_start_no_ws s'(1) by simp
  ultimately have "length (snd (token s')) < length s'"
    by (metis length_append length_greater_0_conv less_add_same_cancel2)
  then show "(snd (token s'), s) \<in> measure length" using trim_start_length [of s] s'(1) by simp
qed simp

declare split_whitespace.simps [simp del]

text \<open>\<open>parse\<close> of an unsigned integer type of \<open>b\<close> bits: an optional \<open>+\<close>, then digits, without overflow.\<close>

definition digit_val :: "char \<Rightarrow> nat option" where
  "digit_val c = (let n = of_char c :: nat in if 48 \<le> n \<and> n \<le> 57 then Some (n - 48) else None)"

fun digits_val :: "nat \<Rightarrow> string \<Rightarrow> nat option" where
  "digits_val acc [] = Some acc"
| "digits_val acc (c # s) = (case digit_val c of None \<Rightarrow> None | Some d \<Rightarrow> digits_val (10 * acc + d) s)"

definition parse_uint :: "nat \<Rightarrow> string \<Rightarrow> nat option" where
  "parse_uint b s =
     (let ds = (case s of c # r \<Rightarrow> if c = CHR ''+'' then r else s | [] \<Rightarrow> []) in
      if ds = [] then None
      else case digits_val 0 ds of None \<Rightarrow> None | Some n \<Rightarrow> if n < 2 ^ b then Some n else None)"

definition parse_u64 :: "string \<Rightarrow> u64 option" where
  "parse_u64 s = map_option of_nat (parse_uint 64 s)"

definition parse_u32 :: "string \<Rightarrow> u32 option" where
  "parse_u32 s = map_option of_nat (parse_uint 32 s)"

definition starts_with :: "string \<Rightarrow> string \<Rightarrow> bool" where
  "starts_with p s \<longleftrightarrow> take (length p) s = p"

definition trim_end_matches :: "char \<Rightarrow> string \<Rightarrow> string" where
  "trim_end_matches c s = rev (dropWhile (\<lambda>x. x = c) (rev s))"

section \<open>Printing and reading back\<close>

text \<open>The decimal representation, as \<open>Display\<close> prints an unsigned integer.\<close>

fun show_nat :: "nat \<Rightarrow> string" where
  "show_nat n = (if n < 10 then [char_of (48 + n)] else show_nat (n div 10) @ [char_of (48 + n mod 10)])"

declare show_nat.simps [simp del]

text \<open>A word: printable ASCII without blanks, and not empty.\<close>

definition graphic :: "char \<Rightarrow> bool" where
  "graphic c \<longleftrightarrow> 33 \<le> (of_char c :: nat) \<and> (of_char c :: nat) \<le> 126"

definition is_word :: "string \<Rightarrow> bool" where
  "is_word s \<longleftrightarrow> s \<noteq> [] \<and> list_all graphic s"

lemma graphic_no_ws: "graphic c \<Longrightarrow> ws_len (c # s) = 0"
  by (auto simp: ws_len_def byte_at_def graphic_def Let_def)

lemma token_word: "list_all graphic w \<Longrightarrow> ws_len r \<noteq> 0 \<or> r = [] \<Longrightarrow> token (w @ r) = (w, r)"
proof (induction w)
  case Nil
  then show ?case by (cases r) auto
qed (simp add: graphic_no_ws Let_def)

lemma ws_blank [simp]: "ws_len (CHR '' '' # s) = 1"
  by (simp add: ws_len_def byte_at_def)

lemma trim_start_word: "is_word w \<Longrightarrow> trim_start (w @ r) = w @ r"
  by (cases w) (simp_all add: is_word_def graphic_no_ws trim_start.simps)

lemma trim_start_blank [simp]: "trim_start (CHR '' '' # s) = trim_start s"
  by (subst trim_start.simps) simp

lemma trim_start_Nil [simp]: "trim_start [] = []"
  by (simp add: trim_start.simps)

lemma split_ws_Nil [simp]: "split_whitespace [] = []"
  by (simp add: split_whitespace.simps)

lemma split_ws_blank [simp]: "split_whitespace (CHR '' '' # s) = split_whitespace s"
  by (subst (1 2) split_whitespace.simps) simp

lemma split_ws_word:
  "is_word w \<Longrightarrow> ws_len r \<noteq> 0 \<or> r = [] \<Longrightarrow> split_whitespace (w @ r) = w # split_whitespace r"
  by (subst split_whitespace.simps) (auto simp: trim_start_word token_word is_word_def)

lemma split_ws_last: "is_word w \<Longrightarrow> split_whitespace w = [w]"
  using split_ws_word [of w "[]"] by simp

lemma split_ws_join: "list_all is_word ws \<Longrightarrow> split_whitespace (join '' '' ws) = ws"
  by (induction "'' ''" ws rule: join.induct) (simp_all add: split_ws_last split_ws_word)

definition line_ok :: "string \<Rightarrow> bool" where
  "line_ok l \<longleftrightarrow> CHR 0x0A \<notin> set l \<and> (l = [] \<or> last l \<noteq> CHR 0x0D)"

lemma break_at:
  "c \<notin> set k \<Longrightarrow> takeWhile (\<lambda>x. x \<noteq> c) (k @ c # r) = k"
  "c \<notin> set k \<Longrightarrow> dropWhile (\<lambda>x. x \<noteq> c) (k @ c # r) = c # r"
  by (induction k) auto

lemma text_lines_Nil [simp]: "text_lines [] = []"
  by (simp add: text_lines.simps)

lemma text_lines_line: "line_ok l \<Longrightarrow> text_lines (l @ CHR 0x0A # r) = l # text_lines r"
  by (subst text_lines.simps) (auto simp: line_ok_def break_at strip_cr_def)

text \<open>A text as its lines, each ended by a newline.\<close>

definition unlines :: "string list \<Rightarrow> string" where
  "unlines ls = concat (map (\<lambda>l. l @ [CHR 0x0A]) ls)"

lemma text_lines_unlines: "list_all line_ok ls \<Longrightarrow> text_lines (unlines ls) = ls"
  by (induction ls) (simp_all add: unlines_def text_lines_line)

lemma split_once_word: "c \<notin> set k \<Longrightarrow> split_once c (k @ c # r) = Some (k, r)"
  by (simp add: split_once_def break_at)

lemma split_on_word: "\<forall>c \<in> set w. \<not> P c \<Longrightarrow> split_on P w = [w]"
  by (induction w) simp_all

lemma split_on_append: "\<forall>c \<in> set w. \<not> P c \<Longrightarrow> P d \<Longrightarrow> split_on P (w @ d # r) = w # split_on P r"
  by (induction w) simp_all

lemma split_on_join:
  "list_all (\<lambda>w. \<forall>c \<in> set w. \<not> P c) ws \<Longrightarrow> ws \<noteq> [] \<Longrightarrow> P d \<Longrightarrow> split_on P (join [d] ws) = ws"
  by (induction "[d]" ws rule: join.induct) (simp_all add: split_on_word split_on_append)

lemma of_char_digit: "n < 10 \<Longrightarrow> of_char (char_of (48 + n) :: char) = (48 + n :: nat)"
  by simp

lemma digit_val_digit: "n < 10 \<Longrightarrow> digit_val (char_of (48 + n)) = Some n"
  by (simp add: digit_val_def)

lemma digits_val_append:
  "digits_val acc (s @ t) = (case digits_val acc s of None \<Rightarrow> None | Some n \<Rightarrow> digits_val n t)"
  by (induction acc s rule: digits_val.induct) (simp_all split: option.splits)

lemma digits_show: "digits_val 0 (show_nat n) = Some n"
proof (induction n rule: show_nat.induct)
  case (1 n)
  then show ?case
    by (subst show_nat.simps) (simp add: digits_val_append digit_val_digit del: char_of_def)
qed

lemma show_nat_graphic: "list_all graphic (show_nat n) \<and> show_nat n \<noteq> [] \<and> CHR ''+'' \<notin> set (show_nat n)"
proof (induction n rule: show_nat.induct)
  case (1 n)
  have "graphic (char_of (48 + m))" "CHR ''+'' \<noteq> char_of (48 + m)" if "m < 10" for m :: nat
  proof -
    have o: "of_char (char_of (48 + m) :: char) = (48 + m :: nat)" using that by simp
    then show "graphic (char_of (48 + m))" using that by (simp add: graphic_def)
    show "CHR ''+'' \<noteq> char_of (48 + m)"
    proof
      assume "CHR ''+'' = char_of (48 + m)"
      then have "(of_char (CHR ''+'') :: nat) = of_char (char_of (48 + m) :: char)" by (rule arg_cong)
      then show False using o by simp
    qed
  qed
  then show ?case using 1 by (subst (1 2 3) show_nat.simps) auto
qed

lemma show_nat_word: "is_word (show_nat n)"
  using show_nat_graphic [of n] by (simp add: is_word_def)

lemma parse_show:
  assumes "n < 2 ^ b"
  shows "parse_uint b (show_nat n) = Some n"
proof -
  obtain c r where c: "show_nat n = c # r" "c \<noteq> CHR ''+''"
    using show_nat_graphic [of n] by (cases "show_nat n") auto
  then show ?thesis
    using digits_show [of n] assms c(2)
    by (simp add: parse_uint_def c(1) del: digits_val.simps)
qed

lemma parse_u64_show: "parse_u64 (show_nat (unat x)) = Some x"
  using unsigned_less [of x, where 'a = nat] by (simp add: parse_u64_def parse_show)

lemma graphic_not_ctrl: "list_all graphic w \<Longrightarrow> CHR 0x0A \<notin> set w \<and> CHR 0x0D \<notin> set w"
  by (auto simp: list_all_iff graphic_def)

lemma join_no_ctrl:
  "list_all is_word ws \<Longrightarrow> CHR 0x0A \<notin> set (join '' '' ws) \<and> CHR 0x0D \<notin> set (join '' '' ws)"
  by (induction "'' ''" ws rule: join.induct) (auto simp: is_word_def dest!: graphic_not_ctrl)

lemma line_ok_words: "list_all is_word ws \<Longrightarrow> line_ok (join '' '' ws)"
  using join_no_ctrl [of ws] unfolding line_ok_def by (metis last_in_set)

end
