(* ===== verification/Executor.thy ===== *)
theory Executor
  imports Hpc_Types Text
begin

text \<open>
  The command executor of the agent (\<open>hpc-agent/src/executor.rs\<close>). Spawning a process is an
  argument: a function of the argument vector and the state \<open>'w\<close> of the machine, which returns
  an I/O error or the collected output. The clock, read when the outcome is made, and
  \<open>from_utf8_lossy\<close> are arguments.
\<close>

section \<open>The executor\<close>

record executor =
  ex_node_id :: string
  ex_allow_exec :: bool

record process_output =
  po_code :: "i32 option"
  po_success :: bool
  po_stdout :: string
  po_stderr :: string

definition executor_new :: "string \<Rightarrow> bool \<Rightarrow> executor" where
  "executor_new node_id allow_exec = \<lparr>ex_node_id = node_id, ex_allow_exec = allow_exec\<rparr>"

definition outcome ::
  "executor \<Rightarrow> u64 \<Rightarrow> string \<Rightarrow> bool \<Rightarrow> i32 \<Rightarrow> string \<Rightarrow> command_outcome" where
  "outcome ex now i success exit_code message = \<lparr>co_command_id = i, co_node_id = ex_node_id ex,
     co_success = success, co_exit_code = exit_code, co_message = message, co_stdout = '''',
     co_stderr = '''', co_completed_at_unix = now\<rparr>"

fun deploy_action_debug :: "deploy_action \<Rightarrow> string" where
  "deploy_action_debug Install = ''Install''"
| "deploy_action_debug Upgrade = ''Upgrade''"
| "deploy_action_debug Rollback = ''Rollback''"
| "deploy_action_debug Remove = ''Remove''"

definition run_deploy :: "executor \<Rightarrow> u64 \<Rightarrow> deploy_spec \<Rightarrow> command_outcome" where
  "run_deploy ex now spec =
     (let message = deploy_action_debug (ds_action spec) @ '' '' @ ds_component spec @ '' v'' @
            (if ds_version spec = [] then ''latest'' else ds_version spec) @ '' -> '' @
            (if ds_target_path spec = [] then ''<default>'' else ds_target_path spec) @ '' (simulated)''
      in outcome ex now (deployment_id spec) True 0 message)"

definition build_argv :: "fs_spec \<Rightarrow> string + string list" where
  "build_argv spec =
     (let opts = join '','' (fs_mount_options spec) in
      case fs_act spec of
        Mount \<Rightarrow>
          if fs_device spec = [] \<or> fs_mount_point spec = []
          then Inl ''mount requires device and mount_point''
          else
            let argv = [''mount''];
                argv = (if fs_fs_type spec \<noteq> [] then argv @ [''-t''] @ [fs_fs_type spec] else argv);
                argv = (if opts \<noteq> [] then argv @ [''-o''] @ [opts] else argv)
            in Inr (argv @ [fs_device spec] @ [fs_mount_point spec])
      | Unmount \<Rightarrow>
          if fs_mount_point spec = [] then Inl ''unmount requires mount_point''
          else Inr [''umount'', fs_mount_point spec]
      | Remount \<Rightarrow>
          if fs_mount_point spec = [] then Inl ''remount requires mount_point''
          else
            let remount_opts = (if opts = [] then ''remount'' else ''remount,'' @ opts)
            in Inr [''mount'', ''-o'', remount_opts, fs_mount_point spec]
      | Check \<Rightarrow>
          if fs_device spec = [] then Inl ''check requires device''
          else Inr [''fsck'', ''-n'', fs_device spec]
      | Format \<Rightarrow>
          if \<not> fs_force spec then Inl ''format is destructive and requires force=true''
          else if fs_device spec = [] \<or> fs_fs_type spec = []
          then Inl ''format requires device and fs_type''
          else Inr [''mkfs.'' @ fs_fs_type spec, fs_device spec])"

definition run_fs ::
  "(string list \<Rightarrow> 'w \<Rightarrow> (string + process_output) \<times> 'w) \<Rightarrow> (string \<Rightarrow> string) \<Rightarrow> (i32 \<Rightarrow> string) \<Rightarrow>
     executor \<Rightarrow> ('w \<Rightarrow> u64) \<Rightarrow> fs_spec \<Rightarrow> 'w \<Rightarrow> command_outcome \<times> 'w" where
  "run_fs spawn utf8_lossy show_i32 ex now spec w =
     (case build_argv spec of
        Inl message \<Rightarrow> (outcome ex (now w) (fs_command_id spec) False (- 1) message, w)
      | Inr argv \<Rightarrow>
          if \<not> ex_allow_exec ex
          then (outcome ex (now w) (fs_command_id spec) True 0
                  (''dry-run: would execute `'' @ join '' '' argv @ ''`''), w)
          else (case spawn argv w of
              (Inr out, w') \<Rightarrow>
                let exit_code = (case po_code out of Some c \<Rightarrow> c | None \<Rightarrow> - 1);
                    oc = outcome ex (now w') (fs_command_id spec) (po_success out) exit_code
                           (''`'' @ join '' '' argv @ ''` exited with '' @ show_i32 exit_code)
                in (oc\<lparr>co_stdout := utf8_lossy (po_stdout out), co_stderr := utf8_lossy (po_stderr out)\<rparr>, w')
            | (Inl e, w') \<Rightarrow>
                (outcome ex (now w') (fs_command_id spec) False (- 1)
                   (''failed to spawn `'' @ join '' '' argv @ ''`: '' @ e), w')))"

section \<open>Lemmas\<close>

text \<open>The fields an action needs.\<close>

fun fs_spec_complete :: "fs_action \<Rightarrow> fs_spec \<Rightarrow> bool" where
  "fs_spec_complete Mount spec \<longleftrightarrow> fs_device spec \<noteq> [] \<and> fs_mount_point spec \<noteq> []"
| "fs_spec_complete Unmount spec \<longleftrightarrow> fs_mount_point spec \<noteq> []"
| "fs_spec_complete Remount spec \<longleftrightarrow> fs_mount_point spec \<noteq> []"
| "fs_spec_complete Check spec \<longleftrightarrow> fs_device spec \<noteq> []"
| "fs_spec_complete Format spec \<longleftrightarrow> fs_force spec \<and> fs_device spec \<noteq> [] \<and> fs_fs_type spec \<noteq> []"

lemma build_argv_complete: "(\<exists>argv. build_argv spec = Inr argv) \<longleftrightarrow> fs_spec_complete (fs_act spec) spec"
  by (cases "fs_act spec") (simp_all add: build_argv_def Let_def)

lemma build_argv_exact:
  assumes "build_argv spec = Inr argv"
  shows "argv = (case fs_act spec of
      Mount \<Rightarrow> [''mount''] @ (if fs_fs_type spec = [] then [] else [''-t'', fs_fs_type spec]) @
        (if join '','' (fs_mount_options spec) = [] then [] else [''-o'', join '','' (fs_mount_options spec)]) @
        [fs_device spec, fs_mount_point spec]
    | Unmount \<Rightarrow> [''umount'', fs_mount_point spec]
    | Remount \<Rightarrow> [''mount'', ''-o'', ''remount'' @
        (if join '','' (fs_mount_options spec) = [] then [] else '','' @ join '','' (fs_mount_options spec)),
        fs_mount_point spec]
    | Check \<Rightarrow> [''fsck'', ''-n'', fs_device spec]
    | Format \<Rightarrow> [''mkfs.'' @ fs_fs_type spec, fs_device spec])"
  using assms by (cases "fs_act spec") (auto simp: build_argv_def Let_def split: if_splits)

lemma run_fs_id: "co_command_id (fst (run_fs spawn lossy sh ex now spec w)) = fs_command_id spec"
    "co_node_id (fst (run_fs spawn lossy sh ex now spec w)) = ex_node_id ex"
  by (auto simp: run_fs_def outcome_def Let_def split: sum.splits prod.splits)

lemma run_fs_executed:
  assumes r: "run_fs spawn lossy sh (executor_new node True) now spec w = (oc, w')"
    and argv: "build_argv spec = Inr argv"
  shows "w' = snd (spawn argv w)" and "co_command_id oc = fs_command_id spec" and "co_node_id oc = node"
    and "co_completed_at_unix oc = now w'"
    and "case fst (spawn argv w) of
         Inl _ \<Rightarrow> \<not> co_success oc \<and> co_exit_code oc = - 1 \<and> co_stdout oc = [] \<and> co_stderr oc = []
       | Inr out \<Rightarrow> co_success oc = po_success out \<and>
           co_exit_code oc = (case po_code out of Some c \<Rightarrow> c | None \<Rightarrow> - 1) \<and>
           co_stdout oc = lossy (po_stdout out) \<and> co_stderr oc = lossy (po_stderr out)"
proof -
  obtain res w1 where sp: "spawn argv w = (res, w1)" by fastforce
  note defs = run_fs_def argv executor_new_def outcome_def Let_def sp
  show "w' = snd (spawn argv w)" "co_command_id oc = fs_command_id spec" "co_node_id oc = node"
      "co_completed_at_unix oc = now w'"
    using r by (cases res; auto simp: defs)+
  show "case fst (spawn argv w) of
         Inl _ \<Rightarrow> \<not> co_success oc \<and> co_exit_code oc = - 1 \<and> co_stdout oc = [] \<and> co_stderr oc = []
       | Inr out \<Rightarrow> co_success oc = po_success out \<and>
           co_exit_code oc = (case po_code out of Some c \<Rightarrow> c | None \<Rightarrow> - 1) \<and>
           co_stdout oc = lossy (po_stdout out) \<and> co_stderr oc = lossy (po_stderr out)"
    using r by (cases res; auto simp: defs)
qed

section \<open>Properties\<close>

text \<open>
  C20: an executor that may not execute never touches the machine, whatever it is sent: it
  answers a dry run, successful exactly when the command has the fields its action needs.
\<close>

theorem dry_run_has_no_effect:
  "run_fs spawn lossy sh (executor_new node False) now spec w =
     (outcome (executor_new node False) (now w) (fs_command_id spec)
        (fs_spec_complete (fs_act spec) spec)
        (if fs_spec_complete (fs_act spec) spec then 0 else - 1)
        (case build_argv spec of Inl m \<Rightarrow> m
          | Inr argv \<Rightarrow> ''dry-run: would execute `'' @ join '' '' argv @ ''`''), w)"
  using build_argv_complete [of spec]
  by (cases "build_argv spec") (auto simp: run_fs_def executor_new_def)

text \<open>
  C19: an executor that may execute either rejects a command that lacks a field its action needs
  (for a format that includes \<open>force\<close>) without touching the machine, or spawns exactly one process,
  whose whole command line is fixed by the command: a mount names type, options, device and
  mount point, an unmount and a remount the mount point, a check is \<open>fsck -n\<close>, only a forced
  format runs \<open>mkfs\<close>. The outcome is what that process returned, stamped after it ended.
\<close>

theorem run_fs_spawns_one:
  assumes "run_fs spawn lossy sh (executor_new node True) now spec w = (oc, w')"
  shows "(\<not> fs_spec_complete (fs_act spec) spec \<and> w' = w \<and> \<not> co_success oc) \<or>
    (\<exists>argv. fs_spec_complete (fs_act spec) spec \<and> w' = snd (spawn argv w) \<and>
      argv = (case fs_act spec of
          Mount \<Rightarrow> [''mount''] @ (if fs_fs_type spec = [] then [] else [''-t'', fs_fs_type spec]) @
            (if join '','' (fs_mount_options spec) = [] then [] else [''-o'', join '','' (fs_mount_options spec)]) @
            [fs_device spec, fs_mount_point spec]
        | Unmount \<Rightarrow> [''umount'', fs_mount_point spec]
        | Remount \<Rightarrow> [''mount'', ''-o'', ''remount'' @
            (if join '','' (fs_mount_options spec) = [] then [] else '','' @ join '','' (fs_mount_options spec)),
            fs_mount_point spec]
        | Check \<Rightarrow> [''fsck'', ''-n'', fs_device spec]
        | Format \<Rightarrow> [''mkfs.'' @ fs_fs_type spec, fs_device spec]) \<and>
      (fs_act spec = Format \<longrightarrow> fs_force spec) \<and>
      co_command_id oc = fs_command_id spec \<and> co_node_id oc = node \<and> co_completed_at_unix oc = now w' \<and>
      (case fst (spawn argv w) of
         Inl _ \<Rightarrow> \<not> co_success oc \<and> co_exit_code oc = - 1 \<and> co_stdout oc = [] \<and> co_stderr oc = []
       | Inr out \<Rightarrow> co_success oc = po_success out \<and>
           co_exit_code oc = (case po_code out of Some c \<Rightarrow> c | None \<Rightarrow> - 1) \<and>
           co_stdout oc = lossy (po_stdout out) \<and> co_stderr oc = lossy (po_stderr out)))"
proof (cases "build_argv spec")
  case (Inl m)
  then show ?thesis
    using assms build_argv_complete [of spec] by (auto simp: run_fs_def outcome_def)
next
  case (Inr argv)
  have "fs_spec_complete (fs_act spec) spec" using Inr build_argv_complete by blast
  moreover from this have "fs_act spec = Format \<longrightarrow> fs_force spec" by auto
  moreover note build_argv_exact [OF Inr] run_fs_executed [OF assms Inr]
  ultimately show ?thesis by (intro disjI2 exI [of _ argv]) blast
qed

theorem run_fs_spawns_one_witness:
  "\<exists>oc. run_fs (\<lambda>argv w. (Inr \<lparr>po_code = Some 0, po_success = True, po_stdout = [], po_stderr = []\<rparr>, w @ [argv]))
      (\<lambda>s. s) (\<lambda>_. ''0'') (executor_new ''n1'' True) (\<lambda>_. 5)
      \<lparr>fs_command_id = ''c1'', fs_act = Mount, fs_device = ''/dev/sdb1'', fs_mount_point = ''/mnt'',
       fs_fs_type = ''xfs'', fs_mount_options = [''ro'', ''noatime''], fs_force = False\<rparr> [] =
    (oc, [[''mount'', ''-t'', ''xfs'', ''-o'', ''ro,noatime'', ''/dev/sdb1'', ''/mnt'']]) \<and> co_success oc"
proof -
  let ?spec = "\<lparr>fs_command_id = ''c1'', fs_act = Mount, fs_device = ''/dev/sdb1'', fs_mount_point = ''/mnt'',
       fs_fs_type = ''xfs'', fs_mount_options = [''ro'', ''noatime''], fs_force = False\<rparr>"
  let ?spawn = "\<lambda>argv w. (Inr \<lparr>po_code = Some 0, po_success = True, po_stdout = [], po_stderr = []\<rparr>, w @ [argv])"
  obtain oc w' where r: "run_fs ?spawn (\<lambda>s. s) (\<lambda>_. ''0'') (executor_new ''n1'' True) (\<lambda>_. 5) ?spec [] = (oc, w')"
    by fastforce
  from run_fs_spawns_one [OF r]
  have "w' = [[''mount'', ''-t'', ''xfs'', ''-o'', ''ro,noatime'', ''/dev/sdb1'', ''/mnt'']] \<and> co_success oc"
    by simp
  with r show ?thesis by blast
qed

end
