(* ===== verification/Agent_Client.thy ===== *)
theory Agent_Client
  imports Config Grpc Executor
begin

text \<open>
  The agent's session with the daemon (\<open>hpc-agent/src/client.rs\<close>). The remote calls, the
  collector and process spawning are functions of a world \<open>'w\<close>, so that the session can be run
  against any peer, the model of the daemon included. The order in which \<open>select!\<close> finds its
  branches ready is a list of events.
\<close>

section \<open>Identity and back-off\<close>

definition resolve_node_id :: "agent_config \<Rightarrow> string option \<Rightarrow> string" where
  "resolve_node_id cfg host_name =
     (if \<not> is_blank (ac_node_id cfg) then ac_node_id cfg
      else case host_name of Some h \<Rightarrow> h | None \<Rightarrow> ''unknown-node'')"

definition MAX_BACKOFF :: duration where
  "MAX_BACKOFF = from_secs 30"

text \<open>The largest duration: \<open>u64::MAX\<close> seconds and 999999999 nanoseconds; a product beyond it panics.\<close>

definition DURATION_MAX :: duration where
  "DURATION_MAX = (2 ^ 64 - 1) * 1000000000 + 999999999"

definition next_backoff :: "duration \<Rightarrow> duration option" where
  "next_backoff backoff = (if DURATION_MAX < backoff * 2 then None else Some (min (backoff * 2) MAX_BACKOFF))"

text \<open>
  The loop of \<open>run\<close> over the results of its sessions: the sleeps it makes, and whether it is
  still running (it ends only by the panic).
\<close>

fun run_sleeps :: "duration \<Rightarrow> (hpc_error + unit) list \<Rightarrow> duration list \<times> bool" where
  "run_sleeps backoff [] = ([], True)"
| "run_sleeps backoff (r # rs) =
     (case next_backoff backoff of
        None \<Rightarrow> ([backoff], False)
      | Some b \<Rightarrow> (let (sleeps, running) = run_sleeps b rs in (backoff # sleeps, running)))"

section \<open>The peer\<close>

record 'w peer =
  peer_connect :: "string \<Rightarrow> 'w \<Rightarrow> (hpc_error + unit) \<times> 'w"
  peer_register :: "pb_node_info \<Rightarrow> 'w \<Rightarrow> (grpc_status + register_ack) \<times> 'w"
  peer_stream :: "pb_node_ref \<Rightarrow> 'w \<Rightarrow> (grpc_status + unit) \<times> 'w"
  peer_metrics :: "pb_metrics_report \<Rightarrow> 'w \<Rightarrow> (grpc_status + metrics_ack) \<times> 'w"
  peer_heartbeat :: "pb_node_ref \<Rightarrow> 'w \<Rightarrow> (grpc_status + heartbeat_ack) \<times> 'w"
  peer_result :: "pb_command_result \<Rightarrow> 'w \<Rightarrow> (grpc_status + ack) \<times> 'w"

record 'w machine =
  mc_collect :: "'w \<Rightarrow> metrics_report \<times> 'w"
  mc_spawn :: "string list \<Rightarrow> 'w \<Rightarrow> (string + process_output) \<times> 'w"
  mc_utf8_lossy :: "string \<Rightarrow> string"
  mc_show_i32 :: "i32 \<Rightarrow> string"
  mc_now :: "'w \<Rightarrow> u64"
  mc_show_code :: "grpc_code \<Rightarrow> string"

definition status_to_err :: "'w machine \<Rightarrow> grpc_status \<Rightarrow> hpc_error" where
  "status_to_err M status = Rpc (mc_show_code M (status_code status) @ '': '' @ status_message status)"

section \<open>Commands\<close>

definition handle_command ::
  "'w peer \<Rightarrow> 'w machine \<Rightarrow> executor \<Rightarrow> pb_command \<Rightarrow> 'w \<Rightarrow> unit result \<times> 'w" where
  "handle_command P M ex command w =
     (case (case pb_payload command of
          Some (PbDeploy d) \<Rightarrow>
            Some (run_deploy ex (mc_now M w) (deploy_spec_from_pb d), w)
        | Some (PbFs f) \<Rightarrow>
            Some (run_fs (mc_spawn M) (mc_utf8_lossy M) (mc_show_i32 M) ex (mc_now M) (fs_spec_from_pb f) w)
        | None \<Rightarrow> None) of
        None \<Rightarrow> (Inr (), w)
      | Some (oc, w1) \<Rightarrow>
          let (res, w2) = peer_result P (outcome_to_pb oc) w1
          in (and_then (map_err (status_to_err M) res) (\<lambda>_. Inr ()), w2))"

section \<open>Sessions\<close>

datatype event = MetricsTick | HeartbeatTick | Message "grpc_status + pb_command option"

datatype session_end = Ended "unit result" | Panicked | Running

text \<open>The \<open>select!\<close> loop over the events.\<close>

fun session_loop ::
  "'w peer \<Rightarrow> 'w machine \<Rightarrow> executor \<Rightarrow> node_id \<Rightarrow> u64 \<Rightarrow> event list \<Rightarrow> 'w \<Rightarrow> session_end \<times> 'w" where
  "session_loop P M ex node epoch [] w = (Running, w)"
| "session_loop P M ex node epoch (MetricsTick # es) w =
     (let (report, w1) = mc_collect M w; (res, w2) = peer_metrics P (report_to_pb report) w1
      in case res of
           Inl st \<Rightarrow> (Ended (Inl (status_to_err M st)), w2)
         | Inr _ \<Rightarrow> session_loop P M ex node epoch es w2)"
| "session_loop P M ex node epoch (HeartbeatTick # es) w =
     (let (res, w1) = peer_heartbeat P \<lparr>nref_node_id = node, nref_cluster_epoch = epoch\<rparr> w
      in case res of
           Inl st \<Rightarrow> (Ended (Inl (status_to_err M st)), w1)
         | Inr a \<Rightarrow> (if list_ex (\<lambda>d. d = ''reregister'') (ha_directives a) then (Ended (Inr ()), w1)
                    else session_loop P M ex node epoch es w1))"
| "session_loop P M ex node epoch (Message (Inl st) # es) w = (Ended (Inl (status_to_err M st)), w)"
| "session_loop P M ex node epoch (Message (Inr None) # es) w = (Ended (Inr ()), w)"
| "session_loop P M ex node epoch (Message (Inr (Some command)) # es) w =
     (let (res, w1) = handle_command P M ex command w
      in case res of
           Inl e \<Rightarrow> (Ended (Inl e), w1)
         | Inr _ \<Rightarrow> session_loop P M ex node epoch es w1)"

definition metrics_interval_of :: "agent_config \<Rightarrow> register_ack \<Rightarrow> duration" where
  "metrics_interval_of cfg a =
     (if 0 < ra_metrics_interval_secs a then from_secs (unat (ra_metrics_interval_secs a))
      else ac_metrics_interval cfg)"

text \<open>\<open>tokio::time::interval\<close> panics on a zero period.\<close>

definition session ::
  "'w peer \<Rightarrow> 'w machine \<Rightarrow> agent_config \<Rightarrow> node_info \<Rightarrow> executor \<Rightarrow> event list \<Rightarrow> 'w \<Rightarrow>
     session_end \<times> 'w" where
  "session P M cfg info ex es w =
     (case peer_connect P (ac_daemon_endpoint cfg) w of
        (Inl e, w1) \<Rightarrow> (Ended (Inl e), w1)
      | (Inr _, w1) \<Rightarrow>
      (case peer_register P (node_info_to_pb info) w1 of
        (Inl st, w2) \<Rightarrow> (Ended (Inl (status_to_err M st)), w2)
      | (Inr a, w2) \<Rightarrow>
      (let epoch = ra_cluster_epoch a; metrics_interval = metrics_interval_of cfg a in
      case peer_stream P \<lparr>nref_node_id = ni_node_id info, nref_cluster_epoch = epoch\<rparr> w2 of
        (Inl st, w3) \<Rightarrow> (Ended (Inl (status_to_err M st)), w3)
      | (Inr _, w3) \<Rightarrow>
          if metrics_interval = 0 \<or> ac_heartbeat_interval cfg = 0 then (Panicked, w3)
          else session_loop P M ex (ni_node_id info) epoch es w3)))"

section \<open>Properties\<close>

lemma backoff_step:
  "min (min (b * 2) MAX_BACKOFF * 2 ^ k) MAX_BACKOFF = min (b * 2 ^ Suc k) MAX_BACKOFF"
proof (cases "b * 2 \<le> MAX_BACKOFF")
  case False
  have "MAX_BACKOFF * 1 \<le> MAX_BACKOFF * 2 ^ k" by (intro mult_le_mono) simp_all
  then have l: "min (MAX_BACKOFF * 2 ^ k) MAX_BACKOFF = MAX_BACKOFF" by (intro min_absorb2) simp
  have "b * 2 * 1 \<le> b * 2 * 2 ^ k" by (intro mult_le_mono) simp_all
  then have r: "min (b * 2 ^ Suc k) MAX_BACKOFF = MAX_BACKOFF"
    using False by (intro min_absorb2) (simp add: ac_simps)
  have "min (b * 2) MAX_BACKOFF = MAX_BACKOFF" using False by simp
  then show ?thesis by (simp only: l r)
qed (simp add: ac_simps)

lemma run_sleeps_capped:
  assumes "b \<le> MAX_BACKOFF"
  shows "run_sleeps b rs = (map (\<lambda>k. min (b * 2 ^ k) MAX_BACKOFF) [0..<length rs], True)"
  using assms
proof (induction rs arbitrary: b)
  case (Cons r rs)
  have next_b: "next_backoff b = Some (min (b * 2) MAX_BACKOFF)"
    using Cons.prems by (simp add: next_backoff_def DURATION_MAX_def MAX_BACKOFF_def from_secs_def)
  show ?case
    using Cons.IH [of "min (b * 2) MAX_BACKOFF"] Cons.prems
    by (simp add: next_b backoff_step map_upt_Suc del: upt_Suc power_Suc)
qed simp

text \<open>
  C22: whatever the results of its sessions, the agent sleeps first for the configured back-off and
  then twice as long each time, up to 30 seconds; a session that ended cleanly does not reset
  the sequence. The loop goes on for ever unless the configured back-off exceeds half the largest
  duration.
\<close>

theorem backoff_schedule:
  assumes "b * 2 \<le> DURATION_MAX"
  shows "run_sleeps b rs =
    (map (\<lambda>k. if k = 0 then b else min (b * 2 ^ k) MAX_BACKOFF) [0..<length rs], True)"
proof (cases rs)
  case (Cons r rs')
  have "next_backoff b = Some (min (b * 2) MAX_BACKOFF)" using assms by (simp add: next_backoff_def)
  moreover have "min (min (b * 2) MAX_BACKOFF * 2 ^ k) MAX_BACKOFF = min (b * 2 ^ Suc k) MAX_BACKOFF" for k
    by (rule backoff_step)
  ultimately show ?thesis
    using run_sleeps_capped [of "min (b * 2) MAX_BACKOFF" rs']
    by (simp add: Cons map_upt_Suc del: upt_Suc power_Suc)
qed simp

theorem backoff_schedule_witness:
  "run_sleeps (from_secs 2) [Inr (), Inr (), Inr (), Inr (), Inr (), Inr ()] =
     (map from_secs [2, 4, 8, 16, 30, 30], True)"
proof -
  have "from_secs 2 * 2 \<le> DURATION_MAX" by (simp add: DURATION_MAX_def from_secs_def)
  from backoff_schedule [OF this, of "[Inr (), Inr (), Inr (), Inr (), Inr (), Inr ()]"]
  show ?thesis by (simp add: MAX_BACKOFF_def from_secs_def upt_rec)
qed

end
