(* ===== verification/Api.thy ===== *)
theory Api
  imports Text Cluster_Durability
begin

text \<open>
  The REST handlers of \<open>hpc-daemon/src/api.rs\<close>. A handler is a function of its extracted
  arguments and the shared state; the identifier that \<open>Uuid::new_v4\<close> produces and the clock are
  arguments. A handler that dispatches may have to wait, so its result is a poll.
\<close>

section \<open>Errors\<close>

datatype http_status = OK | NO_CONTENT | BAD_REQUEST | NOT_FOUND | CONFLICT | INTERNAL_SERVER_ERROR

record api_error =
  ae_status :: http_status
  ae_message :: string

definition api_error_new :: "http_status \<Rightarrow> string \<Rightarrow> api_error" where
  "api_error_new status message = \<lparr>ae_status = status, ae_message = message\<rparr>"

definition api_error_from :: "hpc_error \<Rightarrow> api_error" where
  "api_error_from e = api_error_new
     (case e of
        NotFound _ \<Rightarrow> NOT_FOUND
      | InvalidState _ \<Rightarrow> CONFLICT
      | ConfigInvalid _ \<Rightarrow> BAD_REQUEST
      | Conversion _ \<Rightarrow> BAD_REQUEST
      | _ \<Rightarrow> INTERNAL_SERVER_ERROR) (hpc_error_to_string e)"

type_synonym 'a api_result = "api_error + 'a"

definition unknown_node_error :: "node_id \<Rightarrow> api_error" where
  "unknown_node_error node = api_error_new NOT_FOUND (''unknown node '' @ node)"

section \<open>Queries\<close>

record cluster_status =
  cs_epoch :: u64
  cs_total_nodes :: nat
  cs_healthy :: nat
  cs_degraded :: nat
  cs_unreachable :: nat
  cs_connected_streams :: nat
  cs_server_time_unix :: u64

text \<open>The counting loop over the nodes: healthy, degraded, unreachable.\<close>

fun count_statuses :: "node_record list \<Rightarrow> nat \<times> nat \<times> nat \<Rightarrow> nat \<times> nat \<times> nat" where
  "count_statuses [] (h, d, u) = (h, d, u)"
| "count_statuses (n # ns) (h, d, u) = count_statuses ns
     (case nr_status n of
        Healthy \<Rightarrow> (h + 1, d, u)
      | Registered \<Rightarrow> (h + 1, d, u)
      | Degraded \<Rightarrow> (h, d + 1, u)
      | Unreachable \<Rightarrow> (h, d, u + 1)
      | Draining \<Rightarrow> (h, d, u))"

text \<open>The handler takes two locks: \<open>s\<close> is the state at the listing, \<open>s'\<close> at the channel count.\<close>

definition api_cluster_status :: "u64 \<Rightarrow> 'db shared_state \<Rightarrow> 'db shared_state \<Rightarrow> cluster_status" where
  "api_cluster_status now s s' =
     (let nodes = list_nodes s; (healthy, degraded, unreachable) = count_statuses nodes (0, 0, 0)
      in \<lparr>cs_epoch = ss_epoch s, cs_total_nodes = length nodes, cs_healthy = healthy,
          cs_degraded = degraded, cs_unreachable = unreachable,
          cs_connected_streams = connected_count s', cs_server_time_unix = now\<rparr>)"

definition api_list_nodes :: "'db shared_state \<Rightarrow> node_record list" where
  "api_list_nodes s = list_nodes s"

definition api_get_node :: "node_id \<Rightarrow> 'db shared_state \<Rightarrow> node_record api_result" where
  "api_get_node node s =
     (case get_node node s of None \<Rightarrow> Inl (unknown_node_error node) | Some r \<Rightarrow> Inr r)"

definition api_get_node_metrics :: "node_id \<Rightarrow> 'db shared_state \<Rightarrow> metrics_report api_result" where
  "api_get_node_metrics node s =
     (case get_node node s of
        None \<Rightarrow> Inl (unknown_node_error node)
      | Some r \<Rightarrow> (case nr_latest_metrics r of
          None \<Rightarrow> Inl (api_error_new NOT_FOUND ''no metrics reported yet'')
        | Some m \<Rightarrow> Inr m))"

definition api_list_outcomes :: "'db store \<Rightarrow> 'db shared_state \<Rightarrow> command_outcome list api_result" where
  "api_list_outcomes S s = map_err api_error_from (list_outcomes S s)"

section \<open>Commands\<close>

definition api_deregister_node ::
  "'db store \<Rightarrow> node_id \<Rightarrow> 'db shared_state \<Rightarrow> http_status api_result \<times> 'db shared_state" where
  "api_deregister_node S node s =
     (let (res, s') = deregister_node S node s
      in (and_then (map_err api_error_from res) (\<lambda>removed.
            if removed then Inr NO_CONTENT else Inl (unknown_node_error node)), s'))"

record deploy_request =
  dr_deployment_id :: "string option"
  dr_action :: deploy_action
  dr_component :: string
  dr_version :: string
  dr_target_path :: string
  dr_options :: "(string, string) btree_map"

record dispatch_ack =
  da_accepted :: bool
  da_command_id :: string
  da_node_id :: string

definition not_connected_error :: "node_id \<Rightarrow> api_error" where
  "not_connected_error node = api_error_new CONFLICT (''node '' @ node @ '' is not connected'')"

text \<open>The end of both command handlers: dispatch and acknowledge.\<close>

definition dispatch_and_ack ::
  "node_id \<Rightarrow> string \<Rightarrow> node_command \<Rightarrow> 'db shared_state \<Rightarrow>
     dispatch_ack api_result poll \<times> 'db shared_state" where
  "dispatch_and_ack node cid cmd s =
     (case dispatch node cmd s of
        (Pending, s') \<Rightarrow> (Pending, s')
      | (Ready res, s') \<Rightarrow> (Ready (and_then (map_err api_error_from res) (\<lambda>_.
          Inr \<lparr>da_accepted = True, da_command_id = cid, da_node_id = node\<rparr>)), s'))"

definition api_deploy ::
  "string \<Rightarrow> node_id \<Rightarrow> deploy_request \<Rightarrow> 'db shared_state \<Rightarrow>
     dispatch_ack api_result poll \<times> 'db shared_state" where
  "api_deploy uuid node req s =
     (if is_blank (dr_component req)
      then (Ready (Inl (api_error_new BAD_REQUEST ''component must not be empty'')), s)
      else if \<not> is_connected node s then (Ready (Inl (not_connected_error node)), s)
      else
        let dep = (case dr_deployment_id req of Some d \<Rightarrow> d | None \<Rightarrow> ''dep-'' @ uuid);
            spec = \<lparr>deployment_id = dep, ds_action = dr_action req,
              ds_component = dr_component req, ds_version = dr_version req,
              ds_target_path = dr_target_path req, ds_options = dr_options req\<rparr>
        in dispatch_and_ack node dep (Deploy spec) s)"

record fs_request =
  fr_command_id :: "string option"
  fr_action :: fs_action
  fr_device :: string
  fr_mount_point :: string
  fr_fs_type :: string
  fr_mount_options :: "string list"
  fr_force :: bool

definition api_fs_command ::
  "string \<Rightarrow> node_id \<Rightarrow> fs_request \<Rightarrow> 'db shared_state \<Rightarrow>
     dispatch_ack api_result poll \<times> 'db shared_state" where
  "api_fs_command uuid node req s =
     (if is_blank (fr_mount_point req)
      then (Ready (Inl (api_error_new BAD_REQUEST ''mount_point must not be empty'')), s)
      else if fr_action req = Format \<and> \<not> fr_force req
      then (Ready (Inl (api_error_new BAD_REQUEST ''format is destructive and requires force=true'')), s)
      else if \<not> is_connected node s then (Ready (Inl (not_connected_error node)), s)
      else
        let cid = (case fr_command_id req of Some c \<Rightarrow> c | None \<Rightarrow> ''fs-'' @ uuid);
            spec = \<lparr>fs_command_id = cid, fs_act = fr_action req, fs_device = fr_device req,
              fs_mount_point = fr_mount_point req, fs_fs_type = fr_fs_type req,
              fs_mount_options = fr_mount_options req, fs_force = fr_force req\<rparr>
        in dispatch_and_ack node cid (Fs spec) s)"

section \<open>Lemmas\<close>

lemma count_statuses_sum:
  assumes "\<forall>n \<in> set ns. nr_status n \<noteq> Draining"
  shows "(case count_statuses ns (h, d, u) of (h', d', u') \<Rightarrow> h' + d' + u') = h + d + u + length ns"
  using assms
proof (induction ns arbitrary: h d u)
  case (Cons n ns)
  then show ?case by (cases "nr_status n") simp_all
qed simp

lemma count_statuses_filter:
  "count_statuses ns (h, d, u) =
     (h + length (filter (\<lambda>n. nr_status n = Healthy \<or> nr_status n = Registered) ns),
      d + length (filter (\<lambda>n. nr_status n = Degraded) ns),
      u + length (filter (\<lambda>n. nr_status n = Unreachable) ns))"
proof (induction ns arbitrary: h d u)
  case (Cons n ns)
  then show ?case by (cases "nr_status n") simp_all
qed simp

text \<open>What a dispatch that ends does: enqueue on the node's channel, or fail with the state kept.\<close>

lemma chan_send_cases:
  "(\<exists>ch. nth_opt (ss_chans s) c = Some ch \<and> ch_open ch \<and> length (ch_queue ch) < chan_capacity \<and>
      chan_send c cmd s = (Ready (Inr ()),
        s\<lparr>ss_chans := (ss_chans s)[c := ch\<lparr>ch_queue := ch_queue ch @ [cmd]\<rparr>]\<rparr>)) \<or>
   chan_send c cmd s = (Ready (Inl ()), s) \<or> chan_send c cmd s = (Pending, s)"
  by (auto simp: chan_send_def not_le split: option.splits)

lemma dispatch_cases:
  assumes "dispatch node cmd s = (Ready res, s')"
  shows "(res = Inl (unknown_node node) \<and> get_node node s = None \<and> s' = s) \<or>
     (\<exists>m. res = Inl (InvalidState m) \<and> s' = s) \<or>
     (\<exists>c ch. res = Inr () \<and> get_node node s \<noteq> None \<and> map_of (ss_channels s) node = Some c \<and>
        nth_opt (ss_chans s) c = Some ch \<and> ch_open ch \<and> length (ch_queue ch) < chan_capacity \<and>
        s' = s\<lparr>ss_chans := (ss_chans s)[c := ch\<lparr>ch_queue := ch_queue ch @ [cmd]\<rparr>]\<rparr>)"
proof (cases "get_node node s = None \<or> map_of (ss_channels s) node = None")
  case True
  then show ?thesis using assms by (auto simp: dispatch_def split: if_splits)
next
  case False
  then obtain c where c: "map_of (ss_channels s) node = Some c" and n: "get_node node s \<noteq> None" by blast
  from chan_send_cases [of s c cmd] show ?thesis
    using assms n by (elim disjE exE) (auto simp: dispatch_def c)
qed

lemma dispatch_and_ack_cases:
  assumes "dispatch_and_ack node cid cmd s = (Ready res, s')"
  shows "(\<exists>e. res = Inl e \<and> ae_status e \<in> {NOT_FOUND, CONFLICT} \<and> s' = s) \<or>
    (\<exists>c ch. res = Inr \<lparr>da_accepted = True, da_command_id = cid, da_node_id = node\<rparr> \<and>
       get_node node s \<noteq> None \<and> map_of (ss_channels s) node = Some c \<and>
       nth_opt (ss_chans s) c = Some ch \<and> ch_open ch \<and> length (ch_queue ch) < chan_capacity \<and>
       s' = s\<lparr>ss_chans := (ss_chans s)[c := ch\<lparr>ch_queue := ch_queue ch @ [cmd]\<rparr>]\<rparr>)"
proof -
  obtain r where d: "dispatch node cmd s = (Ready r, s')"
    and res: "res = and_then (map_err api_error_from r) (\<lambda>_.
      Inr \<lparr>da_accepted = True, da_command_id = cid, da_node_id = node\<rparr>)"
    using assms by (auto simp: dispatch_and_ack_def split: prod.splits poll.splits)
  from dispatch_cases [OF d] show ?thesis
    by (elim disjE exE conjE) (simp_all add: res map_err_def and_then_def api_error_from_def
      api_error_new_def unknown_node_def)
qed

lemma list_nodes_count:
  assumes ok: "table_ok s"
  shows "length (filter P (list_nodes s)) = card {i. \<exists>n. get_node i s = Some n \<and> P n}"
proof -
  let ?f = "\<lambda>n. ni_node_id (nr_info n)"
  have d: "distinct (map ?f (list_nodes s))" using ok by (simp add: list_nodes_keys table_ok_def)
  have "{i. \<exists>n. get_node i s = Some n \<and> P n} = ?f ` set (filter P (list_nodes s))"
    by (simp add: list_nodes_ids [OF ok, symmetric])
  then have "card {i. \<exists>n. get_node i s = Some n \<and> P n} = card (set (map ?f (filter P (list_nodes s))))"
    by simp
  also have "\<dots> = length (filter P (list_nodes s))"
    using distinct_card [OF distinct_map_filter [OF d, of P]] by simp
  finally show ?thesis by simp
qed

text \<open>Every outcome of a file system request.\<close>

lemma fs_command_cases:
  assumes "api_fs_command uuid node req s = (Ready res, s')"
  shows "(\<exists>e. res = Inl e \<and> s' = s \<and> ae_status e \<in> {BAD_REQUEST, NOT_FOUND, CONFLICT} \<and>
      (ae_status e = BAD_REQUEST \<longleftrightarrow>
         is_blank (fr_mount_point req) \<or> (fr_action req = Format \<and> \<not> fr_force req))) \<or>
    (\<exists>a c ch spec. res = Inr a \<and> \<not> is_blank (fr_mount_point req) \<and>
      (fr_action req = Format \<longrightarrow> fr_force req) \<and> da_node_id a = node \<and>
      da_command_id a = (case fr_command_id req of Some c \<Rightarrow> c | None \<Rightarrow> ''fs-'' @ uuid) \<and>
      map_of (ss_channels s) node = Some c \<and> nth_opt (ss_chans s) c = Some ch \<and> ch_open ch \<and>
      length (ch_queue ch) < chan_capacity \<and>
      s' = s\<lparr>ss_chans := (ss_chans s)[c := ch\<lparr>ch_queue := ch_queue ch @ [Fs spec]\<rparr>]\<rparr> \<and>
      fs_command_id spec = da_command_id a \<and> fs_act spec = fr_action req \<and>
      fs_device spec = fr_device req \<and> fs_mount_point spec = fr_mount_point req \<and>
      fs_fs_type spec = fr_fs_type req \<and> fs_mount_options spec = fr_mount_options req \<and>
      fs_force spec = fr_force req)"
proof -
  let ?bad = "is_blank (fr_mount_point req) \<or> (fr_action req = Format \<and> \<not> fr_force req)"
  consider (bad) "?bad" | (off) "\<not> ?bad" "\<not> is_connected node s" | (on) "\<not> ?bad" "is_connected node s"
    by blast
  then show ?thesis
  proof cases
    case bad
    then show ?thesis using assms
      by (auto simp: api_fs_command_def api_error_new_def split: if_splits)
  next
    case off
    then show ?thesis using assms
      by (auto simp: api_fs_command_def api_error_new_def not_connected_error_def split: if_splits)
  next
    case on
    let ?id = "case fr_command_id req of Some c \<Rightarrow> c | None \<Rightarrow> ''fs-'' @ uuid"
    let ?spec = "\<lparr>fs_command_id = ?id, fs_act = fr_action req, fs_device = fr_device req,
      fs_mount_point = fr_mount_point req, fs_fs_type = fr_fs_type req,
      fs_mount_options = fr_mount_options req, fs_force = fr_force req\<rparr>"
    have d: "dispatch_and_ack node ?id (Fs ?spec) s = (Ready res, s')"
      using assms on unfolding api_fs_command_def Let_def by (simp split: if_splits)
    from dispatch_and_ack_cases [OF d] show ?thesis
    proof (elim disjE exE conjE, goal_cases)
      case (1 e)
      then show ?case using on by auto
    next
      case (2 c ch)
      then show ?case using on by (intro disjI2 exI conjI) (assumption | simp)+
    qed
  qed
qed

lemma fs_command_enqueues:
  assumes "api_fs_command uuid node req s = (Ready (Inr a), s')"
  shows "\<exists>c ch spec. map_of (ss_channels s) node = Some c \<and> nth_opt (ss_chans s) c = Some ch \<and>
    s' = s\<lparr>ss_chans := (ss_chans s)[c := ch\<lparr>ch_queue := ch_queue ch @ [Fs spec]\<rparr>]\<rparr> \<and>
    spec = \<lparr>fs_command_id = da_command_id a, fs_act = fr_action req, fs_device = fr_device req,
      fs_mount_point = fr_mount_point req, fs_fs_type = fr_fs_type req,
      fs_mount_options = fr_mount_options req, fs_force = fr_force req\<rparr> \<and>
    da_node_id a = node \<and> da_command_id a = (case fr_command_id req of Some c \<Rightarrow> c | None \<Rightarrow> ''fs-'' @ uuid) \<and>
    (fr_action req = Format \<longrightarrow> fr_force req)"
proof -
  from fs_command_cases [OF assms] obtain c ch spec where
    "map_of (ss_channels s) node = Some c" "nth_opt (ss_chans s) c = Some ch"
    "s' = s\<lparr>ss_chans := (ss_chans s)[c := ch\<lparr>ch_queue := ch_queue ch @ [Fs spec]\<rparr>]\<rparr>"
    "fs_command_id spec = da_command_id a" "fs_act spec = fr_action req" "fs_device spec = fr_device req"
    "fs_mount_point spec = fr_mount_point req" "fs_fs_type spec = fr_fs_type req"
    "fs_mount_options spec = fr_mount_options req" "fs_force spec = fr_force req"
    "da_node_id a = node" "da_command_id a = (case fr_command_id req of Some c \<Rightarrow> c | None \<Rightarrow> ''fs-'' @ uuid)"
    "fr_action req = Format \<longrightarrow> fr_force req" by auto
  then show ?thesis by (intro exI [of _ c] exI [of _ ch] exI [of _ spec]) (cases spec, simp)
qed

text \<open>Every outcome of a deployment request.\<close>

lemma deploy_cases:
  assumes "api_deploy uuid node req s = (Ready res, s')"
  shows "(\<exists>e. res = Inl e \<and> s' = s \<and> ae_status e \<in> {BAD_REQUEST, NOT_FOUND, CONFLICT} \<and>
      (ae_status e = BAD_REQUEST \<longleftrightarrow> is_blank (dr_component req))) \<or>
    (\<exists>a c ch spec. res = Inr a \<and> \<not> is_blank (dr_component req) \<and> da_node_id a = node \<and>
      map_of (ss_channels s) node = Some c \<and> nth_opt (ss_chans s) c = Some ch \<and> ch_open ch \<and>
      length (ch_queue ch) < chan_capacity \<and>
      s' = s\<lparr>ss_chans := (ss_chans s)[c := ch\<lparr>ch_queue := ch_queue ch @ [Deploy spec]\<rparr>]\<rparr> \<and>
      spec = \<lparr>deployment_id = da_command_id a, ds_action = dr_action req, ds_component = dr_component req,
        ds_version = dr_version req, ds_target_path = dr_target_path req, ds_options = dr_options req\<rparr>)"
proof -
  consider (bad) "is_blank (dr_component req)" | (off) "\<not> is_blank (dr_component req)" "\<not> is_connected node s"
    | (on) "\<not> is_blank (dr_component req)" "is_connected node s"
    by blast
  then show ?thesis
  proof cases
    case bad
    then show ?thesis using assms by (auto simp: api_deploy_def api_error_new_def split: if_splits)
  next
    case off
    then show ?thesis using assms
      by (auto simp: api_deploy_def api_error_new_def not_connected_error_def split: if_splits)
  next
    case on
    let ?id = "case dr_deployment_id req of Some d \<Rightarrow> d | None \<Rightarrow> ''dep-'' @ uuid"
    let ?spec = "\<lparr>deployment_id = ?id, ds_action = dr_action req, ds_component = dr_component req,
        ds_version = dr_version req, ds_target_path = dr_target_path req, ds_options = dr_options req\<rparr>"
    have d: "dispatch_and_ack node ?id (Deploy ?spec) s = (Ready res, s')"
      using assms on unfolding api_deploy_def Let_def by (simp split: if_splits)
    from dispatch_and_ack_cases [OF d] show ?thesis
    proof (elim disjE exE conjE, goal_cases)
      case (1 e)
      then show ?case using on by auto
    next
      case (2 c ch)
      then show ?case using on by (intro disjI2 exI conjI) (assumption | simp)+
    qed
  qed
qed

section \<open>Properties\<close>

text \<open>
  C23: in every reachable state the status page's three counts are the numbers of nodes that are
  healthy or newly registered, degraded, and unreachable, and they add up to the total.
\<close>

theorem cluster_status_counts:
  assumes "daemon_reach SS D s" and cs: "cs = api_cluster_status now s s'"
  shows "cs_healthy cs + cs_degraded cs + cs_unreachable cs = cs_total_nodes cs \<and>
    cs_degraded cs = card {i. map_option nr_status (get_node i s) = Some Degraded} \<and>
    cs_unreachable cs = card {i. map_option nr_status (get_node i s) = Some Unreachable} \<and>
    cs_total_nodes cs = card {i. get_node i s \<noteq> None}"
proof -
  have ok: "table_ok s" using assms(1) by (rule reach_table_ok)
  have "\<forall>n \<in> set (list_nodes s). nr_status n \<noteq> Draining"
    using table_okD(2) [OF ok] by (auto simp: list_nodes_set [OF ok] ran_def)
  then have "cs_healthy cs + cs_degraded cs + cs_unreachable cs = cs_total_nodes cs"
    using count_statuses_sum [of "list_nodes s" 0 0 0]
    by (auto simp: cs api_cluster_status_def Let_def split: prod.splits)
  moreover have "cs_degraded cs = length (filter (\<lambda>n. nr_status n = Degraded) (list_nodes s))"
    and "cs_unreachable cs = length (filter (\<lambda>n. nr_status n = Unreachable) (list_nodes s))"
    and "cs_total_nodes cs = length (filter (\<lambda>n. True) (list_nodes s))"
    by (simp_all add: cs api_cluster_status_def count_statuses_filter Let_def)
  ultimately show ?thesis
    using list_nodes_count [OF ok, of "\<lambda>n. nr_status n = Degraded"]
      list_nodes_count [OF ok, of "\<lambda>n. nr_status n = Unreachable"]
      list_nodes_count [OF ok, of "\<lambda>n. True"]
    by (simp add: map_option_eq_Some not_None_eq)
qed

theorem cluster_status_counts_witness:
  "cs_healthy (api_cluster_status 30 state1 state1) = 1"
proof -
  have "{i. get_node i state1 \<noteq> None} = {''n1''}" by (simp add: get_node_def state1_def)
  moreover have "{i. map_option nr_status (get_node i state1) = Some Degraded} = {}"
    "{i. map_option nr_status (get_node i state1) = Some Unreachable} = {}"
    by (auto simp: get_node_def state1_def sample_record_def)
  ultimately show ?thesis
    using cluster_status_counts [OF sample_reach refl, of 30 state1] by (simp del: map_option_eq_Some)
qed

text \<open>
  C18: a file system command is accepted only for a node with an open channel and a non-blank mount
  point, and a format only with force; then exactly the requested command, under the
  acknowledged id, is at the end of the node's queue and nothing else changed. Every
  refusal leaves the state alone and is a 400, 404 or 409, a 400 exactly for a bad request.
\<close>

theorem fs_command_guarded:
  assumes "api_fs_command uuid node req s = (Ready res, s')"
  shows "(\<exists>e. res = Inl e \<and> s' = s \<and> ae_status e \<in> {BAD_REQUEST, NOT_FOUND, CONFLICT} \<and>
      (ae_status e = BAD_REQUEST \<longleftrightarrow>
         is_blank (fr_mount_point req) \<or> (fr_action req = Format \<and> \<not> fr_force req))) \<or>
    (\<exists>a c ch spec. res = Inr a \<and> \<not> is_blank (fr_mount_point req) \<and>
      (fr_action req = Format \<longrightarrow> fr_force req) \<and> da_node_id a = node \<and>
      da_command_id a = (case fr_command_id req of Some c \<Rightarrow> c | None \<Rightarrow> ''fs-'' @ uuid) \<and>
      map_of (ss_channels s) node = Some c \<and> nth_opt (ss_chans s) c = Some ch \<and> ch_open ch \<and>
      length (ch_queue ch) < chan_capacity \<and>
      s' = s\<lparr>ss_chans := (ss_chans s)[c := ch\<lparr>ch_queue := ch_queue ch @ [Fs spec]\<rparr>]\<rparr> \<and>
      fs_command_id spec = da_command_id a \<and> fs_act spec = fr_action req \<and>
      fs_device spec = fr_device req \<and> fs_mount_point spec = fr_mount_point req \<and>
      fs_fs_type spec = fr_fs_type req \<and> fs_mount_options spec = fr_mount_options req \<and>
      fs_force spec = fr_force req)"
  using fs_command_cases [OF assms] .

theorem fs_command_guarded_witness:
  "\<exists>e. api_fs_command ''u'' ''n1'' \<lparr>fr_command_id = None, fr_action = Format, fr_device = ''/dev/sdb'',
      fr_mount_point = ''/mnt'', fr_fs_type = ''xfs'', fr_mount_options = [], fr_force = False\<rparr> state1 =
    (Ready (Inl e), state1) \<and> ae_status e = BAD_REQUEST"
proof -
  let ?req = "\<lparr>fr_command_id = None, fr_action = Format, fr_device = ''/dev/sdb'',
    fr_mount_point = ''/mnt'', fr_fs_type = ''xfs'', fr_mount_options = [], fr_force = False\<rparr>"
  have "\<not> is_blank ''/mnt''" by (rule not_blankI) (simp_all add: ws_len_def byte_at_def)
  then obtain res s' where r: "api_fs_command ''u'' ''n1'' ?req state1 = (Ready res, s')"
    by (simp add: api_fs_command_def)
  from fs_command_guarded [OF r] r show ?thesis by auto
qed

end
