(* ===== verification/Command_Streams.thy ===== *)
theory Command_Streams
  imports Grpc "HOL-Library.Sublist"
begin

text \<open>
  The command streams of the daemon: \<open>stream_commands\<close> of \<open>hpc-daemon/src/grpc.rs\<close> with the task
  it spawns, and the channel side of \<open>dispatch\<close> (\<open>hpc-daemon/src/state.rs\<close>), as a step relation
  over the shared state, the tasks and the sends in flight. Shown are what is on the way in the buffers, that a
  connected node has a live receiver, that a stream delivers what was accepted for it in order and
  at most once, and the race of a reconnecting agent with the task of its former stream.
\<close>

section \<open>State\<close>

text \<open>Where the spawned task is: at its \<open>select!\<close>, in the send, before the detach, after it, done.\<close>

datatype phase = Receiving | Forwarding node_command | Detaching | Dropping | Finished

text \<open>A task owns the receiver of channel \<open>tk_chan\<close> and the sender of the response stream \<open>tk_out\<close>.\<close>

record stream_task =
  tk_node :: node_id
  tk_chan :: nat
  tk_phase :: phase
  tk_out :: "pb_command list"
  tk_out_open :: bool

definition out_capacity :: nat where
  "out_capacity = 64"

text \<open>\<open>sy_sends\<close>: the dispatches that hold a clone of a sender and wait for room.\<close>

record 'db sys =
  sy_state :: "'db shared_state"
  sy_tasks :: "stream_task list"
  sy_sends :: "(nat \<times> node_command) list"

definition set_task :: "nat \<Rightarrow> stream_task \<Rightarrow> 'db sys \<Rightarrow> 'db sys" where
  "set_task k t y = y\<lparr>sy_tasks := (sy_tasks y)[k := t]\<rparr>"

definition set_chan :: "nat \<Rightarrow> mchan \<Rightarrow> 'db sys \<Rightarrow> 'db sys" where
  "set_chan c ch y = y\<lparr>sy_state := (sy_state y)\<lparr>ss_chans := (ss_chans (sy_state y))[c := ch]\<rparr>\<rparr>"

definition chan_of :: "'db sys \<Rightarrow> nat \<Rightarrow> mchan" where
  "chan_of y c = ss_chans (sy_state y) ! c"

section \<open>Opening a stream\<close>

text \<open>After the check: attach a fresh channel and spawn its task.\<close>

definition spawn_stream :: "node_id \<Rightarrow> 'db sys \<Rightarrow> nat \<times> 'db sys" where
  "spawn_stream node_id y =
     (let (c, s') = attach_command_channel node_id (sy_state y)
      in (c, y\<lparr>sy_state := s', sy_tasks := sy_tasks y @
            [\<lparr>tk_node = node_id, tk_chan = c, tk_phase = Receiving, tk_out = [], tk_out_open = True\<rparr>]\<rparr>))"

definition rpc_stream_commands :: "pb_node_ref \<Rightarrow> 'db sys \<Rightarrow> (grpc_status + nat) \<times> 'db sys" where
  "rpc_stream_commands request y =
     (let node_id = nref_node_id request in
      if get_node node_id (sy_state y) = None
      then (Inl (status_not_found (''unknown node '' @ node_id)), y)
      else (let (c, y') = spawn_stream node_id y in (Inr c, y')))"

section \<open>Steps\<close>

text \<open>What is observed of channel \<open>c\<close>: a command accepted into it, one received by its client.\<close>

datatype label = Tau | Accepted nat node_command | Received nat pb_command

text \<open>No sender of channel \<open>c\<close> is left: \<open>recv\<close> on an empty channel returns \<open>None\<close>.\<close>

definition senderless :: "nat \<Rightarrow> 'db sys \<Rightarrow> bool" where
  "senderless c y \<longleftrightarrow> c \<notin> snd ` set (ss_channels (sy_state y)) \<and> c \<notin> fst ` set (sy_sends y)"

inductive stream_step :: "'db store set \<Rightarrow> 'db sys \<Rightarrow> label \<Rightarrow> 'db sys \<Rightarrow> bool" for SS where
  open_stream: "stream_step SS y Tau (snd (spawn_stream i y))"
| begin_send: "map_of (ss_channels (sy_state y)) i = Some c \<Longrightarrow>
    stream_step SS y Tau (y\<lparr>sy_sends := sy_sends y @ [(c, cmd)]\<rparr>)"
| send_ok: "sy_sends y = xs @ (c, cmd) # zs \<Longrightarrow>
    chan_send c cmd (sy_state y) = (Ready (Inr ()), s') \<Longrightarrow>
    stream_step SS y (Accepted c cmd) (y\<lparr>sy_state := s', sy_sends := xs @ zs\<rparr>)"
| send_err: "sy_sends y = xs @ (c, cmd) # zs \<Longrightarrow>
    chan_send c cmd (sy_state y) = (Ready (Inl ()), s') \<Longrightarrow>
    stream_step SS y Tau (y\<lparr>sy_sends := xs @ zs\<rparr>)"
| send_cancelled: "sy_sends y = xs @ (c, cmd) # zs \<Longrightarrow>
    stream_step SS y Tau (y\<lparr>sy_sends := xs @ zs\<rparr>)"
| recv_some: "k < length (sy_tasks y) \<Longrightarrow> t = sy_tasks y ! k \<Longrightarrow> tk_phase t = Receiving \<Longrightarrow>
    chan_of y (tk_chan t) = ch \<Longrightarrow> ch_queue ch = cmd # cmds \<Longrightarrow>
    stream_step SS y Tau (set_chan (tk_chan t) (ch\<lparr>ch_queue := cmds\<rparr>)
      (set_task k (t\<lparr>tk_phase := Forwarding cmd\<rparr>) y))"
| recv_none: "k < length (sy_tasks y) \<Longrightarrow> t = sy_tasks y ! k \<Longrightarrow> tk_phase t = Receiving \<Longrightarrow>
    ch_queue (chan_of y (tk_chan t)) = [] \<Longrightarrow> senderless (tk_chan t) y \<Longrightarrow>
    stream_step SS y Tau (set_task k (t\<lparr>tk_phase := Detaching\<rparr>) y)"
| out_closed: "k < length (sy_tasks y) \<Longrightarrow> t = sy_tasks y ! k \<Longrightarrow> tk_phase t = Receiving \<Longrightarrow>
    \<not> tk_out_open t \<Longrightarrow> stream_step SS y Tau (set_task k (t\<lparr>tk_phase := Detaching\<rparr>) y)"
| forward_ok: "k < length (sy_tasks y) \<Longrightarrow> t = sy_tasks y ! k \<Longrightarrow> tk_phase t = Forwarding cmd \<Longrightarrow>
    tk_out_open t \<Longrightarrow> length (tk_out t) < out_capacity \<Longrightarrow>
    stream_step SS y Tau (set_task k
      (t\<lparr>tk_phase := Receiving, tk_out := tk_out t @ [to_pb_command now cmd]\<rparr>) y)"
| forward_err: "k < length (sy_tasks y) \<Longrightarrow> t = sy_tasks y ! k \<Longrightarrow> tk_phase t = Forwarding cmd \<Longrightarrow>
    \<not> tk_out_open t \<Longrightarrow> stream_step SS y Tau (set_task k (t\<lparr>tk_phase := Detaching\<rparr>) y)"
| detach_task: "k < length (sy_tasks y) \<Longrightarrow> t = sy_tasks y ! k \<Longrightarrow> tk_phase t = Detaching \<Longrightarrow>
    stream_step SS y Tau (set_task k (t\<lparr>tk_phase := Dropping\<rparr>)
      (y\<lparr>sy_state := detach_command_channel (tk_node t) (sy_state y)\<rparr>))"
| drop_task: "k < length (sy_tasks y) \<Longrightarrow> t = sy_tasks y ! k \<Longrightarrow> tk_phase t = Dropping \<Longrightarrow>
    stream_step SS y Tau (set_chan (tk_chan t) \<lparr>ch_queue = [], ch_open = False\<rparr>
      (set_task k (t\<lparr>tk_phase := Finished\<rparr>) y))"
| client_recv: "k < length (sy_tasks y) \<Longrightarrow> t = sy_tasks y ! k \<Longrightarrow> tk_out t = p # ps \<Longrightarrow>
    stream_step SS y (Received (tk_chan t) p) (set_task k (t\<lparr>tk_out := ps\<rparr>) y)"
| client_hangup: "k < length (sy_tasks y) \<Longrightarrow> t = sy_tasks y ! k \<Longrightarrow>
    stream_step SS y Tau (set_task k (t\<lparr>tk_out := [], tk_out_open := False\<rparr>) y)"
| deregister_detach: "stream_step SS y Tau (y\<lparr>sy_state := detach_command_channel i (sy_state y)\<rparr>)"
| other_section: "section_step SS (sy_state y) s' \<Longrightarrow>
    ss_channels s' = ss_channels (sy_state y) \<Longrightarrow> ss_chans s' = ss_chans (sy_state y) \<Longrightarrow>
    stream_step SS y Tau (y\<lparr>sy_state := s'\<rparr>)"

text \<open>Runs from a daemon that has just started, with what was observed.\<close>

inductive stream_run :: "'db store set \<Rightarrow> label list \<Rightarrow> 'db sys \<Rightarrow> bool" for SS where
  run_start: "ss_channels s = [] \<Longrightarrow> ss_chans s = [] \<Longrightarrow>
    stream_run SS [] \<lparr>sy_state = s, sy_tasks = [], sy_sends = []\<rparr>"
| run_step: "stream_run SS tr y \<Longrightarrow> stream_step SS y l y' \<Longrightarrow> stream_run SS (tr @ [l]) y'"

section \<open>The structural invariant\<close>

lemma set_simps [simp]:
  "sy_state (set_task k t y) = sy_state y" "sy_sends (set_task k t y) = sy_sends y"
  "sy_tasks (set_task k t y) = (sy_tasks y)[k := t]"
  "sy_tasks (set_chan c ch y) = sy_tasks y" "sy_sends (set_chan c ch y) = sy_sends y"
  "ss_channels (sy_state (set_chan c ch y)) = ss_channels (sy_state y)"
  "ss_chans (sy_state (set_chan c ch y)) = (ss_chans (sy_state y))[c := ch]"
  by (simp_all add: set_task_def set_chan_def)

text \<open>
  The task still owns its receiver: also while it detaches, when it has left its loop.
\<close>

definition live :: "phase \<Rightarrow> bool" where
  "live p \<longleftrightarrow> p \<noteq> Dropping \<and> p \<noteq> Finished"

text \<open>One task and the channel it receives from.\<close>

definition pair_ok :: "nat \<Rightarrow> stream_task \<Rightarrow> mchan \<Rightarrow> bool" where
  "pair_ok k t ch \<longleftrightarrow> tk_chan t = k \<and> (ch_open ch \<longleftrightarrow> tk_phase t \<noteq> Finished) \<and>
     length (ch_queue ch) \<le> chan_capacity \<and> length (tk_out t) \<le> out_capacity \<and>
     (tk_out_open t \<or> tk_out t = [])"

definition channel_ok :: "stream_task list \<Rightarrow> node_id \<Rightarrow> nat \<Rightarrow> bool" where
  "channel_ok ts i c \<longleftrightarrow> c < length ts \<and> tk_node (ts ! c) = i \<and> live (tk_phase (ts ! c))"

definition sys_ok :: "'db sys \<Rightarrow> bool" where
  "sys_ok y \<longleftrightarrow> length (ss_chans (sy_state y)) = length (sy_tasks y) \<and>
     (\<forall>k < length (sy_tasks y). pair_ok k (sy_tasks y ! k) (ss_chans (sy_state y) ! k)) \<and>
     distinct (map fst (ss_channels (sy_state y))) \<and>
     (\<forall>i c. map_of (ss_channels (sy_state y)) i = Some c \<longrightarrow> channel_ok (sy_tasks y) i c)"

lemma sys_okD:
  assumes "sys_ok y" and "k < length (sy_tasks y)" and "t = sy_tasks y ! k"
  shows "tk_chan t = k" and "pair_ok k t (chan_of y k)" and "k < length (ss_chans (sy_state y))"
  using assms by (auto simp: sys_ok_def pair_ok_def chan_of_def)

lemma sys_okD_channel:
  "sys_ok y \<Longrightarrow> map_of (ss_channels (sy_state y)) i = Some c \<Longrightarrow> channel_ok (sy_tasks y) i c"
  by (simp add: sys_ok_def)

text \<open>Replacing a task and its channel together.\<close>

lemma sys_ok_update:
  assumes ok: "sys_ok y" and k: "k < length (sy_tasks y)"
    and tasks: "sy_tasks y' = (sy_tasks y)[k := t']"
    and chans: "ss_chans (sy_state y') = (ss_chans (sy_state y))[k := ch']"
    and pair: "pair_ok k t' ch'"
    and dist: "distinct (map fst (ss_channels (sy_state y')))"
    and channels: "\<And>i c. map_of (ss_channels (sy_state y')) i = Some c \<Longrightarrow>
      map_of (ss_channels (sy_state y)) i = Some c \<and> (c = k \<longrightarrow> tk_node t' = i \<and> live (tk_phase t'))"
  shows "sys_ok y'"
proof -
  have "pair_ok j (sy_tasks y' ! j) (ss_chans (sy_state y') ! j)" if "j < length (sy_tasks y')" for j
    using that ok pair by (cases "j = k") (simp_all add: tasks chans sys_ok_def)
  moreover have "channel_ok (sy_tasks y') i c" if "map_of (ss_channels (sy_state y')) i = Some c" for i c
    using channels [OF that] sys_okD_channel [OF ok] k
    by (cases "c = k") (auto simp: channel_ok_def tasks)
  ultimately show ?thesis using ok dist by (simp add: sys_ok_def tasks chans)
qed

lemma sys_ok_set_task:
  assumes "sys_ok y" and "k < length (sy_tasks y)" and "t = sy_tasks y ! k"
    and "tk_node t' = tk_node t" and "tk_chan t' = tk_chan t" and "live (tk_phase t) \<Longrightarrow> live (tk_phase t')"
    and "tk_phase t' = Finished \<longleftrightarrow> tk_phase t = Finished"
    and "length (tk_out t') \<le> out_capacity" and "tk_out_open t' \<or> tk_out t' = []"
  shows "sys_ok (set_task k t' y)"
proof (rule sys_ok_update [OF assms(1,2), where t' = t' and ch' = "chan_of y k"])
  show "pair_ok k t' (chan_of y k)"
    using sys_okD(2) [OF assms(1-3)] assms(4-) by (auto simp: pair_ok_def)
  show "map_of (ss_channels (sy_state y)) i = Some c \<and> (c = k \<longrightarrow> tk_node t' = i \<and> live (tk_phase t'))"
    if "map_of (ss_channels (sy_state (set_task k t' y))) i = Some c" for i c
    using that sys_okD_channel [OF assms(1), of i c] assms(3,4,6) by (auto simp: channel_ok_def)
qed (use assms(1) in \<open>simp_all add: sys_ok_def chan_of_def\<close>)

lemma sys_ok_state:
  assumes "sys_ok y" and "sy_tasks y' = sy_tasks y"
    and "ss_chans (sy_state y') = ss_chans (sy_state y)"
    and "ss_channels (sy_state y') = ss_channels (sy_state y) \<or>
      (\<exists>i. ss_channels (sy_state y') = AList.delete i (ss_channels (sy_state y)))"
  shows "sys_ok y'"
  using assms by (auto simp: sys_ok_def distinct_delete map_of_delete split: if_splits)

lemma sys_ok_spawn:
  assumes ok: "sys_ok y"
  shows "sys_ok (snd (spawn_stream i y))"
proof -
  let ?n = "length (sy_tasks y)"
  let ?t = "\<lparr>tk_node = i, tk_chan = ?n, tk_phase = Receiving, tk_out = [], tk_out_open = True\<rparr>"
  have len: "length (ss_chans (sy_state y)) = ?n" using ok by (simp add: sys_ok_def)
  have new: "pair_ok ?n ?t \<lparr>ch_queue = [], ch_open = True\<rparr>"
    by (simp add: pair_ok_def chan_capacity_def out_capacity_def)
  have "channel_ok (sy_tasks y @ [?t]) j c"
    if "map_of (AList.update i ?n (ss_channels (sy_state y))) j = Some c" for j c
    using that sys_okD_channel [OF ok, of j c]
    by (auto simp: channel_ok_def live_def nth_append update_conv' split: if_splits)
  then show ?thesis
    using ok new
    by (simp add: sys_ok_def spawn_stream_def attach_command_channel_def len nth_append less_Suc_eq
        distinct_update Let_def)
qed

lemma nth_optD: "nth_opt xs i = Some x \<Longrightarrow> i < length xs \<and> xs ! i = x"
  by (simp add: nth_opt_def split: if_splits)

lemma send_okD:
  assumes "chan_send c cmd s = (Ready (Inr ()), s')"
  obtains ch where "c < length (ss_chans s)" and "ss_chans s ! c = ch" and "ch_open ch"
    and "length (ch_queue ch) < chan_capacity"
    and "s' = s\<lparr>ss_chans := (ss_chans s)[c := ch\<lparr>ch_queue := ch_queue ch @ [cmd]\<rparr>]\<rparr>"
  using assms
  by (auto simp: chan_send_def dest!: nth_optD split: option.splits if_splits)

lemma sys_ok_step: "stream_step SS y l y' \<Longrightarrow> sys_ok y \<Longrightarrow> sys_ok y'"
proof (induction rule: stream_step.induct)
  case (open_stream y i)
  then show ?case by (rule sys_ok_spawn)
next
  case (send_ok y xs c cmd zs s')
  from send_okD [OF send_ok.hyps(2)] obtain ch where ch: "c < length (ss_chans (sy_state y))"
    "ss_chans (sy_state y) ! c = ch" "ch_open ch" "length (ch_queue ch) < chan_capacity"
    "s' = (sy_state y)\<lparr>ss_chans := (ss_chans (sy_state y))[c := ch\<lparr>ch_queue := ch_queue ch @ [cmd]\<rparr>]\<rparr>" .
  have c: "c < length (sy_tasks y)" using ch(1) send_ok.prems by (simp add: sys_ok_def)
  then have "pair_ok c (sy_tasks y ! c) ch" using send_ok.prems ch(2) by (auto simp: sys_ok_def)
  then show ?case
    using send_ok.prems ch(3,4) sys_okD_channel [OF send_ok.prems]
    by (intro sys_ok_update [OF send_ok.prems c, where t' = "sy_tasks y ! c"
        and ch' = "ch\<lparr>ch_queue := ch_queue ch @ [cmd]\<rparr>"])
      (auto simp: ch(5) pair_ok_def sys_ok_def channel_ok_def)
next
  case (recv_some k y t ch cmd cmds)
  note k = sys_okD [OF recv_some.prems recv_some.hyps(1,2)]
  show ?case
  proof (rule sys_ok_update [OF recv_some.prems recv_some.hyps(1)])
    show "pair_ok k (t\<lparr>tk_phase := Forwarding cmd\<rparr>) (ch\<lparr>ch_queue := cmds\<rparr>)"
      using k recv_some.hyps by (auto simp: pair_ok_def)
    show "map_of (ss_channels (sy_state y)) i = Some c \<and>
        (c = k \<longrightarrow> tk_node (t\<lparr>tk_phase := Forwarding cmd\<rparr>) = i \<and> live (tk_phase (t\<lparr>tk_phase := Forwarding cmd\<rparr>)))"
      if "map_of (ss_channels (sy_state (set_chan (tk_chan t) (ch\<lparr>ch_queue := cmds\<rparr>)
        (set_task k (t\<lparr>tk_phase := Forwarding cmd\<rparr>) y)))) i = Some c" for i c
      using that sys_okD_channel [OF recv_some.prems, of i c] recv_some.hyps(2)
      by (auto simp: channel_ok_def live_def)
  qed (use recv_some.prems k in \<open>simp_all add: sys_ok_def\<close>)
next
  case (detach_task k y t)
  note k = sys_okD [OF detach_task.prems detach_task.hyps(1,2)]
  have del: "c \<noteq> k" if "map_of (AList.delete (tk_node t) (ss_channels (sy_state y))) i = Some c" for i c
    using that sys_okD_channel [OF detach_task.prems, of i c] detach_task.hyps(2)
    by (auto simp: map_of_delete channel_ok_def split: if_splits)
  show ?case
  proof (rule sys_ok_update [OF detach_task.prems detach_task.hyps(1)])
    show "pair_ok k (t\<lparr>tk_phase := Dropping\<rparr>) (chan_of y k)"
      using k detach_task.hyps(3) by (auto simp: pair_ok_def)
  qed (use detach_task.prems k del in
    \<open>auto simp: sys_ok_def detach_command_channel_def chan_of_def distinct_delete map_of_delete split: if_splits\<close>)
next
  case (drop_task k y t)
  note k = sys_okD [OF drop_task.prems drop_task.hyps(1,2)]
  have "c \<noteq> k" if "map_of (ss_channels (sy_state y)) i = Some c" for i c
    using sys_okD_channel [OF drop_task.prems that] drop_task.hyps by (auto simp: channel_ok_def live_def)
  moreover have "pair_ok k (t\<lparr>tk_phase := Finished\<rparr>) \<lparr>ch_queue = [], ch_open = False\<rparr>"
    using k by (auto simp: pair_ok_def)
  ultimately show ?case
    using drop_task.prems k
    by (intro sys_ok_update [OF drop_task.prems drop_task.hyps(1)]) (auto simp: sys_ok_def)
next
  case (client_recv k y t p ps)
  then show ?case
    using sys_okD(2) [OF client_recv.prems client_recv.hyps(1,2)]
    by (intro sys_ok_set_task) (auto simp: pair_ok_def)
next
  case (forward_ok k y t cmd now)
  then show ?case by (intro sys_ok_set_task) (auto simp: pair_ok_def live_def)
next
  case (recv_none k y t)
  then show ?case using sys_okD(2) [OF recv_none.prems recv_none.hyps(1,2)]
    by (intro sys_ok_set_task) (auto simp: pair_ok_def live_def)
next
  case (out_closed k y t)
  then show ?case using sys_okD(2) [OF out_closed.prems out_closed.hyps(1,2)]
    by (intro sys_ok_set_task) (auto simp: pair_ok_def live_def)
next
  case (forward_err k y t cmd)
  then show ?case using sys_okD(2) [OF forward_err.prems forward_err.hyps(1,2)]
    by (intro sys_ok_set_task) (auto simp: pair_ok_def live_def)
next
  case (client_hangup k y t)
  then show ?case by (intro sys_ok_set_task) auto
next
  case (deregister_detach y i)
  then show ?case by (rule sys_ok_state) (auto simp: detach_command_channel_def)
qed (erule sys_ok_state; simp)+

lemma sys_ok_run: "stream_run SS tr y \<Longrightarrow> sys_ok y"
proof (induction rule: stream_run.induct)
  case (run_start s)
  then show ?case by (simp add: sys_ok_def)
qed (blast intro: sys_ok_step)

section \<open>What a stream delivers\<close>

fun accepted :: "nat \<Rightarrow> label list \<Rightarrow> node_command list" where
  "accepted c [] = []"
| "accepted c (Accepted c' cmd # tr) = (if c' = c then cmd # accepted c tr else accepted c tr)"
| "accepted c (Tau # tr) = accepted c tr"
| "accepted c (Received c' p # tr) = accepted c tr"

fun received :: "nat \<Rightarrow> label list \<Rightarrow> pb_command list" where
  "received c [] = []"
| "received c (Received c' p # tr) = (if c' = c then p # received c tr else received c tr)"
| "received c (Tau # tr) = received c tr"
| "received c (Accepted c' cmd # tr) = received c tr"

definition encodes :: "node_command \<Rightarrow> pb_command \<Rightarrow> bool" where
  "encodes cmd p \<longleftrightarrow> (\<exists>now. p = to_pb_command now cmd)"

lemma accepted_append [simp]: "accepted c (tr @ tr') = accepted c tr @ accepted c tr'"
  by (induction c tr rule: accepted.induct) simp_all

lemma received_append [simp]: "received c (tr @ tr') = received c tr @ received c tr'"
  by (induction c tr rule: received.induct) simp_all

text \<open>The commands between the channel and the response stream of a task.\<close>

fun in_hand :: "phase \<Rightarrow> node_command list" where
  "in_hand (Forwarding cmd) = [cmd]"
| "in_hand _ = []"

definition moving :: "phase \<Rightarrow> bool" where
  "moving p \<longleftrightarrow> p \<noteq> Detaching \<and> live p"

lemma moving_simps [simp]: "moving Receiving" "moving (Forwarding cmd)" "\<not> moving Detaching"
  "\<not> moving Dropping" "\<not> moving Finished"
  by (simp_all add: moving_def live_def)

text \<open>
  \<open>A\<close> was accepted, \<open>R\<close> received: received and buffered output encode a prefix of \<open>A\<close>; while the
  task moves commands and its client listens, the rest of \<open>A\<close> is still on its way.
\<close>

definition fifo_ok :: "node_command list \<Rightarrow> pb_command list \<Rightarrow> stream_task \<Rightarrow> mchan \<Rightarrow> bool" where
  "fifo_ok A R t ch \<longleftrightarrow> (\<exists>D. list_all2 encodes D (R @ tk_out t) \<and> prefix D A \<and>
     (moving (tk_phase t) \<and> tk_out_open t \<longrightarrow> A = D @ in_hand (tk_phase t) @ ch_queue ch))"

lemma fifo_accept: "fifo_ok A R t ch \<Longrightarrow> fifo_ok (A @ [cmd]) R t (ch\<lparr>ch_queue := ch_queue ch @ [cmd]\<rparr>)"
  unfolding fifo_ok_def by (elim exE, rule_tac x = D in exI) auto

lemma fifo_recv: "fifo_ok A R t ch \<Longrightarrow> tk_phase t = Receiving \<Longrightarrow> ch_queue ch = cmd # cmds \<Longrightarrow>
    fifo_ok A R (t\<lparr>tk_phase := Forwarding cmd\<rparr>) (ch\<lparr>ch_queue := cmds\<rparr>)"
  unfolding fifo_ok_def by auto

lemma fifo_forward:
  assumes "fifo_ok A R t ch" and "tk_phase t = Forwarding cmd" and "tk_out_open t"
  shows "fifo_ok A R (t\<lparr>tk_phase := Receiving, tk_out := tk_out t @ [to_pb_command now cmd]\<rparr>) ch"
proof -
  from assms obtain D where D: "list_all2 encodes D (R @ tk_out t)" "A = D @ [cmd] @ ch_queue ch"
    by (auto simp: fifo_ok_def)
  have "list_all2 encodes (D @ [cmd]) ((R @ tk_out t) @ [to_pb_command now cmd])"
    using D(1) by (rule list_all2_appendI) (auto simp: encodes_def)
  then show ?thesis unfolding fifo_ok_def by (intro exI [of _ "D @ [cmd]"]) (simp add: D(2))
qed

lemma fifo_client: "fifo_ok A R t ch \<Longrightarrow> tk_out t = p # ps \<Longrightarrow> fifo_ok A (R @ [p]) (t\<lparr>tk_out := ps\<rparr>) ch"
  by (simp add: fifo_ok_def)

lemma fifo_stop: "fifo_ok A R t ch \<Longrightarrow> \<not> moving p \<Longrightarrow> fifo_ok A R (t\<lparr>tk_phase := p\<rparr>) ch'"
  by (auto simp: fifo_ok_def)

lemma fifo_hangup:
  assumes "fifo_ok A R t ch"
  shows "fifo_ok A R (t\<lparr>tk_out := [], tk_out_open := False\<rparr>) ch"
proof -
  from assms obtain D where D: "list_all2 encodes D (R @ tk_out t)" "prefix D A"
    by (auto simp: fifo_ok_def)
  have "list_all2 encodes (take (length R) D) R"
    using list_all2_takeI [OF D(1), of "length R"] by simp
  moreover have "prefix (take (length R) D) A"
    using D(2) by (meson prefix_order.trans take_is_prefix)
  ultimately show ?thesis by (auto simp: fifo_ok_def)
qed

definition delivery_ok :: "label list \<Rightarrow> 'db sys \<Rightarrow> bool" where
  "delivery_ok tr y \<longleftrightarrow>
     (\<forall>k. if k < length (sy_tasks y)
          then fifo_ok (accepted k tr) (received k tr) (sy_tasks y ! k) (chan_of y k)
          else accepted k tr = [] \<and> received k tr = [])"

lemma delivery_update:
  assumes "delivery_ok tr y" and "k < length (sy_tasks y)"
    and "sy_tasks y' = (sy_tasks y)[k := t']" and "\<And>j. j \<noteq> k \<Longrightarrow> chan_of y' j = chan_of y j"
    and "\<And>j. j \<noteq> k \<Longrightarrow> accepted j [l] = [] \<and> received j [l] = []"
    and "fifo_ok (accepted k tr @ accepted k [l]) (received k tr @ received k [l]) t' (chan_of y' k)"
  shows "delivery_ok (tr @ [l]) y'"
  using assms unfolding delivery_ok_def by (auto simp: nth_list_update)

lemma delivery_frame:
  assumes "delivery_ok tr y" and "sy_tasks y' = sy_tasks y" and "ss_chans (sy_state y') = ss_chans (sy_state y)"
  shows "delivery_ok tr y'"
proof -
  have "chan_of y' = chan_of y" using assms(3) by (simp add: chan_of_def fun_eq_iff)
  then show ?thesis using assms(1,2) by (simp add: delivery_ok_def)
qed

lemma delivery_tau: "delivery_ok (tr @ [Tau]) y \<longleftrightarrow> delivery_ok tr y"
  by (simp add: delivery_ok_def)

lemma delivery_same: "delivery_ok tr y \<Longrightarrow> sy_tasks y' = sy_tasks y \<Longrightarrow>
    ss_chans (sy_state y') = ss_chans (sy_state y) \<Longrightarrow> delivery_ok (tr @ [Tau]) y'"
  unfolding delivery_tau by (rule delivery_frame)

lemma chan_of_simps [simp]:
  "chan_of (set_task k t y) j = chan_of y j"
  "j \<noteq> c \<Longrightarrow> chan_of (set_chan c ch y) j = chan_of y j"
  "c < length (ss_chans (sy_state y)) \<Longrightarrow> chan_of (set_chan c ch y) c = ch"
  by (simp_all add: chan_of_def)

lemma deliveryD: "delivery_ok tr y \<Longrightarrow> k < length (sy_tasks y) \<Longrightarrow> t = sy_tasks y ! k \<Longrightarrow>
    fifo_ok (accepted k tr) (received k tr) t (chan_of y k)"
  by (simp add: delivery_ok_def)

lemma delivery_step:
  assumes "stream_step SS y l y'" and "sys_ok y" and "delivery_ok tr y"
  shows "delivery_ok (tr @ [l]) y'"
  using assms
proof (induction rule: stream_step.induct)
  case (open_stream y i)
  let ?n = "length (sy_tasks y)"
  have len: "length (ss_chans (sy_state y)) = ?n" using open_stream.prems by (simp add: sys_ok_def)
  let ?t = "\<lparr>tk_node = i, tk_chan = ?n, tk_phase = Receiving, tk_out = [], tk_out_open = True\<rparr>"
  let ?ch = "\<lparr>ch_queue = [], ch_open = True\<rparr>" and ?y' = "snd (spawn_stream i y)"
  have y': "sy_tasks ?y' = sy_tasks y @ [?t]" "ss_chans (sy_state ?y') = ss_chans (sy_state y) @ [?ch]"
    by (simp_all add: spawn_stream_def attach_command_channel_def len Let_def)
  have "fifo_ok [] [] ?t ?ch" by (simp add: fifo_ok_def)
  then have "if k < Suc ?n then fifo_ok (accepted k tr) (received k tr) (sy_tasks ?y' ! k) (chan_of ?y' k)
      else accepted k tr = [] \<and> received k tr = []" for k
    using open_stream.prems(2) [unfolded delivery_ok_def, rule_format, of k]
    by (cases "k = ?n") (auto simp: y' nth_append chan_of_def len)
  moreover have "length (sy_tasks ?y') = Suc ?n" by (simp add: y')
  ultimately show ?case by (simp add: delivery_ok_def)
next
  case (send_ok y xs c cmd zs s')
  from send_okD [OF send_ok.hyps(2)] obtain ch where ch: "c < length (ss_chans (sy_state y))"
    "ss_chans (sy_state y) ! c = ch" "ch_open ch" "length (ch_queue ch) < chan_capacity"
    "s' = (sy_state y)\<lparr>ss_chans := (ss_chans (sy_state y))[c := ch\<lparr>ch_queue := ch_queue ch @ [cmd]\<rparr>]\<rparr>" .
  have c: "c < length (sy_tasks y)" using ch(1) send_ok.prems(1) by (simp add: sys_ok_def)
  have "fifo_ok (accepted c tr) (received c tr) (sy_tasks y ! c) ch"
    using deliveryD [OF send_ok.prems(2) c refl] by (simp add: chan_of_def ch(2))
  from fifo_accept [OF this, of cmd] show ?case
    by (intro delivery_update [OF send_ok.prems(2) c, where t' = "sy_tasks y ! c"])
      (simp_all add: chan_of_def ch(1,5))
next
  case (recv_some k y t ch cmd cmds)
  note k = sys_okD [OF recv_some.prems(1) recv_some.hyps(1,2)]
  note d = deliveryD [OF recv_some.prems(2) recv_some.hyps(1,2)]
  show ?case
    using fifo_recv [OF d recv_some.hyps(3)] recv_some.hyps k
    by (intro delivery_update [OF recv_some.prems(2) recv_some.hyps(1)]) (auto simp: k(1))
next
  case (recv_none k y t)
  note d = deliveryD [OF recv_none.prems(2) recv_none.hyps(1,2)]
  show ?case
    using fifo_stop [OF d] by (intro delivery_update [OF recv_none.prems(2) recv_none.hyps(1)]) auto
next
  case (out_closed k y t)
  note d = deliveryD [OF out_closed.prems(2) out_closed.hyps(1,2)]
  show ?case
    using fifo_stop [OF d] by (intro delivery_update [OF out_closed.prems(2) out_closed.hyps(1)]) auto
next
  case (forward_ok k y t cmd now)
  note d = deliveryD [OF forward_ok.prems(2) forward_ok.hyps(1,2)]
  show ?case
    using fifo_forward [OF d forward_ok.hyps(3,4)]
    by (intro delivery_update [OF forward_ok.prems(2) forward_ok.hyps(1)]) auto
next
  case (forward_err k y t cmd)
  note d = deliveryD [OF forward_err.prems(2) forward_err.hyps(1,2)]
  show ?case
    using fifo_stop [OF d] by (intro delivery_update [OF forward_err.prems(2) forward_err.hyps(1)]) auto
next
  case (detach_task k y t)
  note d = deliveryD [OF detach_task.prems(2) detach_task.hyps(1,2)]
  show ?case
    using fifo_stop [OF d]
    by (intro delivery_update [OF detach_task.prems(2) detach_task.hyps(1)])
      (auto simp: chan_of_def detach_command_channel_def)
next
  case (drop_task k y t)
  note d = deliveryD [OF drop_task.prems(2) drop_task.hyps(1,2)]
  note k = sys_okD [OF drop_task.prems(1) drop_task.hyps(1,2)]
  show ?case
    using fifo_stop [OF d]
    by (intro delivery_update [OF drop_task.prems(2) drop_task.hyps(1)]) (auto simp: k(1))
next
  case (client_recv k y t p ps)
  note d = deliveryD [OF client_recv.prems(2) client_recv.hyps(1,2)]
  note k = sys_okD [OF client_recv.prems(1) client_recv.hyps(1,2)]
  show ?case
    using fifo_client [OF d client_recv.hyps(3)]
    by (intro delivery_update [OF client_recv.prems(2) client_recv.hyps(1)]) (auto simp: k(1))
next
  case (client_hangup k y t)
  note d = deliveryD [OF client_hangup.prems(2) client_hangup.hyps(1,2)]
  show ?case
    using fifo_hangup [OF d]
    by (intro delivery_update [OF client_hangup.prems(2) client_hangup.hyps(1)]) auto
qed (rule delivery_same; simp add: detach_command_channel_def)+

lemma delivery_run: "stream_run SS tr y \<Longrightarrow> delivery_ok tr y"
proof (induction rule: stream_run.induct)
  case (run_start s)
  then show ?case by (simp add: delivery_ok_def)
qed (blast intro: delivery_step sys_ok_run)

section \<open>A sample run\<close>

definition sample_command :: node_command where
  "sample_command = Deploy \<lparr>deployment_id = ''d1'', ds_action = Install, ds_component = ''lustre'',
     ds_version = [], ds_target_path = [], ds_options = []\<rparr>"

text \<open>The node's stream with \<open>q\<close> in its channel and \<open>out\<close> in its response buffer.\<close>

definition sample_sys ::
  "node_command list \<Rightarrow> phase \<Rightarrow> pb_command list \<Rightarrow> (nat \<times> node_command) list \<Rightarrow> document mem_db sys" where
  "sample_sys q p out sends = \<lparr>sy_state = state1\<lparr>ss_channels := [(''n1'', 0)],
       ss_chans := [\<lparr>ch_queue = q, ch_open = True\<rparr>]\<rparr>,
     sy_tasks = [\<lparr>tk_node = ''n1'', tk_chan = 0, tk_phase = p, tk_out = out, tk_out_open = True\<rparr>],
     sy_sends = sends\<rparr>"

lemma sample_sys_simps [simp]:
  "sy_tasks (sample_sys q p out sends) =
     [\<lparr>tk_node = ''n1'', tk_chan = 0, tk_phase = p, tk_out = out, tk_out_open = True\<rparr>]"
  "sy_sends (sample_sys q p out sends) = sends"
  "chan_of (sample_sys q p out sends) 0 = \<lparr>ch_queue = q, ch_open = True\<rparr>"
  "ss_channels (sy_state (sample_sys q p out sends)) = [(''n1'', 0)]"
  "get_node i (sy_state (sample_sys q p out sends)) = get_node i state1"
  by (simp_all add: sample_sys_def chan_of_def get_node_def)

lemma sample_sys_set [simp]:
  "set_task 0 \<lparr>tk_node = ''n1'', tk_chan = 0, tk_phase = p', tk_out = out', tk_out_open = True\<rparr>
     (sample_sys q p out sends) = sample_sys q p' out' sends"
  "set_chan 0 \<lparr>ch_queue = q', ch_open = True\<rparr> (sample_sys q p out sends) = sample_sys q' p out sends"
  by (simp_all add: set_task_def set_chan_def sample_sys_def)

lemma sample_opened: "stream_run SS [Tau] (sample_sys [] Receiving [] [])"
proof -
  have "stream_run SS [] \<lparr>sy_state = state1, sy_tasks = [], sy_sends = []\<rparr>"
    by (rule run_start) (simp_all add: state1_def state0_def)
  from run_step [OF this open_stream, of "''n1''"] show ?thesis
    by (simp add: spawn_stream_def attach_command_channel_def sample_sys_def state1_def state0_def Let_def)
qed

text \<open>A command sent to the node's channel, and the channel filled.\<close>

lemma sample_send:
  assumes "stream_run SS tr (sample_sys q Receiving [] [])" and "length q < chan_capacity"
  shows "stream_run SS (tr @ [Tau, Accepted 0 cmd]) (sample_sys (q @ [cmd]) Receiving [] [])"
proof -
  let ?y = "sample_sys q Receiving []"
  have 1: "stream_step SS (?y []) Tau (?y [(0, cmd)])"
    using begin_send [of "?y []" "''n1''" 0 SS cmd] by (simp add: sample_sys_def)
  have 2: "stream_step SS (?y [(0, cmd)]) (Accepted 0 cmd) (sample_sys (q @ [cmd]) Receiving [] [])"
    using assms(2) send_ok [of "?y [(0, cmd)]" "[]" 0 cmd "[]" "sy_state (sample_sys (q @ [cmd]) Receiving [] [])" SS]
    by (simp add: sample_sys_def chan_send_def nth_opt_def)
  from run_step [OF run_step [OF assms(1) 1] 2] show ?thesis by simp
qed


text \<open>A command on its way through an idle stream.\<close>

lemma sample_steps:
  "stream_step SS (sample_sys [cmd] Receiving [] []) Tau (sample_sys [] (Forwarding cmd) [] [])"
  "stream_step SS (sample_sys [] (Forwarding cmd) [] []) Tau (sample_sys [] Receiving [to_pb_command now cmd] [])"
  "stream_step SS (sample_sys [] Receiving [p] []) (Received 0 p) (sample_sys [] Receiving [] [])"
proof -
  let ?y = sample_sys and ?p = "to_pb_command now cmd"
  let ?t = "\<lambda>p out. \<lparr>tk_node = ''n1'', tk_chan = 0, tk_phase = p, tk_out = out, tk_out_open = True\<rparr>"
  have "stream_step SS (?y [cmd] Receiving [] []) Tau
      (set_chan (tk_chan (?t Receiving [])) (\<lparr>ch_queue = [cmd], ch_open = True\<rparr>\<lparr>ch_queue := []\<rparr>)
        (set_task 0 ((?t Receiving [])\<lparr>tk_phase := Forwarding cmd\<rparr>) (?y [cmd] Receiving [] [])))"
    by (rule recv_some) simp_all
  then show "stream_step SS (?y [cmd] Receiving [] []) Tau (?y [] (Forwarding cmd) [] [])" by simp
  have "stream_step SS (?y [] (Forwarding cmd) [] []) Tau
      (set_task 0 ((?t (Forwarding cmd) [])\<lparr>tk_phase := Receiving,
          tk_out := tk_out (?t (Forwarding cmd) []) @ [?p]\<rparr>) (?y [] (Forwarding cmd) [] []))"
    by (rule forward_ok) (simp_all add: out_capacity_def)
  then show "stream_step SS (?y [] (Forwarding cmd) [] []) Tau (?y [] Receiving [?p] [])" by simp
  have "stream_step SS (?y [] Receiving [p] []) (Received (tk_chan (?t Receiving [p])) p)
      (set_task 0 ((?t Receiving [p])\<lparr>tk_out := []\<rparr>) (?y [] Receiving [p] []))"
    by (rule client_recv) simp_all
  then show "stream_step SS (?y [] Receiving [p] []) (Received 0 p) (?y [] Receiving [] [])" by simp
qed

lemma sample_delivered:
  "stream_run SS [Tau, Tau, Accepted 0 sample_command, Tau, Tau, Received 0 (to_pb_command 7 sample_command)]
     (sample_sys [] Receiving [] [])"
proof -
  have "stream_run SS ([Tau] @ [Tau, Accepted 0 sample_command]) (sample_sys ([] @ [sample_command]) Receiving [] [])"
    by (rule sample_send [OF sample_opened]) (simp add: chan_capacity_def)
  from run_step [OF run_step [OF run_step [OF this [unfolded append_Nil] sample_steps(1)] sample_steps(2)] sample_steps(3)]
  show ?thesis by simp
qed

section \<open>Properties\<close>

text \<open>
  C13: in every run, what the client of a stream has received encodes, in order and without
  repetition or invention, the first commands accepted for that stream; and when the task waits
  for more with both buffers empty and a listening client, it has received all of them.
\<close>

theorem stream_fifo:
  assumes "stream_run SS tr y" and "k < length (sy_tasks y)"
  shows "(\<exists>D. prefix D (accepted k tr) \<and> list_all2 encodes D (received k tr)) \<and>
    (tk_phase (sy_tasks y ! k) = Receiving \<and> tk_out_open (sy_tasks y ! k) \<and>
     ch_queue (chan_of y k) = [] \<and> tk_out (sy_tasks y ! k) = [] \<longrightarrow>
       list_all2 encodes (accepted k tr) (received k tr))"
proof -
  let ?t = "sy_tasks y ! k"
  have "fifo_ok (accepted k tr) (received k tr) ?t (chan_of y k)"
    using deliveryD [OF delivery_run [OF assms(1)] assms(2) refl] .
  then obtain D where D: "list_all2 encodes D (received k tr @ tk_out ?t)" "prefix D (accepted k tr)"
    and all: "moving (tk_phase ?t) \<and> tk_out_open ?t \<longrightarrow>
      accepted k tr = D @ in_hand (tk_phase ?t) @ ch_queue (chan_of y k)"
    by (auto simp: fifo_ok_def)
  have "list_all2 encodes (take (length (received k tr)) D) (received k tr)"
    using list_all2_takeI [OF D(1), of "length (received k tr)"] by simp
  moreover have "prefix (take (length (received k tr)) D) (accepted k tr)"
    using D(2) by (meson prefix_order.trans take_is_prefix)
  ultimately show ?thesis using D(1) all by auto
qed

theorem stream_fifo_witness:
  "list_all2 encodes [sample_command] [to_pb_command 7 sample_command]"
  using stream_fifo [OF sample_delivered [of "{}"], of 0] by simp



text \<open>
  C14: in every run, a node listed as connected has a task that has not yet detached receiving on
  its channel, so a dispatch to a known, connected node either enqueues or waits for room: it
  never meets a closed channel at that moment.
\<close>

theorem connected_has_receiver:
  assumes run: "stream_run SS tr y" and "is_connected i (sy_state y)"
  shows "(\<exists>c < length (sy_tasks y). map_of (ss_channels (sy_state y)) i = Some c \<and>
      tk_node (sy_tasks y ! c) = i \<and> live (tk_phase (sy_tasks y ! c)) \<and> ch_open (chan_of y c)) \<and>
    (get_node i (sy_state y) \<noteq> None \<longrightarrow>
      fst (dispatch i cmd (sy_state y)) \<in> {Pending, Ready (Inr ())})"
proof -
  have ok: "sys_ok y" using run by (rule sys_ok_run)
  obtain c where c: "map_of (ss_channels (sy_state y)) i = Some c"
    using assms(2) by (auto simp: is_connected_def)
  have t: "channel_ok (sy_tasks y) i c" using sys_okD_channel [OF ok c] .
  then have "pair_ok c (sy_tasks y ! c) (chan_of y c)" and "c < length (ss_chans (sy_state y))"
    using sys_okD(2,3) [OF ok] by (auto simp: channel_ok_def)
  then have o: "ch_open (chan_of y c)" and n: "nth_opt (ss_chans (sy_state y)) c = Some (chan_of y c)"
    using t by (auto simp: pair_ok_def channel_ok_def live_def nth_opt_def chan_of_def)
  have "fst (dispatch i cmd (sy_state y)) \<in> {Pending, Ready (Inr ())}" if "get_node i (sy_state y) \<noteq> None"
    using that by (simp add: dispatch_def c chan_send_def n o)
  then show ?thesis using c t o by (auto simp: channel_ok_def)
qed

theorem connected_has_receiver_witness:
  "fst (dispatch ''n1'' sample_command (sy_state (sample_sys [] Receiving [] []))) \<in> {Pending, Ready (Inr ())}"
  using connected_has_receiver [OF sample_opened [of "{}"], of "''n1''" sample_command]
  by (simp add: is_connected_def) (simp add: get_node_def state1_def)

text \<open>
  C15: a race of the code. Let a node be connected through an idle stream. When its agent opens a
  new stream, the task of the old one finds itself without sender and detaches the node, and with
  it the new stream's channel: the node counts as disconnected, a dispatch is refused although the
  new stream's client listens, and the new task finds itself without sender in turn.
\<close>

theorem reconnect_detaches_new_stream:
  assumes run: "stream_run SS tr y" and c: "map_of (ss_channels (sy_state y)) i = Some k"
    and known: "get_node i (sy_state y) \<noteq> None"
    and idle: "tk_phase (sy_tasks y ! k) = Receiving" "ch_queue (chan_of y k) = []" "sy_sends y = []"
  shows "\<exists>n y'. n = length (sy_tasks y) \<and> rpc_stream_commands \<lparr>nref_node_id = i, nref_cluster_epoch = e\<rparr> y =
        (Inr n, snd (spawn_stream i y)) \<and>
      stream_run SS (tr @ [Tau, Tau, Tau]) y' \<and> tk_node (sy_tasks y' ! n) = i \<and>
      tk_phase (sy_tasks y' ! n) = Receiving \<and> tk_out_open (sy_tasks y' ! n) \<and>
      \<not> is_connected i (sy_state y') \<and> senderless n y' \<and>
      (\<exists>m. dispatch i cmd (sy_state y') = (Ready (Inl (InvalidState m)), sy_state y'))"
proof -
  let ?n = "length (sy_tasks y)" and ?y1 = "snd (spawn_stream i y)"
  let ?t = "sy_tasks y ! k"
  let ?y2 = "set_task k (?t\<lparr>tk_phase := Detaching\<rparr>) ?y1"
  let ?s3 = "detach_command_channel i (sy_state ?y2)"
  let ?y3 = "set_task k (?t\<lparr>tk_phase := Dropping\<rparr>) (?y2\<lparr>sy_state := ?s3\<rparr>)"
  have ok: "sys_ok y" using run by (rule sys_ok_run)
  have k: "k < ?n" and node: "tk_node ?t = i" using sys_okD_channel [OF ok c] by (auto simp: channel_ok_def)
  have tk: "tk_chan ?t = k" using sys_okD(1) [OF ok k refl] .
  have len: "length (ss_chans (sy_state y)) = ?n" using ok by (simp add: sys_ok_def)
  have dist: "distinct (map fst (ss_channels (sy_state y)))" using ok by (simp add: sys_ok_def)
  have y1: "sy_tasks ?y1 = sy_tasks y @ [\<lparr>tk_node = i, tk_chan = ?n, tk_phase = Receiving, tk_out = [],
      tk_out_open = True\<rparr>]" "chan_of ?y1 k = chan_of y k" "sy_sends ?y1 = []"
      "ss_channels (sy_state ?y1) = AList.update i ?n (ss_channels (sy_state y))"
    using k idle(3)
    by (simp_all add: spawn_stream_def attach_command_channel_def Let_def chan_of_def nth_append len)
  have only: "j = i \<and> c' = ?n" if "(j, c') \<in> set (AList.update i ?n (ss_channels (sy_state y)))" "c' \<in> {k, ?n}" for j c'
  proof -
    have "map_of (AList.update i ?n (ss_channels (sy_state y))) j = Some c'"
      using that(1) dist by (simp add: distinct_update map_of_eq_Some_iff [symmetric] del: update_conv')
    then show ?thesis
      using that(2) k node sys_okD_channel [OF ok, of j c']
      by (auto simp: update_conv' channel_ok_def split: if_splits)
  qed
  have "senderless k ?y1"
    using only k by (fastforce simp: senderless_def y1)
  then have s2: "stream_step SS ?y1 Tau ?y2"
    using k idle(1,2) tk by (intro recv_none) (auto simp: y1 nth_append)
  have s3: "stream_step SS ?y2 Tau ?y3"
    using detach_task [of k ?y2 "?t\<lparr>tk_phase := Detaching\<rparr>" SS] k node
    by (simp add: y1 nth_append)
  have "stream_run SS (((tr @ [Tau]) @ [Tau]) @ [Tau]) ?y3"
    by (rule run_step [OF run_step [OF run_step [OF run open_stream] s2] s3])
  moreover have "senderless ?n ?y3"
    by (auto simp: senderless_def y1 detach_command_channel_def AList.delete_eq dest!: only)
  moreover have "\<not> is_connected i (sy_state ?y3)"
    by (simp add: is_connected_def detach_command_channel_def y1)
  moreover have "\<exists>m. dispatch i cmd (sy_state ?y3) = (Ready (Inl (InvalidState m)), sy_state ?y3)"
    using known by (auto simp: dispatch_def get_node_def detach_command_channel_def spawn_stream_def
        attach_command_channel_def Let_def)
  moreover have "rpc_stream_commands \<lparr>nref_node_id = i, nref_cluster_epoch = e\<rparr> y = (Inr ?n, ?y1)"
    using known by (simp add: rpc_stream_commands_def spawn_stream_def attach_command_channel_def len Let_def)
  ultimately show ?thesis
    using k by (intro exI [of _ ?n] exI [of _ ?y3]) (simp add: y1 nth_append)
qed

theorem reconnect_detaches_new_stream_witness:
  "\<exists>tr (y :: document mem_db sys). stream_run {} tr y \<and> \<not> is_connected ''n1'' (sy_state y) \<and>
     tk_phase (sy_tasks y ! 1) = Receiving \<and> tk_node (sy_tasks y ! 1) = ''n1'' \<and> tk_out_open (sy_tasks y ! 1)"
proof -
  have "get_node ''n1'' (sy_state (sample_sys [] Receiving [] [])) \<noteq> None"
    by simp (simp add: get_node_def state1_def)
  from reconnect_detaches_new_stream [OF sample_opened [of "{}"] _ this, of 0 0 sample_command]
  show ?thesis by auto
qed

end
