(* ===== verification/Control_Plane.thy ===== *)
theory Control_Plane
  imports Agent_Client Api Command_Streams
begin

text \<open>
  Agent and daemon together: the calls of an agent's session answered by the model of the daemon.
  The world of a session is the daemon's state and the machine the agent runs on.
\<close>

section \<open>The daemon as a peer\<close>

text \<open>\<open>clk\<close> reads the clock. The transport delivers every message.\<close>

definition daemon_peer :: "'db store \<Rightarrow> ('os \<Rightarrow> u64) \<Rightarrow> ('db sys \<times> 'os) peer" where
  "daemon_peer S clk = \<lparr>
     peer_connect = (\<lambda>_ w. (Inr (), w)),
     peer_register = (\<lambda>p (y, os). let (r, s') = rpc_register_node S (clk os) (clk os) p (sy_state y)
                        in (r, (y\<lparr>sy_state := s'\<rparr>, os))),
     peer_stream = (\<lambda>p (y, os). let (r, y') = rpc_stream_commands p y in (map_sum id (\<lambda>_. ()) r, (y', os))),
     peer_metrics = (\<lambda>p (y, os). let (r, s') = rpc_report_metrics S (clk os) [(clk os, Inr p)] (sy_state y)
                        in (r, (y\<lparr>sy_state := s'\<rparr>, os))),
     peer_heartbeat = (\<lambda>p (y, os). let (r, s') = rpc_heartbeat (clk os) p (sy_state y)
                        in (r, (y\<lparr>sy_state := s'\<rparr>, os))),
     peer_result = (\<lambda>p (y, os). let (r, s') = rpc_report_command_result S p (sy_state y)
                        in (r, (y\<lparr>sy_state := s'\<rparr>, os)))\<rparr>"

section \<open>Lemmas\<close>

lemma peer_result_daemon: "peer_result (daemon_peer S clk) p (y, os) =
    (let (r, s') = rpc_report_command_result S p (sy_state y) in (r, (y\<lparr>sy_state := s'\<rparr>, os)))"
  by (simp add: daemon_peer_def)

lemma command_payload:
  "handle_command P M ex (to_pb_command now (Fs f)) w =
     (let (oc, w1) = run_fs (mc_spawn M) (mc_utf8_lossy M) (mc_show_i32 M) ex (mc_now M) f w;
          (res, w2) = peer_result P (outcome_to_pb oc) w1
      in (and_then (map_err (status_to_err M) res) (\<lambda>_. Inr ()), w2))"
  by (simp add: handle_command_def to_pb_command_def fs_wire.from_to Let_def split: prod.splits)

text \<open>Whatever the command, one outcome is reported, under its id, after at most one spawn.\<close>

lemma run_fs_world: "snd (run_fs spawn lossy sh ex now spec w) = w \<or>
    (\<exists>argv. snd (run_fs spawn lossy sh ex now spec w) = snd (spawn argv w))"
proof (cases "build_argv spec")
  case (Inr argv)
  have "snd (run_fs spawn lossy sh ex now spec w) = (if ex_allow_exec ex then snd (spawn argv w) else w)"
    by (simp add: run_fs_def Inr Let_def split: sum.split prod.split)
  then show ?thesis by auto
qed (simp add: run_fs_def)

lemma handle_command_reports:
  "\<exists>oc w1. co_command_id oc = command_id cmd \<and> co_node_id oc = ex_node_id ex \<and>
     (w1 = w \<or> (\<exists>argv. w1 = snd (mc_spawn M argv w))) \<and>
     handle_command P M ex (to_pb_command now cmd) w =
       (let (res, w2) = peer_result P (outcome_to_pb oc) w1
        in (and_then (map_err (status_to_err M) res) (\<lambda>_. Inr ()), w2))"
proof (cases cmd)
  case (Deploy d)
  show ?thesis
    by (intro exI [of _ "run_deploy ex (mc_now M w) (deploy_spec_from_pb (deploy_spec_to_pb d))"] exI [of _ w])
      (simp add: Deploy handle_command_def to_pb_command_def run_deploy_def outcome_def
        deploy_spec_from_pb_def deploy_spec_to_pb_def Let_def)
next
  case (Fs f)
  obtain oc w1 where r: "run_fs (mc_spawn M) (mc_utf8_lossy M) (mc_show_i32 M) ex (mc_now M) f w = (oc, w1)"
    by fastforce
  then have "co_command_id oc = fs_command_id f" "co_node_id oc = ex_node_id ex"
      "w1 = w \<or> (\<exists>argv. w1 = snd (mc_spawn M argv w))"
    using run_fs_id [of "mc_spawn M" "mc_utf8_lossy M" "mc_show_i32 M" ex "mc_now M" f w]
      run_fs_world [of "mc_spawn M" "mc_utf8_lossy M" "mc_show_i32 M" ex "mc_now M" f w]
    by simp_all
  then show ?thesis
    using r by (intro exI [of _ oc] exI [of _ w1]) (simp add: Fs command_payload)
qed

lemma rpc_result_logged:
  assumes "S \<in> lawful_stores view tview J jf"
    and "rpc_report_command_result S (outcome_to_pb oc) s = (Inr a, s')"
  shows "log_of J view (ss_db s') (co_command_id oc) = Some (Inr oc)"
proof -
  have "record_outcome S oc s = (Inr (), s')"
    using assms(2) by (auto simp: rpc_report_command_result_def outcome_wire.from_to and_then_Inr_iff
      map_err_def Let_def split: prod.splits sum.splits)
  then obtain db' where "st_put_outcome S oc (ss_db s) = (Inr (), db')" and "s' = s\<lparr>ss_db := db'\<rparr>"
    by (auto simp: record_outcome_def split: prod.splits)
  then show ?thesis
    using durable_store.log_ok [OF lawful_durable [OF assms(1)]] by simp
qed

lemma rpc_heartbeat_state:
  "snd (rpc_heartbeat now p s) = snd (heartbeat now (nref_node_id p) s)"
  by (simp add: rpc_heartbeat_def Let_def case_prod_beta)

text \<open>A session that only beats keeps running, and its node stays known with what it registered.\<close>

lemma session_beats:
  assumes "list_all (\<lambda>e. e = HeartbeatTick) es" and "epoch = ss_epoch (sy_state y)"
    and "get_node node (sy_state y) = Some r"
    and "session_loop (daemon_peer S clk) M ex node epoch es (y, os) = (res, (y', os'))"
  shows "res = Running \<and> (\<exists>r'. get_node node (sy_state y') = Some r' \<and> nr_info r' = nr_info r \<and>
    (nr_status r \<noteq> Unreachable \<longrightarrow> nr_status r' = nr_status r))"
  using assms
proof (induction es arbitrary: y r)
  case (Cons e es)
  let ?ref = "\<lparr>nref_node_id = node, nref_cluster_epoch = epoch\<rparr>"
  obtain a s1 where b: "rpc_heartbeat (clk os) ?ref (sy_state y) = (Inr a, s1)"
    by (simp add: rpc_heartbeat_def Let_def case_prod_beta)
  have s1: "s1 = snd (heartbeat (clk os) node (sy_state y))"
    using rpc_heartbeat_state [of "clk os" ?ref "sy_state y"] b by simp
  have "ha_directives a = []"
    using heartbeat_result [of "clk os" node "sy_state y"] b Cons.prems(2,3)
    by (auto simp: rpc_heartbeat_def Let_def split: prod.splits)
  then have loop: "session_loop (daemon_peer S clk) M ex node epoch es (y\<lparr>sy_state := s1\<rparr>, os) = (res, (y', os'))"
    using Cons.prems(1,4) b by (simp add: daemon_peer_def)
  let ?r1 = "r\<lparr>nr_last_seen_unix := clk os,
    nr_status := (if nr_status r = Unreachable then Healthy else nr_status r)\<rparr>"
  have "get_node node s1 = Some ?r1"
    using Cons.prems(3) table_heartbeat [of "clk os" node "sy_state y"]
    by (simp add: s1 get_node_def node_table_def)
  moreover have "epoch = ss_epoch s1" using Cons.prems(2) by (simp add: s1)
  ultimately show ?case
    using Cons.IH [of "y\<lparr>sy_state := s1\<rparr>" ?r1] Cons.prems(1) loop by (auto split: if_splits)
qed simp

section \<open>A sample agent\<close>

definition sample_machine :: "'w machine" where
  "sample_machine = \<lparr>mc_collect = (\<lambda>w. (sample_report f64_zero, w)), mc_spawn = (\<lambda>_ w. (Inl ''ENOENT'', w)),
     mc_utf8_lossy = (\<lambda>s. s), mc_show_i32 = (\<lambda>_. ''-1''), mc_now = (\<lambda>_. 40), mc_show_code = (\<lambda>_. ''error'')\<rparr>"

definition sample_world :: "document mem_db sys \<times> unit" where
  "sample_world = (\<lparr>sy_state = state1, sy_tasks = [], sy_sends = []\<rparr>, ())"

lemma sample_record_outcome: "fst (record_outcome sample_store oc s) = Inr ()"
  by (simp add: record_outcome_def sample_store_def store_defs)

lemma sample_handled:
  "\<exists>y os. handle_command (daemon_peer sample_store (\<lambda>_. 40)) sample_machine (executor_new ''n1'' False)
     (to_pb_command 30 sample_command) sample_world = (Inr (), (y, os))"
proof -
  let ?P = "daemon_peer sample_store (\<lambda>_ :: unit. 40)"
  let ?M = "sample_machine :: (document mem_db sys \<times> unit) machine"
  obtain oc w1 where h: "handle_command ?P ?M (executor_new ''n1'' False) (to_pb_command 30 sample_command) sample_world =
    (let (res, w2) = peer_result ?P (outcome_to_pb oc) w1
     in (and_then (map_err (status_to_err ?M) res) (\<lambda>_. Inr ()), w2))"
    using handle_command_reports [where P = ?P and M = ?M and w = sample_world and cmd = sample_command and now = 30] by blast
  obtain y os where "w1 = (y, os)" by (cases w1)
  then show ?thesis
    using sample_record_outcome [of oc "sy_state y"]
    by (simp add: h peer_result_daemon rpc_report_command_result_def outcome_wire.from_to map_err_def
        and_then_def Let_def case_prod_beta)
qed

text \<open>A request, and its acknowledgement.\<close>

definition sample_fs_request :: fs_request where
  "sample_fs_request = \<lparr>fr_command_id = Some ''c9'', fr_action = Format, fr_device = ''/dev/sdb'',
     fr_mount_point = ''/mnt'', fr_fs_type = ''xfs'', fr_mount_options = [], fr_force = True\<rparr>"

lemma sample_fs_accepted:
  "\<exists>a s'. api_fs_command ''u'' ''n1'' sample_fs_request (sy_state (sample_sys [] Receiving [] [])) =
     (Ready (Inr a), s') \<and> da_command_id a = ''c9''"
proof -
  let ?s = "sy_state (sample_sys [] Receiving [] [])"
  have chans: "ss_chans ?s = [\<lparr>ch_queue = [], ch_open = True\<rparr>]" by (simp add: sample_sys_def)
  have known: "get_node ''n1'' state1 = Some sample_record" by (simp add: get_node_def state1_def)
  have d: "\<exists>s'. dispatch ''n1'' cmd ?s = (Ready (Inr ()), s')" for cmd
    by (simp add: dispatch_def known chan_send_def nth_opt_def chans chan_capacity_def)
  have "\<not> is_blank ''/mnt''" by (rule not_blankI) (simp_all add: ws_len_def byte_at_def)
  then obtain spec where "api_fs_command ''u'' ''n1'' sample_fs_request ?s = dispatch_and_ack ''n1'' ''c9'' (Fs spec) ?s"
    by (simp add: api_fs_command_def sample_fs_request_def is_connected_def Let_def)
  moreover obtain s' where "dispatch ''n1'' (Fs spec) ?s = (Ready (Inr ()), s')" using d by blast
  ultimately show ?thesis by (simp add: dispatch_and_ack_def map_err_def and_then_def)
qed

section \<open>Properties\<close>

text \<open>
  A command that a daemon dispatched and an agent carried out is in the daemon's audit log
  when \<open>handle_command\<close> returns success, under the id it was dispatched with, as the outcome the
  agent's node reported.
\<close>

theorem handled_command_is_logged:
  assumes "S \<in> lawful_stores view tview J jf"
    and "handle_command (daemon_peer S clk) M ex (to_pb_command now cmd) w = (Inr (), (y', os'))"
  shows "\<exists>oc. log_of J view (ss_db (sy_state y')) (command_id cmd) = Some (Inr oc) \<and>
    co_command_id oc = command_id cmd \<and> co_node_id oc = ex_node_id ex"
proof -
  obtain oc y1 os1 where ids: "co_command_id oc = command_id cmd" "co_node_id oc = ex_node_id ex"
    and h: "handle_command (daemon_peer S clk) M ex (to_pb_command now cmd) w =
      (let (res, w2) = peer_result (daemon_peer S clk) (outcome_to_pb oc) (y1, os1)
       in (and_then (map_err (status_to_err M) res) (\<lambda>_. Inr ()), w2))"
    using handle_command_reports [where P = "daemon_peer S clk" and M = M and w = w and cmd = cmd
        and now = now and ex = ex] by (metis surj_pair)
  obtain res s1 where r: "rpc_report_command_result S (outcome_to_pb oc) (sy_state y1) = (res, s1)" by fastforce
  have "\<exists>a. res = Inr a" and "sy_state y' = s1"
    using assms(2)
    by (auto simp: h peer_result_daemon r and_then_Inr_iff map_err_def split: sum.splits)
  then show ?thesis using rpc_result_logged [OF assms(1)] r ids by force
qed

theorem handled_command_is_logged_witness:
  "\<exists>(s :: document mem_db shared_state) oc.
     log_of mem_json mem_view (ss_db s) ''d1'' = Some (Inr oc) \<and> co_node_id oc = ''n1''"
proof -
  obtain y os where h: "handle_command (daemon_peer sample_store (\<lambda>_. 40)) sample_machine
      (executor_new ''n1'' False) (to_pb_command 30 sample_command) sample_world = (Inr (), (y, os))"
    using sample_handled by blast
  from handled_command_is_logged [OF sample_lawful h] show ?thesis
    by (auto simp: sample_command_def executor_new_def)
qed

text \<open>
  C11: what the REST boundary accepts is what the agent executes. The acknowledgement names the node
  and the command's id, the one of the request or a fresh one; under that id one command is put
  on the node's queue, with exactly the action, device, mount point, type, options and force flag of
  the request, a format always forced; and sent over the wire to any agent, it is that command
  that runs and whose outcome is reported.
\<close>

theorem accepted_command_runs_as_requested:
  assumes "api_fs_command uuid node req s = (Ready (Inr a), s')"
  shows "\<exists>c ch spec. map_of (ss_channels s) node = Some c \<and> nth_opt (ss_chans s) c = Some ch \<and>
    s' = s\<lparr>ss_chans := (ss_chans s)[c := ch\<lparr>ch_queue := ch_queue ch @ [Fs spec]\<rparr>]\<rparr> \<and>
    da_node_id a = node \<and> da_command_id a = (case fr_command_id req of Some i \<Rightarrow> i | None \<Rightarrow> ''fs-'' @ uuid) \<and>
    spec = \<lparr>fs_command_id = da_command_id a, fs_act = fr_action req, fs_device = fr_device req,
      fs_mount_point = fr_mount_point req, fs_fs_type = fr_fs_type req,
      fs_mount_options = fr_mount_options req, fs_force = fr_force req\<rparr> \<and>
    (fr_action req = Format \<longrightarrow> fs_force spec) \<and>
    (\<forall>P M ex now w. handle_command P M ex (to_pb_command now (Fs spec)) w =
       (let (oc, w1) = run_fs (mc_spawn M) (mc_utf8_lossy M) (mc_show_i32 M) ex (mc_now M) spec w;
            (res, w2) = peer_result P (outcome_to_pb oc) w1
        in (and_then (map_err (status_to_err M) res) (\<lambda>_. Inr ()), w2)))"
proof -
  from fs_command_enqueues [OF assms] obtain c ch spec where
    "map_of (ss_channels s) node = Some c" "nth_opt (ss_chans s) c = Some ch"
    "s' = s\<lparr>ss_chans := (ss_chans s)[c := ch\<lparr>ch_queue := ch_queue ch @ [Fs spec]\<rparr>]\<rparr>"
    "da_node_id a = node" "da_command_id a = (case fr_command_id req of Some i \<Rightarrow> i | None \<Rightarrow> ''fs-'' @ uuid)"
    "spec = \<lparr>fs_command_id = da_command_id a, fs_act = fr_action req, fs_device = fr_device req,
      fs_mount_point = fr_mount_point req, fs_fs_type = fr_fs_type req,
      fs_mount_options = fr_mount_options req, fs_force = fr_force req\<rparr>"
    "fr_action req = Format \<longrightarrow> fr_force req" by blast
  then show ?thesis
    by (intro exI [of _ c] exI [of _ ch] exI [of _ spec]) (simp add: command_payload)
qed

theorem accepted_command_runs_as_requested_witness:
  "\<exists>a s'. api_fs_command ''u'' ''n1'' sample_fs_request (sy_state (sample_sys [] Receiving [] [])) =
       (Ready (Inr a), s') \<and> da_command_id a = ''c9'' \<and>
     ss_chans s' = [\<lparr>ch_queue = [Fs \<lparr>fs_command_id = ''c9'', fs_act = Format, fs_device = ''/dev/sdb'',
       fs_mount_point = ''/mnt'', fs_fs_type = ''xfs'', fs_mount_options = [], fs_force = True\<rparr>], ch_open = True\<rparr>]"
proof -
  let ?s = "sy_state (sample_sys [] Receiving [] [])"
  have chans: "ss_chans ?s = [\<lparr>ch_queue = [], ch_open = True\<rparr>]" by (simp add: sample_sys_def)
  obtain a s' where r: "api_fs_command ''u'' ''n1'' sample_fs_request ?s = (Ready (Inr a), s')"
    using sample_fs_accepted by blast
  from accepted_command_runs_as_requested [OF r] obtain c ch spec where
    "map_of (ss_channels ?s) ''n1'' = Some c" "nth_opt (ss_chans ?s) c = Some ch"
    "s' = ?s\<lparr>ss_chans := (ss_chans ?s)[c := ch\<lparr>ch_queue := ch_queue ch @ [Fs spec]\<rparr>]\<rparr>"
    "da_command_id a = ''c9''"
    "spec = \<lparr>fs_command_id = ''c9'', fs_act = Format, fs_device = ''/dev/sdb'', fs_mount_point = ''/mnt'',
       fs_fs_type = ''xfs'', fs_mount_options = [], fs_force = True\<rparr>" by (auto simp: sample_fs_request_def)
  then show ?thesis using r by (auto simp: chans nth_opt_def)
qed

text \<open>
  An agent that registers, opens its stream and then only beats stays in its session: the
  daemon never asks it to register again, and the node stays known as it registered, reachable.
\<close>

theorem beating_session_stays_up:
  assumes "node_info_ok info" and "list_all (\<lambda>e. e = HeartbeatTick) es"
    and "fst (peer_register (daemon_peer S clk) (node_info_to_pb info) (y, os)) = Inr a"
    and "metrics_interval_of cfg a \<noteq> 0" and "ac_heartbeat_interval cfg \<noteq> 0"
    and "session (daemon_peer S clk) M cfg info ex es (y, os) = (res, (y', os'))"
  shows "res = Running \<and> (\<exists>r. get_node (ni_node_id info) (sy_state y') = Some r \<and>
    nr_info r = info \<and> nr_status r = Registered)"
proof -
  have info: "node_info_from_pb (node_info_to_pb info) = info" using assms(1) by (rule node_info_wire.from_to)
  obtain s1 where reg: "rpc_register_node S (clk os) (clk os) (node_info_to_pb info) (sy_state y) = (Inr a, s1)"
    using assms(3) by (cases "rpc_register_node S (clk os) (clk os) (node_info_to_pb info) (sy_state y)")
      (simp add: daemon_peer_def)
  note eff = register_fields [OF reg, unfolded info]
  let ?y1 = "y\<lparr>sy_state := s1\<rparr>" and ?ref = "\<lparr>nref_node_id = ni_node_id info, nref_cluster_epoch = ra_cluster_epoch a\<rparr>"
  let ?y2 = "snd (spawn_stream (ni_node_id info) ?y1)"
  have y2: "ss_epoch (sy_state ?y2) = ss_epoch s1"
      "get_node (ni_node_id info) (sy_state ?y2) = get_node (ni_node_id info) s1"
    by (simp_all add: spawn_stream_def attach_command_channel_def get_node_def Let_def)
  have "get_node (ni_node_id info) s1 \<noteq> None" using eff(2) by auto
  then obtain c where str: "rpc_stream_commands ?ref ?y1 = (Inr c, ?y2)"
    by (simp add: rpc_stream_commands_def Let_def case_prod_beta)
  have "session_loop (daemon_peer S clk) M ex (ni_node_id info) (ra_cluster_epoch a) es (?y2, os) = (res, (y', os'))"
    using assms(4-6) reg str by (simp add: session_def daemon_peer_def Let_def)
  from session_beats [OF assms(2) _ _ this] eff y2 show ?thesis by fastforce
qed

theorem beating_session_stays_up_witness:
  "fst (session (daemon_peer sample_store (\<lambda>_. 40)) sample_machine default_agent_config sample_info
     (executor_new ''n1'' False) [HeartbeatTick, HeartbeatTick] sample_world) = Running"
proof -
  let ?P = "daemon_peer sample_store (\<lambda>_ :: unit. 40)"
  obtain y os where w: "sample_world = (y, os)" by (cases sample_world)
  have info: "node_info_ok sample_info" by (simp add: node_info_ok_def sample_info_def btree_ok_def)
  have "node_info_from_pb (node_info_to_pb sample_info) = sample_info" by (rule node_info_wire.from_to [OF info])
  then obtain a where a: "fst (peer_register ?P (node_info_to_pb sample_info) (y, os)) = Inr a"
    and "ra_metrics_interval_secs a = ss_metrics_interval_secs (sy_state y)"
    by (simp add: daemon_peer_def rpc_register_node_def register_node_def sample_persist register_mem_def
        map_err_def and_then_def Let_def case_prod_beta)
  moreover have "ss_metrics_interval_secs (sy_state y) = 10"
    using w by (auto simp: sample_world_def state1_def state0_def)
  ultimately have "ra_metrics_interval_secs a = 10" by simp
  then have m: "metrics_interval_of default_agent_config a \<noteq> 0"
    by (simp add: metrics_interval_of_def from_secs_def word_less_nat_alt)
  have h: "ac_heartbeat_interval default_agent_config \<noteq> 0"
    by (simp add: default_agent_config_def from_secs_def)
  obtain res y' os' where s: "session ?P sample_machine default_agent_config sample_info
      (executor_new ''n1'' False) [HeartbeatTick, HeartbeatTick] (y, os) = (res, (y', os'))"
    by (metis prod_cases3)
  have "list_all (\<lambda>e. e = HeartbeatTick) [HeartbeatTick, HeartbeatTick]" by simp
  from beating_session_stays_up [OF info this a m h s] have "res = Running" by blast
  then show ?thesis unfolding w s by simp
qed

end
