(* ===== verification/Sessions.thy ===== *)
theory Sessions
  imports Control_Plane
begin

text \<open>
  Sessions of an agent on a daemon that serves others at the same time. The contract an unbroken
  session needs of its peer is a locale, discharged for \<open>daemon_peer\<close> on any lawful store whose
  writes succeed. A session is then interleaved with any steps of the daemon, deregistrations and
  failing writes included, from the acceptance of a command to its outcome in the audit log.
\<close>

section \<open>What a session needs of its peer\<close>

text \<open>A command as the daemon issues it, and the events a served session handles.\<close>

definition issued :: "pb_command \<Rightarrow> bool" where
  "issued p \<longleftrightarrow> (\<exists>now cmd. p = to_pb_command now cmd)"

fun served_event :: "event \<Rightarrow> bool" where
  "served_event (Message (Inr (Some p))) \<longleftrightarrow> issued p"
| "served_event (Message (Inr None)) \<longleftrightarrow> False"
| "served_event (Message (Inl st)) \<longleftrightarrow> False"
| "served_event MetricsTick \<longleftrightarrow> True"
| "served_event HeartbeatTick \<longleftrightarrow> True"

lemma to_pb_command_id [simp]: "pb_command_id (to_pb_command now cmd) = command_id cmd"
  by (cases cmd) (simp_all add: to_pb_command_def)

text \<open>
  \<open>up w\<close> says that the peer serves the session in the world \<open>w\<close>: calls of the session succeed, do
  not ask it to register again and keep it up.
\<close>

locale keeping_peer =
  fixes P :: "'w peer" and M :: "'w machine" and node :: node_id and epoch :: u64
    and up :: "'w \<Rightarrow> bool"
  assumes beat: "up w \<Longrightarrow> \<exists>a w'. peer_heartbeat P \<lparr>nref_node_id = node, nref_cluster_epoch = epoch\<rparr> w =
      (Inr a, w') \<and> ''reregister'' \<notin> set (ha_directives a) \<and> up w'"
    and report: "up w \<Longrightarrow> \<exists>a w'. peer_metrics P (report_to_pb (fst (mc_collect M w))) (snd (mc_collect M w)) =
      (Inr a, w') \<and> up w'"
    and result: "up w \<Longrightarrow> \<exists>a w'. peer_result P (outcome_to_pb oc) w = (Inr a, w') \<and> up w'"
    and spawn: "up w \<Longrightarrow> up (snd (mc_spawn M argv w))"
begin

lemma command_handled:
  assumes "up w" and "issued p"
  shows "\<exists>w'. handle_command P M ex p w = (Inr (), w') \<and> up w'"
proof -
  obtain now cmd where p: "p = to_pb_command now cmd" using assms(2) by (auto simp: issued_def)
  obtain oc w1 where w1: "w1 = w \<or> (\<exists>argv. w1 = snd (mc_spawn M argv w))"
    and h: "handle_command P M ex p w = (let (res, w2) = peer_result P (outcome_to_pb oc) w1
        in (and_then (map_err (status_to_err M) res) (\<lambda>_. Inr ()), w2))"
    using handle_command_reports [where P = P and M = M and w = w and cmd = cmd and now = now and ex = ex] unfolding p by blast
  have "up w1" using w1 assms(1) spawn by blast
  from result [OF this, of oc] show ?thesis by (auto simp: h map_err_def and_then_def)
qed

lemma event_handled:
  assumes "up w" and "served_event e"
  shows "\<exists>w'. session_loop P M ex node epoch (e # es) w = session_loop P M ex node epoch es w' \<and> up w'"
  using assms(2)
proof (cases e rule: served_event.cases)
  case (1 p)
  then show ?thesis using command_handled [OF assms(1), of p ex] assms(2) by auto
next
  case 4
  then show ?thesis using report [OF assms(1)] by (auto simp: Let_def case_prod_beta)
next
  case 5
  then show ?thesis using beat [OF assms(1)] by (auto simp: list_ex_iff)
qed simp_all

lemma loop_runs:
  "up w \<Longrightarrow> list_all served_event es \<Longrightarrow> \<exists>w'. session_loop P M ex node epoch es w = (Running, w') \<and> up w'"
proof (induction es arbitrary: w)
  case (Cons e es)
  from event_handled [OF Cons.prems(1), of e ex es] Cons.prems(2) obtain w' where
    "session_loop P M ex node epoch (e # es) w = session_loop P M ex node epoch es w'" "up w'" by auto
  with Cons.IH [of w'] Cons.prems(2) show ?case by auto
qed simp

end

text \<open>A peer that also keeps a log: the ids whose outcome it has.\<close>

locale logging_peer = keeping_peer P M node epoch up
  for P :: "'w peer" and M :: "'w machine" and node :: node_id and epoch :: u64 and up :: "'w \<Rightarrow> bool" +
  fixes logged :: "'w \<Rightarrow> string set"
  assumes beat_log: "up w \<Longrightarrow>
      logged w \<subseteq> logged (snd (peer_heartbeat P \<lparr>nref_node_id = node, nref_cluster_epoch = epoch\<rparr> w))"
    and report_log: "up w \<Longrightarrow> logged w \<subseteq>
      logged (snd (peer_metrics P (report_to_pb (fst (mc_collect M w))) (snd (mc_collect M w))))"
    and result_log: "up w \<Longrightarrow>
      insert (co_command_id oc) (logged w) \<subseteq> logged (snd (peer_result P (outcome_to_pb oc) w))"
    and spawn_log: "up w \<Longrightarrow> logged w \<subseteq> logged (snd (mc_spawn M argv w))"
begin

text \<open>Being up with a set of ids already logged is an instance of being up.\<close>

lemma keeping_logged: "keeping_peer P M node epoch (\<lambda>w. up w \<and> A \<subseteq> logged w)"
proof
  fix w oc argv
  assume w: "up w \<and> A \<subseteq> logged w"
  show "\<exists>a w'. peer_heartbeat P \<lparr>nref_node_id = node, nref_cluster_epoch = epoch\<rparr> w = (Inr a, w') \<and>
      ''reregister'' \<notin> set (ha_directives a) \<and> up w' \<and> A \<subseteq> logged w'"
    using w beat [of w] beat_log [of w] by auto
  show "\<exists>a w'. peer_metrics P (report_to_pb (fst (mc_collect M w))) (snd (mc_collect M w)) = (Inr a, w') \<and>
      up w' \<and> A \<subseteq> logged w'"
    using w report [of w] report_log [of w] by auto
  show "\<exists>a w'. peer_result P (outcome_to_pb oc) w = (Inr a, w') \<and> up w' \<and> A \<subseteq> logged w'"
    using w result [of w oc] result_log [of w oc] by auto
  show "up (snd (mc_spawn M argv w)) \<and> A \<subseteq> logged (snd (mc_spawn M argv w))"
    using w spawn [of w argv] spawn_log [of w argv] by auto
qed

lemma command_logged:
  assumes "up w" and "issued p"
  shows "\<exists>w'. handle_command P M ex p w = (Inr (), w') \<and> up w' \<and>
    insert (pb_command_id p) (logged w) \<subseteq> logged w'"
proof -
  obtain now cmd where p: "p = to_pb_command now cmd" using assms(2) by (auto simp: issued_def)
  obtain oc w1 where w1: "w1 = w \<or> (\<exists>argv. w1 = snd (mc_spawn M argv w))"
    and oc: "co_command_id oc = pb_command_id p"
    and h: "handle_command P M ex p w = (let (res, w2) = peer_result P (outcome_to_pb oc) w1
        in (and_then (map_err (status_to_err M) res) (\<lambda>_. Inr ()), w2))"
    using handle_command_reports [where P = P and M = M and w = w and cmd = cmd and now = now and ex = ex] unfolding p by auto
  have "up w1" and "logged w \<subseteq> logged w1" using w1 assms(1) spawn [of w] spawn_log [of w] by blast+
  with result [of w1 oc] result_log [of w1 oc] show ?thesis
    by (auto simp: h oc map_err_def and_then_def)
qed

lemma event_logged:
  assumes "up w" and "served_event e"
  shows "\<exists>w'. session_loop P M ex node epoch (e # es) w = session_loop P M ex node epoch es w' \<and> up w' \<and>
    logged w \<subseteq> logged w' \<and> (\<forall>p. e = Message (Inr (Some p)) \<longrightarrow> pb_command_id p \<in> logged w')"
proof (cases "\<exists>p. e = Message (Inr (Some p))")
  case True
  then obtain p where p: "e = Message (Inr (Some p))" by blast
  with command_logged [OF assms(1), of p ex] assms(2) show ?thesis by auto
next
  case False
  with keeping_peer.event_handled [OF keeping_logged, of w "logged w" e ex es] assms show ?thesis by auto
qed

lemma loop_logs:
  "up w \<Longrightarrow> list_all served_event es \<Longrightarrow>
     \<exists>w'. session_loop P M ex node epoch es w = (Running, w') \<and> up w' \<and> logged w \<subseteq> logged w' \<and>
       (\<forall>p. Message (Inr (Some p)) \<in> set es \<longrightarrow> pb_command_id p \<in> logged w')"
proof (induction es arbitrary: w)
  case (Cons e es)
  from event_logged [OF Cons.prems(1), of e ex es] Cons.prems(2) obtain w' where w':
    "session_loop P M ex node epoch (e # es) w = session_loop P M ex node epoch es w'" "up w'"
    "logged w \<subseteq> logged w'" "\<forall>p. e = Message (Inr (Some p)) \<longrightarrow> pb_command_id p \<in> logged w'" by auto
  with Cons.IH [of w'] Cons.prems(2) show ?case by fastforce
qed simp

end

section \<open>The daemon as such a peer\<close>

text \<open>
  A condition of some theorems, which redb does not promise: writes to the store succeed. And what
  the parts outside the model keep: the agent's own machine (the collector, process spawning)
  does not touch the daemon; samples carry the agent's node id.
\<close>

definition reliable_store :: "'db store \<Rightarrow> bool" where
  "reliable_store S \<longleftrightarrow> (\<forall>r db. fst (st_put_node S r db) = Inr ()) \<and>
     (\<forall>oc db. fst (st_put_outcome S oc db) = Inr ())"

definition local_machine :: "node_id \<Rightarrow> ('y \<times> 'os) machine \<Rightarrow> bool" where
  "local_machine node M \<longleftrightarrow>
     (\<forall>y os. mr_node_id (fst (mc_collect M (y, os))) = node \<and> fst (snd (mc_collect M (y, os))) = y) \<and>
     (\<forall>argv y os. fst (snd (mc_spawn M argv (y, os))) = y)"

text \<open>The description a daemon has of a node, the streams of a daemon, and the ids its log has.\<close>

definition info_of :: "node_id \<Rightarrow> 'db sys \<Rightarrow> node_info option" where
  "info_of node y = map_option nr_info (get_node node (sy_state y))"

definition reachable_at :: "node_id \<Rightarrow> 'db sys \<Rightarrow> bool" where
  "reachable_at node y \<longleftrightarrow> map_option nr_status (get_node node (sy_state y)) \<noteq> Some Unreachable"

definition streams_of :: "'db sys \<Rightarrow> stream_task list \<times> mchan list \<times> (node_id, nat) hash_map \<times> (nat \<times> node_command) list" where
  "streams_of y = (sy_tasks y, ss_chans (sy_state y), ss_channels (sy_state y), sy_sends y)"

definition logged_ids ::
  "'b json \<Rightarrow> ('db \<Rightarrow> table \<Rightarrow> string \<Rightarrow> 'b option) \<Rightarrow> 'db sys \<Rightarrow> string set" where
  "logged_ids J view y = {i. \<exists>oc. log_of J view (ss_db (sy_state y)) i = Some (Inr oc) \<and> co_command_id oc = i}"

text \<open>
  The daemon serves the session of the node \<open>info\<close> with epoch \<open>e\<close>, its streams being \<open>F\<close>; with \<open>b\<close>,
  the node is not \<open>Unreachable\<close>.
\<close>

definition serving :: "bool \<Rightarrow> node_info \<Rightarrow> u64 \<Rightarrow>
    stream_task list \<times> mchan list \<times> (node_id, nat) hash_map \<times> (nat \<times> node_command) list \<Rightarrow> 'db sys \<Rightarrow> bool" where
  "serving b info e F y \<longleftrightarrow> ss_epoch (sy_state y) = e \<and> info_of (ni_node_id info) y = Some info \<and>
     (b \<longrightarrow> reachable_at (ni_node_id info) y) \<and> streams_of y = F"

lemmas serving_defs = serving_def info_of_def reachable_at_def streams_of_def

text \<open>The calls of a session on the parts of the daemon the contract is about.\<close>

lemma get_heartbeat: "get_node j (snd (heartbeat now i s)) = (if j = i then map_option
    (\<lambda>r. r\<lparr>nr_last_seen_unix := now, nr_status := (if nr_status r = Unreachable then Healthy else nr_status r)\<rparr>)
    (get_node j s) else get_node j s)"
  using table_heartbeat [of now i s] by (simp add: get_node_def node_table_def split: option.split)

lemma get_ingest: "get_node j (snd (ingest_mem now m s)) = (if j = mr_node_id m then map_option
    (\<lambda>r. r\<lparr>nr_status := classify m (ss_thresholds s), nr_last_seen_unix := now, nr_latest_metrics := Some m\<rparr>)
    (get_node j s) else get_node j s)"
  using table_ingest [of now m s] by (simp add: get_node_def node_table_def split: option.split)

lemma ingest_result: "fst (ingest_mem now m s) = (case get_node (mr_node_id m) s of
    None \<Rightarrow> Inl (unknown_node (mr_node_id m))
  | Some r \<Rightarrow> Inr (r\<lparr>nr_status := classify m (ss_thresholds s), nr_last_seen_unix := now, nr_latest_metrics := Some m\<rparr>))"
  by (simp add: ingest_mem_def get_node_def Let_def split: option.split)

lemma session_frame [simp]:
  "ss_chans (snd (heartbeat now i s)) = ss_chans s" "ss_channels (snd (heartbeat now i s)) = ss_channels s"
  "ss_db (snd (heartbeat now i s)) = ss_db s"
  "ss_chans (snd (ingest_mem now m s)) = ss_chans s" "ss_channels (snd (ingest_mem now m s)) = ss_channels s"
  "ss_db (snd (ingest_mem now m s)) = ss_db s" "ss_epoch (snd (ingest_mem now m s)) = ss_epoch s"
  "ss_chans (snd (persist S r s)) = ss_chans s" "ss_channels (snd (persist S r s)) = ss_channels s"
  "ss_epoch (snd (persist S r s)) = ss_epoch s" "get_node j (snd (persist S r s)) = get_node j s"
  "ss_chans (snd (record_outcome S oc s)) = ss_chans s" "ss_channels (snd (record_outcome S oc s)) = ss_channels s"
  "ss_epoch (snd (record_outcome S oc s)) = ss_epoch s" "get_node j (snd (record_outcome S oc s)) = get_node j s"
  by (simp_all add: heartbeat_def ingest_mem_def persist_def record_outcome_def get_node_def Let_def
      case_prod_beta split: option.split)

text \<open>Whatever their result, the writes of the daemon only add to its log.\<close>

lemma log_persist:
  assumes "S \<in> lawful_stores view tview J jf"
  shows "log_of J view (ss_db (snd (persist S r s))) = log_of J view (ss_db s)"
proof -
  obtain res db' where p: "st_put_node S r (ss_db s) = (res, db')" by fastforce
  then show ?thesis
    using durable_store.put_ok [OF lawful_durable [OF assms], of r "ss_db s" db']
      durable_store.put_err [OF lawful_durable [OF assms], of r "ss_db s" _ db']
    by (cases res) (auto simp: persist_def)
qed

lemma log_unpersist:
  assumes "S \<in> lawful_stores view tview J jf"
  shows "log_of J view (ss_db (snd (unpersist S i s))) = log_of J view (ss_db s)"
proof -
  obtain res db' where p: "st_delete_node S i (ss_db s) = (res, db')" by fastforce
  then show ?thesis
    using durable_store.del_ok [OF lawful_durable [OF assms], of i "ss_db s" _ db']
      durable_store.del_err [OF lawful_durable [OF assms], of i "ss_db s" _ db']
    by (cases res) (auto simp: unpersist_def)
qed

lemma log_record:
  assumes "S \<in> lawful_stores view tview J jf"
  shows "log_of J view (ss_db (snd (record_outcome S oc s))) =
    (if fst (record_outcome S oc s) = Inr () then (log_of J view (ss_db s))(co_command_id oc \<mapsto> Inr oc)
     else log_of J view (ss_db s))"
proof -
  obtain res db' where p: "st_put_outcome S oc (ss_db s) = (res, db')" by fastforce
  then show ?thesis
    using durable_store.log_ok [OF lawful_durable [OF assms], of oc "ss_db s" db']
      durable_store.log_err [OF lawful_durable [OF assms], of oc "ss_db s" _ db']
    by (cases res) (auto simp: record_outcome_def)
qed

text \<open>The three calls of a served session.\<close>

lemma served_beat:
  assumes "serving b info e F y"
  shows "\<exists>a y'. peer_heartbeat (daemon_peer S clk) \<lparr>nref_node_id = ni_node_id info, nref_cluster_epoch = e\<rparr> (y, os) =
    (Inr a, (y', os)) \<and> ha_directives a = [] \<and> serving b info e F y' \<and>
    ss_db (sy_state y') = ss_db (sy_state y)"
proof -
  let ?i = "ni_node_id info"
  obtain r where r: "get_node ?i (sy_state y) = Some r" using assms by (auto simp: serving_defs)
  have "serving b info e F (y\<lparr>sy_state := snd (heartbeat (clk os) ?i (sy_state y))\<rparr>)"
    using assms by (auto simp: serving_defs get_heartbeat r)
  moreover have "e = ss_epoch (sy_state y)" using assms by (simp add: serving_def)
  ultimately show ?thesis
    using heartbeat_result [of "clk os" ?i "sy_state y"] r
    by (simp add: daemon_peer_def rpc_heartbeat_def Let_def case_prod_beta)
qed

lemma served_report:
  assumes "serving b info e F y" and "reliable_store S" and "mr_node_id m = ni_node_id info"
  shows "\<exists>a r s. peer_metrics (daemon_peer S clk) (report_to_pb m) (y, os) =
    (Inr a, (y\<lparr>sy_state := snd (persist S r s)\<rparr>, os)) \<and> serving b info e F (y\<lparr>sy_state := snd (persist S r s)\<rparr>) \<and>
    ss_db s = ss_db (sy_state y)"
proof -
  let ?i = "ni_node_id info" and ?s1 = "snd (ingest_mem (clk os) m (sy_state y))"
  obtain r0 where r0: "get_node ?i (sy_state y) = Some r0" using assms by (auto simp: serving_defs)
  let ?r = "r0\<lparr>nr_status := classify m (ss_thresholds (sy_state y)), nr_last_seen_unix := clk os,
    nr_latest_metrics := Some m\<rparr>"
  have "fst (ingest_mem (clk os) m (sy_state y)) = Inr ?r"
    using assms(3) by (simp add: ingest_result r0)
  then have i: "ingest_metrics S (clk os) m (sy_state y) = persist S ?r ?s1"
    by (cases "ingest_mem (clk os) m (sy_state y)") (simp add: ingest_metrics_def)
  have "fst (persist S ?r ?s1) = Inr ()"
    using assms(2) by (simp add: reliable_store_def persist_def Let_def case_prod_beta)
  then obtain a where "peer_metrics (daemon_peer S clk) (report_to_pb m) (y, os) =
      (Inr a, (y\<lparr>sy_state := snd (persist S ?r ?s1)\<rparr>, os))"
    by (simp add: daemon_peer_def rpc_report_metrics_def i report_wire.from_to and_then_def Let_def
        case_prod_beta)
  moreover have "serving b info e F (y\<lparr>sy_state := snd (persist S ?r ?s1)\<rparr>)"
    using assms(1) classify_range [of m "ss_thresholds (sy_state y)"]
    by (auto simp: serving_defs get_ingest r0 assms(3))
  ultimately show ?thesis by (intro exI [of _ a] exI [of _ ?r] exI [of _ ?s1]) simp
qed

lemma served_result:
  assumes "serving b info e F y" and "reliable_store S"
  shows "\<exists>a. peer_result (daemon_peer S clk) (outcome_to_pb oc) (y, os) =
    (Inr a, (y\<lparr>sy_state := snd (record_outcome S oc (sy_state y))\<rparr>, os)) \<and>
    serving b info e F (y\<lparr>sy_state := snd (record_outcome S oc (sy_state y))\<rparr>) \<and>
    fst (record_outcome S oc (sy_state y)) = Inr ()"
proof -
  have "fst (record_outcome S oc (sy_state y)) = Inr ()"
    using assms(2) by (simp add: reliable_store_def record_outcome_def Let_def case_prod_beta)
  moreover have "serving b info e F (y\<lparr>sy_state := snd (record_outcome S oc (sy_state y))\<rparr>)"
    using assms(1) by (simp add: serving_defs)
  ultimately show ?thesis
    by (simp add: peer_result_daemon rpc_report_command_result_def outcome_wire.from_to map_err_def
        and_then_def Let_def case_prod_beta)
qed

text \<open>The daemon and a machine of its own for the agent meet the contract.\<close>

locale served_agent =
  fixes S :: "'db store" and clk :: "'os \<Rightarrow> u64" and M :: "('db sys \<times> 'os) machine"
    and view :: "'db \<Rightarrow> table \<Rightarrow> string \<Rightarrow> 'b option" and tview :: "'tx \<Rightarrow> table \<Rightarrow> string \<Rightarrow> 'b option"
    and J :: "'b json" and jf :: "f64 \<Rightarrow> f64" and b :: bool and info :: node_info and e :: u64
    and F :: "stream_task list \<times> mchan list \<times> (node_id, nat) hash_map \<times> (nat \<times> node_command) list"
  assumes lawful: "S \<in> lawful_stores view tview J jf"
    and reliable: "reliable_store S"
    and own_machine: "local_machine (ni_node_id info) M"

sublocale served_agent \<subseteq> logging_peer "daemon_peer S clk" M "ni_node_id info" e
  "\<lambda>w. serving b info e F (fst w)" "\<lambda>w. logged_ids J view (fst w)"
proof unfold_locales
  let ?P = "daemon_peer S clk" and ?ref = "\<lparr>nref_node_id = ni_node_id info, nref_cluster_epoch = e\<rparr>"
  let ?up = "serving b info e F" and ?log = "logged_ids J view"
  fix w :: "'db sys \<times> 'os" and oc argv
  obtain y os where w: "w = (y, os)" by (cases w)
  assume "?up (fst w)"
  then have up: "?up y" by (simp add: w)
  show "\<exists>a w'. peer_heartbeat ?P ?ref w = (Inr a, w') \<and> ''reregister'' \<notin> set (ha_directives a) \<and> ?up (fst w')"
    using served_beat [OF up, of S clk os] by (auto simp: w)
  show "?log (fst w) \<subseteq> ?log (fst (snd (peer_heartbeat ?P ?ref w)))"
    using served_beat [OF up, of S clk os] by (auto simp: w logged_ids_def)
  obtain m y' os' where m: "mc_collect M w = (m, (y', os'))" by (metis prod_cases3)
  then have m_id: "mr_node_id m = ni_node_id info" and "y' = y"
    using own_machine by (simp_all add: local_machine_def w) (metis fst_conv snd_conv)+
  then have c: "mc_collect M w = (m, (y, os'))" by (simp add: m)
  note r = served_report [OF up reliable m_id, of clk os']
  show "\<exists>a w'. peer_metrics ?P (report_to_pb (fst (mc_collect M w))) (snd (mc_collect M w)) = (Inr a, w') \<and> ?up (fst w')"
    using r by (auto simp: c)
  show "?log (fst w) \<subseteq> ?log (fst (snd (peer_metrics ?P (report_to_pb (fst (mc_collect M w))) (snd (mc_collect M w)))))"
    using r log_persist [OF lawful] by (auto simp: c [unfolded w] w logged_ids_def)
  note o = served_result [OF up reliable, of clk oc os]
  show "\<exists>a w'. peer_result ?P (outcome_to_pb oc) w = (Inr a, w') \<and> ?up (fst w')"
    using o by (auto simp: w)
  show "insert (co_command_id oc) (?log (fst w)) \<subseteq> ?log (fst (snd (peer_result ?P (outcome_to_pb oc) w)))"
    using o log_record [OF lawful, of oc "sy_state y"] by (auto simp: w logged_ids_def)
  have sp: "fst (snd (mc_spawn M argv w)) = y"
    using own_machine by (simp add: local_machine_def w)
  show "?up (fst (snd (mc_spawn M argv w)))" by (simp add: sp up)
  show "?log (fst w) \<subseteq> ?log (fst (snd (mc_spawn M argv w)))" unfolding sp by (simp add: w)
qed

lemma sample_reliable: "reliable_store sample_store"
  by (simp add: reliable_store_def sample_store_def store_defs)

lemma sample_local: "local_machine (ni_node_id sample_info) sample_machine"
  by (simp add: local_machine_def sample_machine_def sample_report_def)

interpretation sample_agent: served_agent sample_store "\<lambda>_ :: unit. 40" sample_machine mem_view mem_view
  mem_json "\<lambda>x. x" b sample_info e F for b e F
  by unfold_locales (rule sample_lawful sample_reliable sample_local)+

context served_agent
begin

lemma loop_served:
  assumes "serving b info e F y" and "list_all served_event es"
  obtains y' os' where
    "session_loop (daemon_peer S clk) M ex (ni_node_id info) e es (y, os) = (Running, (y', os'))"
    and "serving b info e F y'"
    and "\<And>p. Message (Inr (Some p)) \<in> set es \<Longrightarrow> pb_command_id p \<in> logged_ids J view y'"
  using loop_logs [of "(y, os)" es ex] assms by auto

end

section \<open>The daemon moves meanwhile\<close>

text \<open>
  Where a session is from its opened stream on: in its loop, with how that went, or busy with a
  command it has taken off the stream.
\<close>

datatype joint_phase = Loop session_end | Handling pb_command

fun ongoing :: "joint_phase \<Rightarrow> bool" where
  "ongoing (Loop r) \<longleftrightarrow> r = Running"
| "ongoing (Handling p) \<longleftrightarrow> True"

text \<open>
  The steps of a session on the stream \<open>k\<close> beside those of a daemon that \<open>mv\<close> admits: a move of
  the daemon, the receipts of the session apart; a change of the agent's machine; a tick of the
  session; a command received from the stream, which is a step of its own, and later handled; the
  end of the stream. A call to the daemon runs without interruption.
\<close>

inductive joint_step for mv SS S clk M ex node e k where
  daemon_moves: "mv y l y' \<Longrightarrow> (\<And>p. l \<noteq> Received k p) \<Longrightarrow> ongoing ph \<Longrightarrow>
    joint_step mv SS S clk M ex node e k ph (y, os) l ph (y', os)"
| machine_moves: "ongoing ph \<Longrightarrow> joint_step mv SS S clk M ex node e k ph (y, os) Tau ph (y, os')"
| session_ticks: "ev = MetricsTick \<or> ev = HeartbeatTick \<Longrightarrow>
    session_loop (daemon_peer S clk) M ex node e [ev] w = (r, w') \<Longrightarrow>
    joint_step mv SS S clk M ex node e k (Loop Running) w Tau (Loop r) w'"
| session_receives: "stream_step SS y (Received k p) y1 \<Longrightarrow>
    joint_step mv SS S clk M ex node e k (Loop Running) (y, os) (Received k p) (Handling p) (y1, os)"
| session_handles: "session_loop (daemon_peer S clk) M ex node e [Message (Inr (Some p))] w = (r, w') \<Longrightarrow>
    joint_step mv SS S clk M ex node e k (Handling p) w Tau (Loop r) w'"
| stream_ends: "tk_phase (sy_tasks y ! k) = Finished \<Longrightarrow> tk_out (sy_tasks y ! k) = [] \<Longrightarrow>
    session_loop (daemon_peer S clk) M ex node e [Message (Inr None)] (y, os) = (r, w') \<Longrightarrow>
    joint_step mv SS S clk M ex node e k (Loop Running) (y, os) Tau (Loop r) w'"

text \<open>
  Runs of a session from the opening of its stream on, in which the daemon may take any of its
  steps: reap, register the node again, deregister it, serve other agents and requests.
\<close>

inductive joint_run :: "'db store set \<Rightarrow> 'db store \<Rightarrow> ('os \<Rightarrow> u64) \<Rightarrow> ('db sys \<times> 'os) machine \<Rightarrow> executor \<Rightarrow>
    node_id \<Rightarrow> u64 \<Rightarrow> nat \<Rightarrow> label list \<Rightarrow> joint_phase \<Rightarrow> 'db sys \<times> 'os \<Rightarrow> bool"
  for SS S clk M ex node e k where
  joint_start: "stream_run SS tr y0 \<Longrightarrow> ss_epoch (sy_state y0) = e \<Longrightarrow>
    peer_stream (daemon_peer S clk) \<lparr>nref_node_id = node, nref_cluster_epoch = e\<rparr> (y0, os) =
      (Inr (), (y, os)) \<Longrightarrow> k = length (sy_tasks y0) \<Longrightarrow>
    joint_run SS S clk M ex node e k (tr @ [Tau]) (Loop Running) (y, os)"
| joint_next: "joint_run SS S clk M ex node e k tr ph w \<Longrightarrow>
    joint_step (stream_step SS) SS S clk M ex node e k ph w l ph' w' \<Longrightarrow>
    joint_run SS S clk M ex node e k (tr @ [l]) ph' w'"

text \<open>The steps of the task \<open>k\<close> alone: they touch nothing but the task and its channel.\<close>

definition task_moves :: "'db store set \<Rightarrow> nat \<Rightarrow> 'db sys \<Rightarrow> label \<Rightarrow> 'db sys \<Rightarrow> bool" where
  "task_moves SS k y l y' \<longleftrightarrow> stream_step SS y l y' \<and> l = Tau \<and>
     (\<exists>t ch. y' = set_chan k ch (set_task k t y))"

inductive joint_path for mv SS S clk M ex node e k where
  path_nil: "joint_path mv SS S clk M ex node e k ph w [] ph w"
| path_cons: "joint_step mv SS S clk M ex node e k ph w l ph1 w1 \<Longrightarrow>
    joint_path mv SS S clk M ex node e k ph1 w1 tr ph2 w2 \<Longrightarrow>
    joint_path mv SS S clk M ex node e k ph w (l # tr) ph2 w2"

lemma joint_step_mono:
  assumes "joint_step mv SS S clk M ex node e k ph w l ph' w'" and "\<And>y l y'. mv y l y' \<Longrightarrow> mv' y l y'"
  shows "joint_step mv' SS S clk M ex node e k ph w l ph' w'"
  using assms(1)
proof cases
  case (daemon_moves y y' os)
  show ?thesis unfolding daemon_moves(1-3)
    by (rule joint_step.daemon_moves [of mv', OF assms(2) [OF daemon_moves(4)] daemon_moves(5,6)])
qed (auto intro: joint_step.intros)

lemma joint_run_path:
  assumes "joint_path (task_moves SS k) SS S clk M ex node e k ph w tr' ph' w'"
    and "joint_run SS S clk M ex node e k tr ph w"
  shows "joint_run SS S clk M ex node e k (tr @ tr') ph' w'"
  using assms
proof (induction arbitrary: tr)
  case (path_cons ph w l ph1 w1 tr' ph2 w2)
  have "joint_step (stream_step SS) SS S clk M ex node e k ph w l ph1 w1"
    using path_cons.hyps(1) by (rule joint_step_mono) (simp add: task_moves_def)
  from path_cons.IH [OF joint_next [OF path_cons.prems this]] show ?case by simp
qed simp

text \<open>What every step of the daemon keeps: the epoch, the tasks there are, and the log.\<close>

lemma section_epoch: "section_step SS s t \<Longrightarrow> ss_epoch t = ss_epoch s"
  by (induction rule: section_step.induct)
    (auto simp: method_defs dispatch_def chan_send_def Let_def case_prod_beta split: option.splits)

lemma section_logged:
  assumes "section_step SS (sy_state y) s'" and "SS \<subseteq> lawful_stores view tview J jf"
  shows "logged_ids J view y \<subseteq> logged_ids J view (y\<lparr>sy_state := s'\<rparr>)"
  using assms(1)
proof cases
  case (sec_persist S r)
  with assms(2) show ?thesis by (auto simp: logged_ids_def log_persist)
next
  case (sec_unpersist S i)
  with assms(2) show ?thesis by (auto simp: logged_ids_def log_unpersist)
next
  case (sec_outcome S oc)
  with assms(2) show ?thesis by (auto simp: logged_ids_def log_record)
next
  case (sec_dispatch i cmd)
  with dispatch_state [of i cmd "sy_state y"] show ?thesis
    by (auto simp: logged_ids_def chan_send_def split: option.splits)
qed (simp_all add: logged_ids_def register_mem_def reap_stale_def deregister_mem_def
    attach_command_channel_def detach_command_channel_def Let_def case_prod_beta)

lemma set_db [simp]: "ss_db (sy_state (set_chan c ch y)) = ss_db (sy_state y)"
  "ss_epoch (sy_state (set_chan c ch y)) = ss_epoch (sy_state y)"
  "get_node i (sy_state (set_chan c ch y)) = get_node i (sy_state y)"
  by (simp_all add: set_chan_def get_node_def)

lemma stream_keeps:
  assumes "stream_step SS y l y'"
  shows "ss_epoch (sy_state y') = ss_epoch (sy_state y)" and "length (sy_tasks y) \<le> length (sy_tasks y')"
    and "SS \<subseteq> lawful_stores view tview J jf \<Longrightarrow> logged_ids J view y \<subseteq> logged_ids J view y'"
proof -
  have *: "ss_db (sy_state y') = ss_db (sy_state y) \<Longrightarrow> logged_ids J view y \<subseteq> logged_ids J view y'" for y'
    by (simp add: logged_ids_def)
  show "ss_epoch (sy_state y') = ss_epoch (sy_state y)"
    using assms by cases (auto simp: spawn_stream_def attach_command_channel_def
      detach_command_channel_def Let_def section_epoch elim!: send_okD)
  show "length (sy_tasks y) \<le> length (sy_tasks y')"
    using assms by cases (auto simp: spawn_stream_def Let_def case_prod_beta)
  assume SS: "SS \<subseteq> lawful_stores view tview J jf"
  from assms show "logged_ids J view y \<subseteq> logged_ids J view y'"
  proof cases
    case (other_section s')
    then show ?thesis using section_logged SS by blast
  qed (rule *; auto simp: spawn_stream_def attach_command_channel_def detach_command_channel_def
      Let_def elim!: send_okD)+
qed

inductive_cases receivedE: "stream_step SS y (Received k p) y'"

section \<open>The calls of a session, whatever the daemon answers\<close>

text \<open>A tick leaves streams and log, and ends the session only for a node unknown or a failed write.\<close>

lemma beat_cases:
  assumes "session_loop (daemon_peer S clk) M ex node e [HeartbeatTick] (y, os) = (r, w')"
    and "ss_epoch (sy_state y) = e"
  shows "streams_of (fst w') = streams_of y \<and> ss_epoch (sy_state (fst w')) = e \<and>
    logged_ids J view (fst w') = logged_ids J view y \<and>
    (r = Running \<or> r = Ended (Inr ()) \<and> get_node node (sy_state (fst w')) = None)"
  using assms heartbeat_result [of "clk os" node "sy_state y"]
  by (auto simp: daemon_peer_def rpc_heartbeat_def Let_def case_prod_beta streams_of_def logged_ids_def
      get_heartbeat split: option.splits)

lemma report_cases:
  assumes "session_loop (daemon_peer S clk) M ex node e [MetricsTick] (y, os) = (r, w')"
    and S: "S \<in> lawful_stores view tview J jf" and own: "local_machine node M"
  shows "streams_of (fst w') = streams_of y \<and> ss_epoch (sy_state (fst w')) = ss_epoch (sy_state y) \<and>
    logged_ids J view (fst w') = logged_ids J view y \<and>
    (r = Running \<or> (\<exists>err. r = Ended (Inl err)) \<and>
       (reliable_store S \<longrightarrow> get_node node (sy_state (fst w')) = None))"
proof -
  obtain m os' where c: "mc_collect M (y, os) = (m, (y, os'))" and m: "mr_node_id m = node"
    using own by (cases "mc_collect M (y, os)") (auto simp: local_machine_def, metis fst_conv snd_conv)
  show ?thesis
  proof (cases "get_node node (sy_state y)")
    case None
    then have "fst (ingest_mem (clk os') m (sy_state y)) = Inl (unknown_node node)"
      by (simp add: ingest_result m)
    then obtain s1 where i: "ingest_mem (clk os') m (sy_state y) = (Inl (unknown_node node), s1)"
      by (metis prod.collapse)
    have s1: "s1 = snd (ingest_mem (clk os') m (sy_state y))" by (simp add: i)
    have "fst w' = y\<lparr>sy_state := s1\<rparr>" and "\<exists>err. r = Ended (Inl err)"
      using assms(1)
      by (auto simp: c daemon_peer_def rpc_report_metrics_def report_wire.from_to ingest_metrics_def i and_then_def)
    moreover have "get_node node s1 = None" using None m by (simp add: s1 get_ingest)
    ultimately show ?thesis by (auto simp: streams_of_def logged_ids_def s1)
  next
    case (Some r0)
    obtain rec s1 where i: "ingest_mem (clk os') m (sy_state y) = (Inr rec, s1)"
      using ingest_result [of "clk os'" m "sy_state y"] Some m
      by (cases "ingest_mem (clk os') m (sy_state y)") auto
    have s1: "s1 = snd (ingest_mem (clk os') m (sy_state y))" by (simp add: i)
    obtain pr s2 where p: "persist S rec s1 = (pr, s2)" by fastforce
    have s2: "s2 = snd (persist S rec s1)" by (simp add: p)
    have ok: "reliable_store S \<Longrightarrow> pr = Inr ()"
      using p by (auto simp: reliable_store_def persist_def Let_def case_prod_beta)
    have "fst w' = y\<lparr>sy_state := s2\<rparr>" and "r = Running \<or> (\<exists>err. r = Ended (Inl err))"
      and "pr = Inr () \<Longrightarrow> r = Running"
      using assms(1)
      by (auto simp: c daemon_peer_def rpc_report_metrics_def report_wire.from_to ingest_metrics_def i p
          and_then_def split: sum.splits)
    then show ?thesis
      using ok log_persist [OF S, of rec s1]
      by (auto simp: streams_of_def logged_ids_def s1 s2)
  qed
qed

text \<open>A command is handled without the daemon's table, and logged unless the write fails.\<close>

lemma message_cases:
  assumes "session_loop (daemon_peer S clk) M ex node e [Message (Inr (Some p))] (y, os) = (r, w')"
    and "issued p" and S: "S \<in> lawful_stores view tview J jf" and own: "local_machine node M"
  shows "streams_of (fst w') = streams_of y \<and> ss_epoch (sy_state (fst w')) = ss_epoch (sy_state y) \<and>
    get_node i (sy_state (fst w')) = get_node i (sy_state y) \<and>
    logged_ids J view y \<subseteq> logged_ids J view (fst w') \<and>
    (r = Running \<and> pb_command_id p \<in> logged_ids J view (fst w') \<or>
     (\<exists>err. r = Ended (Inl err)) \<and> \<not> reliable_store S)"
proof -
  let ?P = "daemon_peer S clk"
  obtain now cmd where p: "p = to_pb_command now cmd" using assms(2) by (auto simp: issued_def)
  obtain oc w1 where w1: "w1 = (y, os) \<or> (\<exists>argv. w1 = snd (mc_spawn M argv (y, os)))"
    and oc: "co_command_id oc = pb_command_id p"
    and h: "handle_command ?P M ex p (y, os) = (let (res, w2) = peer_result ?P (outcome_to_pb oc) w1
        in (and_then (map_err (status_to_err M) res) (\<lambda>_. Inr ()), w2))"
    using handle_command_reports [where P = ?P and M = M and w = "(y, os)" and cmd = cmd and now = now and ex = ex]
    unfolding p by auto
  obtain os1 where w1: "w1 = (y, os1)"
    using w1 own by (cases w1) (auto simp: local_machine_def, metis fst_conv)
  obtain rr s1 where rec: "record_outcome S oc (sy_state y) = (rr, s1)" by fastforce
  have s1: "s1 = snd (record_outcome S oc (sy_state y))" by (simp add: rec)
  have ok: "reliable_store S \<Longrightarrow> rr = Inr ()"
    using rec by (auto simp: reliable_store_def record_outcome_def Let_def case_prod_beta)
  have w': "fst w' = y\<lparr>sy_state := s1\<rparr>" and r: "r = (case rr of Inr _ \<Rightarrow> Running |
      Inl er \<Rightarrow> Ended (Inl (status_to_err M (status_internal (hpc_error_to_string er)))))"
    using assms(1)
    by (auto simp: h w1 peer_result_daemon rpc_report_command_result_def outcome_wire.from_to rec map_err_def
        and_then_def split: sum.splits)
  have log: "log_of J view (ss_db s1) = (if rr = Inr () then (log_of J view (ss_db (sy_state y)))(co_command_id oc \<mapsto> Inr oc)
      else log_of J view (ss_db (sy_state y)))"
    using log_record [OF S, of oc "sy_state y"] by (simp add: rec)
  have "rr = Inr () \<or> (\<exists>er. rr = Inl er)" by (cases rr) simp_all
  then show ?thesis
  proof
    assume "rr = Inr ()"
    then show ?thesis using log w' r by (auto simp: streams_of_def logged_ids_def oc s1)
  next
    assume "\<exists>er. rr = Inl er"
    then show ?thesis using log w' r ok by (auto simp: streams_of_def logged_ids_def s1)
  qed
qed

section \<open>What a joint run keeps\<close>

definition quiet :: "nat \<Rightarrow> 'db sys \<Rightarrow> bool" where
  "quiet k y \<longleftrightarrow> tk_phase (sy_tasks y ! k) = Finished \<and> tk_out (sy_tasks y ! k) = []"

text \<open>
  What the phase says of the commands \<open>R\<close> received: which of them are among those logged; how a
  session that is over came to its end, where \<open>rel\<close> says that writes succeed.
\<close>

fun phase_ok :: "bool \<Rightarrow> string set \<Rightarrow> bool \<Rightarrow> bool \<Rightarrow> pb_command list \<Rightarrow> joint_phase \<Rightarrow> bool" where
  "phase_ok rel lg known qt R (Handling p) \<longleftrightarrow> (\<exists>R'. R = R' @ [p] \<and> pb_command_id ` set R' \<subseteq> lg)"
| "phase_ok rel lg known qt R (Loop Running) \<longleftrightarrow> pb_command_id ` set R \<subseteq> lg"
| "phase_ok rel lg known qt R (Loop (Ended (Inr u))) \<longleftrightarrow> pb_command_id ` set R \<subseteq> lg \<and> (qt \<or> \<not> known)"
| "phase_ok rel lg known qt R (Loop (Ended (Inl er))) \<longleftrightarrow> pb_command_id ` set (butlast R) \<subseteq> lg \<and>
     (rel \<longrightarrow> pb_command_id ` set R \<subseteq> lg \<and> \<not> known)"
| "phase_ok rel lg known qt R (Loop Panicked) \<longleftrightarrow> False"

lemma phase_ok_ongoing:
  "phase_ok rel lg known qt R ph \<Longrightarrow> ongoing ph \<Longrightarrow> lg \<subseteq> lg' \<Longrightarrow> phase_ok rel lg' known' qt' R ph"
  by (cases ph) auto

text \<open>Besides the invariants of the streams and the daemon's epoch.\<close>

definition joint_ok :: "'db store \<Rightarrow> 'b json \<Rightarrow> ('db \<Rightarrow> table \<Rightarrow> string \<Rightarrow> 'b option) \<Rightarrow> node_id \<Rightarrow> u64 \<Rightarrow>
    nat \<Rightarrow> label list \<Rightarrow> joint_phase \<Rightarrow> 'db sys \<Rightarrow> bool" where
  "joint_ok S J view node e k tr ph y \<longleftrightarrow> sys_ok y \<and> delivery_ok tr y \<and> k < length (sy_tasks y) \<and>
     ss_epoch (sy_state y) = e \<and> phase_ok (reliable_store S) (logged_ids J view y)
       (get_node node (sy_state y) \<noteq> None) (quiet k y) (received k tr) ph"

lemma joint_okD:
  assumes "joint_ok S J view node e k tr ph y"
  shows "sys_ok y" and "delivery_ok tr y" and "k < length (sy_tasks y)" and "ss_epoch (sy_state y) = e"
  using assms by (simp_all add: joint_ok_def)

lemma fifo_received_issued:
  assumes "fifo_ok A R t ch" and "p \<in> set R"
  shows "issued p"
proof -
  obtain D where "list_all2 encodes D (R @ tk_out t)" using assms(1) by (auto simp: fifo_ok_def)
  then obtain cmd where "encodes cmd p"
    using assms(2) by (auto simp: list_all2_conv_all_nth in_set_conv_nth nth_append split: if_splits)
      (metis (no_types, lifting) nth_append trans_less_add1)
  then show ?thesis by (auto simp: encodes_def issued_def)
qed

text \<open>A call of the session leaves the streams.\<close>

lemma joint_ok_calls:
  assumes ok: "joint_ok S J view node e k tr ph y" and "streams_of y' = streams_of y"
    and "ss_epoch (sy_state y') = e" and "phase_ok (reliable_store S) (logged_ids J view y')
      (get_node node (sy_state y') \<noteq> None) (quiet k y') (received k tr) ph'"
  shows "joint_ok S J view node e k (tr @ [Tau]) ph' y'"
proof -
  have same: "sy_tasks y' = sy_tasks y" "ss_chans (sy_state y') = ss_chans (sy_state y)"
      "ss_channels (sy_state y') = ss_channels (sy_state y)"
    using assms(2) by (simp_all add: streams_of_def)
  have "sys_ok y'" using joint_okD(1) [OF ok] by (rule sys_ok_state) (simp_all add: same)
  moreover have "delivery_ok (tr @ [Tau]) y'" using delivery_same [OF joint_okD(2) [OF ok] same(1,2)] .
  ultimately show ?thesis using joint_okD(3) [OF ok] assms(3,4) same(1) by (simp add: joint_ok_def)
qed

lemma joint_ok_moves:
  assumes ok: "joint_ok S J view node e k tr ph y" and step: "stream_step SS y l y'"
    and "phase_ok (reliable_store S) (logged_ids J view y') (get_node node (sy_state y') \<noteq> None)
      (quiet k y') (received k (tr @ [l])) ph'"
  shows "joint_ok S J view node e k (tr @ [l]) ph' y'"
  using assms(3) stream_keeps(1,2) [OF step] sys_ok_step [OF step] delivery_step [OF step] joint_okD [OF ok]
  by (simp add: joint_ok_def)

text \<open>A command in hand came off the stream.\<close>

lemma joint_handles:
  assumes ok: "joint_ok S J view node e k tr (Handling p) y"
    and loop: "session_loop (daemon_peer S clk) M ex node e [Message (Inr (Some p))] (y, os) = (r, w')"
    and S: "S \<in> lawful_stores view tview J jf" and own: "local_machine node M"
  shows "joint_ok S J view node e k (tr @ [Tau]) (Loop r) (fst w')" and "streams_of (fst w') = streams_of y"
    and "get_node i (sy_state (fst w')) = get_node i (sy_state y)" and "reliable_store S \<Longrightarrow> r = Running"
proof -
  obtain R' where R: "received k tr = R' @ [p]" and old: "pb_command_id ` set R' \<subseteq> logged_ids J view y"
    using ok by (auto simp: joint_ok_def)
  have "issued p" using fifo_received_issued [OF deliveryD [OF joint_okD(2,3) [OF ok] refl], of p] R by simp
  note m = message_cases [OF loop this S own]
  then show s: "streams_of (fst w') = streams_of y" "get_node i (sy_state (fst w')) = get_node i (sy_state y)"
      "reliable_store S \<Longrightarrow> r = Running" by blast+
  have "phase_ok (reliable_store S) (logged_ids J view (fst w')) (get_node node (sy_state (fst w')) \<noteq> None)
      (quiet k (fst w')) (received k tr) (Loop r)"
    using m [of undefined] old by (auto simp: R)
  moreover have "ss_epoch (sy_state (fst w')) = e" using m joint_okD(4) [OF ok] by simp
  ultimately show "joint_ok S J view node e k (tr @ [Tau]) (Loop r) (fst w')"
    using joint_ok_calls [OF ok s(1)] by blast
qed

lemma joint_step_keeps:
  assumes "joint_step (stream_step SS) SS S clk M ex node e k ph w l ph' w'"
    and "joint_ok S J view node e k tr ph (fst w)"
    and S: "S \<in> lawful_stores view tview J jf" and SS: "SS \<subseteq> lawful_stores view tview J jf"
    and own: "local_machine node M"
  shows "joint_ok S J view node e k (tr @ [l]) ph' (fst w')"
  using assms(1,2)
proof induction
  case (daemon_moves y l y' ph os)
  then have ok: "joint_ok S J view node e k tr ph y" by simp
  have "received k (tr @ [l]) = received k tr" using daemon_moves.hyps(2) by (cases l) auto
  with ok have "phase_ok (reliable_store S) (logged_ids J view y) (get_node node (sy_state y) \<noteq> None)
      (quiet k y) (received k (tr @ [l])) ph" by (simp add: joint_ok_def)
  from joint_ok_moves [OF ok daemon_moves.hyps(1) phase_ok_ongoing [OF this daemon_moves.hyps(3)
      stream_keeps(3) [OF daemon_moves.hyps(1) SS]]] show ?case by simp
next
  case (machine_moves ph y os os')
  then have ok: "joint_ok S J view node e k tr ph y" by simp
  then have "phase_ok (reliable_store S) (logged_ids J view y) (get_node node (sy_state y) \<noteq> None)
      (quiet k y) (received k tr) ph" by (simp only: joint_ok_def)
  from joint_ok_calls [OF ok refl joint_okD(4) [OF ok] this] show ?case by simp
next
  case (session_ticks ev w r w')
  obtain y os where w: "w = (y, os)" by (cases w)
  have ok: "joint_ok S J view node e k tr (Loop Running) y" using session_ticks.prems by (simp add: w)
  then have old: "pb_command_id ` set (received k tr) \<subseteq> logged_ids J view y" by (simp add: joint_ok_def)
  have t: "streams_of (fst w') = streams_of y" "ss_epoch (sy_state (fst w')) = e"
      "logged_ids J view (fst w') = logged_ids J view y"
    and r: "r = Running \<or> r = Ended (Inr ()) \<and> get_node node (sy_state (fst w')) = None \<or>
      (\<exists>err. r = Ended (Inl err)) \<and> (reliable_store S \<longrightarrow> get_node node (sy_state (fst w')) = None)"
    using session_ticks.hyps beat_cases [of S clk M ex node e y os r w' J view]
      report_cases [of S clk M ex node e y os r w' view tview J jf] S own joint_okD(4) [OF ok]
    unfolding w by blast+
  have "pb_command_id ` set (butlast (received k tr)) \<subseteq> logged_ids J view y"
    using old in_set_butlastD by fastforce
  with r old have "phase_ok (reliable_store S) (logged_ids J view (fst w')) (get_node node (sy_state (fst w')) \<noteq> None)
      (quiet k (fst w')) (received k tr) (Loop r)" by (auto simp: t(3))
  then show ?case by (rule joint_ok_calls [OF ok t(1,2)])
next
  case (session_receives y p y1 os)
  then have ok: "joint_ok S J view node e k tr (Loop Running) y" by simp
  then have "pb_command_id ` set (received k tr) \<subseteq> logged_ids J view y1"
    using stream_keeps(3) [OF session_receives.hyps SS] by (auto simp: joint_ok_def)
  then show ?case using joint_ok_moves [OF ok session_receives.hyps] by simp
next
  case (session_handles p w r w')
  obtain y os where w: "w = (y, os)" by (cases w)
  show ?case using joint_handles(1) [OF _ session_handles.hyps [unfolded w] S own] session_handles.prems by (simp add: w)
next
  case (stream_ends y os r w')
  have ok: "joint_ok S J view node e k tr (Loop Running) y" using stream_ends.prems by simp
  then have "pb_command_id ` set (received k tr) \<subseteq> logged_ids J view y" by (simp add: joint_ok_def)
  moreover have "quiet k y" using stream_ends.hyps(1,2) by (simp add: quiet_def)
  ultimately have "joint_ok S J view node e k (tr @ [Tau]) (Loop (Ended (Inr ()))) y"
    by (intro joint_ok_calls [OF ok refl joint_okD(4) [OF ok]]) simp
  moreover have "r = Ended (Inr ())" "w' = (y, os)" using stream_ends.hyps(3) by simp_all
  ultimately show ?case by simp
qed

text \<open>From the opening of the stream on.\<close>

lemma joint_ok_start:
  assumes run: "stream_run SS tr y0" and e: "ss_epoch (sy_state y0) = e" and k: "k = length (sy_tasks y0)"
    and str: "peer_stream (daemon_peer S clk) \<lparr>nref_node_id = node, nref_cluster_epoch = e\<rparr> (y0, os) =
      (Inr (), (y, os))"
  shows "joint_ok T J view node e k (tr @ [Tau]) (Loop Running) y"
proof -
  have y: "y = snd (spawn_stream node y0)"
    using str by (cases "spawn_stream node y0")
      (auto simp: daemon_peer_def rpc_stream_commands_def Let_def split: if_splits)
  have r: "stream_run SS (tr @ [Tau]) y" unfolding y by (rule run_step [OF run open_stream])
  have "received k tr = []" using delivery_run [OF run] k by (simp add: delivery_ok_def)
  moreover have "ss_epoch (sy_state y) = e" "k < length (sy_tasks y)"
    using e k by (simp_all add: y spawn_stream_def attach_command_channel_def Let_def)
  ultimately show ?thesis using sys_ok_run [OF r] delivery_run [OF r] by (simp add: joint_ok_def)
qed

lemma joint_run_keeps:
  assumes "joint_run SS S clk M ex node e k tr ph w"
    and S: "S \<in> lawful_stores view tview J jf" and SS: "SS \<subseteq> lawful_stores view tview J jf"
    and own: "local_machine node M"
  shows "joint_ok S J view node e k tr ph (fst w)"
  using assms(1)
proof induction
  case (joint_start tr y0 os y)
  then show ?case using joint_ok_start by fastforce
next
  case (joint_next tr ph w l ph' w')
  then show ?case using joint_step_keeps [OF _ _ S SS own] by blast
qed

text \<open>The commands behind what was received, and what is still on its way.\<close>

lemma joint_delivered:
  assumes "joint_ok S J view node e k tr ph y"
  shows "length (received k tr) \<le> length (accepted k tr)"
    and "i < length (received k tr) \<Longrightarrow> encodes (accepted k tr ! i) (received k tr ! i)"
    and "moving (tk_phase (sy_tasks y ! k)) \<Longrightarrow> tk_out_open (sy_tasks y ! k) \<Longrightarrow>
      length (accepted k tr) = length (received k tr) + length (tk_out (sy_tasks y ! k)) +
        length (in_hand (tk_phase (sy_tasks y ! k))) + length (ch_queue (chan_of y k))"
proof -
  let ?t = "sy_tasks y ! k" and ?R = "received k tr"
  have "fifo_ok (accepted k tr) ?R ?t (chan_of y k)"
    using deliveryD [OF joint_okD(2,3) [OF assms] refl] .
  then obtain D where D: "list_all2 encodes D (?R @ tk_out ?t)" "prefix D (accepted k tr)"
    and all: "moving (tk_phase ?t) \<and> tk_out_open ?t \<longrightarrow>
      accepted k tr = D @ in_hand (tk_phase ?t) @ ch_queue (chan_of y k)"
    by (auto simp: fifo_ok_def)
  have len: "length D = length ?R + length (tk_out ?t)" using list_all2_lengthD [OF D(1)] by simp
  then show "length ?R \<le> length (accepted k tr)" using prefix_length_le [OF D(2)] by simp
  show "moving (tk_phase ?t) \<Longrightarrow> tk_out_open ?t \<Longrightarrow> length (accepted k tr) =
      length ?R + length (tk_out ?t) + length (in_hand (tk_phase ?t)) + length (ch_queue (chan_of y k))"
    using all len by simp
  assume i: "i < length ?R"
  then have "encodes (D ! i) (?R ! i)" using list_all2_nthD [OF D(1), of i] len by (simp add: nth_append)
  moreover have "accepted k tr ! i = D ! i" using D(2) i len by (auto simp: prefix_def nth_append)
  ultimately show "encodes (accepted k tr ! i) (?R ! i)" by simp
qed

lemma joint_logged:
  assumes ok: "joint_ok S J view node e k tr ph y" and "n \<le> length (received k tr)"
    and "pb_command_id ` set (take n (received k tr)) \<subseteq> logged_ids J view y"
  shows "\<forall>cmd \<in> set (take n (accepted k tr)). command_id cmd \<in> logged_ids J view y"
proof
  fix cmd assume "cmd \<in> set (take n (accepted k tr))"
  then obtain i where i: "i < n" "i < length (received k tr)" "cmd = accepted k tr ! i"
    using assms(2) joint_delivered(1) [OF ok] by (auto simp: in_set_conv_nth)
  then have "pb_command_id (received k tr ! i) \<in> logged_ids J view y"
    using assms(3) by (force simp: in_set_conv_nth)
  then show "command_id cmd \<in> logged_ids J view y"
    using joint_delivered(2) [OF ok i(2)] i(3) by (auto simp: encodes_def)
qed

section \<open>Nothing stays on its way\<close>

text \<open>The stream \<open>k\<close> moves commands to a client that listens, and has none on its way.\<close>

definition flowing :: "nat \<Rightarrow> 'db sys \<Rightarrow> bool" where
  "flowing k y \<longleftrightarrow> moving (tk_phase (sy_tasks y ! k)) \<and> tk_out_open (sy_tasks y ! k)"

definition drained :: "nat \<Rightarrow> 'db sys \<Rightarrow> bool" where
  "drained k y \<longleftrightarrow> flowing k y \<and> tk_phase (sy_tasks y ! k) = Receiving \<and> tk_out (sy_tasks y ! k) = [] \<and>
     ch_queue (chan_of y k) = []"

lemma moving_iff: "moving p \<longleftrightarrow> p = Receiving \<or> (\<exists>cmd. p = Forwarding cmd)"
  by (cases p) (auto simp: moving_def live_def)

lemma flowing_streams: "streams_of y' = streams_of y \<Longrightarrow> flowing k y' = flowing k y"
  by (simp add: flowing_def streams_of_def)

text \<open>What one command still has to pass.\<close>

definition on_way :: "nat \<Rightarrow> 'db sys \<Rightarrow> nat" where
  "on_way k y = length (tk_out (sy_tasks y ! k)) + 2 * length (in_hand (tk_phase (sy_tasks y ! k))) +
     3 * length (ch_queue (chan_of y k))"

lemma on_way_streams: "streams_of y' = streams_of y \<Longrightarrow> on_way k y' = on_way k y"
  by (simp add: on_way_def streams_of_def chan_of_def)

lemma set_chan_same: "c < length (ss_chans (sy_state y)) \<Longrightarrow> set_chan c (chan_of y c) y = y"
  by (simp add: set_chan_def chan_of_def)

text \<open>The task has a step to take when its response buffer is empty and a command is behind it.\<close>

lemma task_advances:
  assumes ok: "sys_ok y" and k: "k < length (sy_tasks y)" and flow: "flowing k y"
    and out: "tk_out (sy_tasks y ! k) = []"
  shows "drained k y \<or> (\<exists>y'. task_moves SS k y Tau y' \<and> flowing k y' \<and> on_way k y' < on_way k y)"
proof (cases "tk_phase (sy_tasks y ! k)")
  case (Forwarding cmd)
  let ?t = "sy_tasks y ! k"
  let ?t' = "?t\<lparr>tk_phase := Receiving, tk_out := tk_out ?t @ [to_pb_command 0 cmd]\<rparr>"
  have "stream_step SS y Tau (set_task k ?t' y)"
    using flow by (intro forward_ok [OF k refl Forwarding]) (simp_all add: out flowing_def out_capacity_def)
  moreover have "set_task k ?t' y = set_chan k (chan_of (set_task k ?t' y) k) (set_task k ?t' y)"
    using sys_okD(3) [OF ok k refl] by (simp add: set_chan_same del: chan_of_simps)
  ultimately have "task_moves SS k y Tau (set_task k ?t' y)" unfolding task_moves_def by blast
  then show ?thesis
    using k Forwarding out flow by (intro disjI2 exI conjI) (assumption | simp add: flowing_def on_way_def)+
next
  case Receiving
  let ?t = "sy_tasks y ! k"
  note t = sys_okD [OF ok k refl]
  show ?thesis
  proof (cases "ch_queue (chan_of y k)")
    case (Cons cmd cmds)
    have "stream_step SS y Tau (set_chan k ((chan_of y k)\<lparr>ch_queue := cmds\<rparr>)
        (set_task k (?t\<lparr>tk_phase := Forwarding cmd\<rparr>) y))"
      using recv_some [OF k refl Receiving, of "chan_of y k" cmd cmds SS] by (simp add: t(1) Cons)
    then have "task_moves SS k y Tau (set_chan k ((chan_of y k)\<lparr>ch_queue := cmds\<rparr>)
        (set_task k (?t\<lparr>tk_phase := Forwarding cmd\<rparr>) y))" unfolding task_moves_def by blast
    then show ?thesis
      using k Receiving out Cons flow t(3)
      by (intro disjI2 exI conjI) (assumption | simp add: flowing_def on_way_def)+
  qed (use Receiving out flow in \<open>simp add: drained_def\<close>)
qed (use flow in \<open>simp_all add: flowing_def moving_iff\<close>)

lemma task_moves_nodes: "task_moves SS k y l y' \<Longrightarrow> get_node i (sy_state y') = get_node i (sy_state y)"
  by (auto simp: task_moves_def)

text \<open>A command in hand is done with, and the session listens again.\<close>

lemma joint_returns:
  assumes ok: "joint_ok S J view node e k tr ph y" and on: "ongoing ph"
    and S: "S \<in> lawful_stores view tview J jf" and rel: "reliable_store S" and own: "local_machine node M"
  shows "\<exists>tr' y' os'. joint_path (task_moves SS k) SS S clk M ex node e k ph (y, os) tr' (Loop Running) (y', os') \<and>
    joint_ok S J view node e k (tr @ tr') (Loop Running) y' \<and> accepted k tr' = [] \<and>
    streams_of y' = streams_of y \<and> get_node node (sy_state y') = get_node node (sy_state y)"
proof (cases ph)
  case (Loop r)
  then show ?thesis
    using ok on path_nil by (intro exI [of _ "[]"] exI [of _ y] exI [of _ os]) simp
next
  case (Handling p)
  obtain r y' os' where loop: "session_loop (daemon_peer S clk) M ex node e [Message (Inr (Some p))] (y, os) = (r, (y', os'))"
    by (metis prod_cases3)
  note h = joint_handles [OF ok [unfolded Handling] loop S own]
  have r: "r = Running" using h(4) rel by blast
  have "joint_path (task_moves SS k) SS S clk M ex node e k ph (y, os) [Tau] (Loop Running) (y', os')"
    using path_cons [OF session_handles [OF loop] path_nil] by (simp only: Handling r)
  then show ?thesis
    using h(1-3) by (intro exI [of _ "[Tau]"] exI [of _ y'] exI [of _ os']) (simp add: r)
qed

lemma path_append:
  "joint_path mv SS S clk M ex node e k ph w tr ph1 w1 \<Longrightarrow> joint_path mv SS S clk M ex node e k ph1 w1 tr' ph2 w2 \<Longrightarrow>
     joint_path mv SS S clk M ex node e k ph w (tr @ tr') ph2 w2"
  by (induction rule: joint_path.induct) (auto intro: path_cons)

lemma joint_advances:
  assumes ok: "joint_ok S J view node e k tr (Loop Running) y" and flow: "flowing k y"
    and S: "S \<in> lawful_stores view tview J jf" and SS: "SS \<subseteq> lawful_stores view tview J jf"
    and rel: "reliable_store S" and own: "local_machine node M"
  shows "drained k y \<or> (\<exists>tr' y' os'.
    joint_path (task_moves SS k) SS S clk M ex node e k (Loop Running) (y, os) tr' (Loop Running) (y', os') \<and>
    joint_ok S J view node e k (tr @ tr') (Loop Running) y' \<and> flowing k y' \<and> accepted k tr' = [] \<and>
    on_way k y' < on_way k y \<and> get_node node (sy_state y') = get_node node (sy_state y))"
proof -
  let ?t = "sy_tasks y ! k"
  let ?step = "joint_step (task_moves SS k) SS S clk M ex node e k"
  let ?path = "joint_path (task_moves SS k) SS S clk M ex node e k"
  note k = joint_okD(1,3) [OF ok]
  show ?thesis
  proof (cases "tk_out ?t")
    case (Cons p ps)
    let ?y1 = "set_task k (?t\<lparr>tk_out := ps\<rparr>) y"
    have step: "stream_step SS y (Received k p) ?y1"
      using client_recv [OF k(2) refl Cons, of SS] by (simp add: sys_okD(1) [OF k refl])
    have rec: "joint_step mv SS S clk M ex node e k (Loop Running) (y, os) (Received k p) (Handling p) (?y1, os)" for mv
      by (rule session_receives [OF step])
    have ok1: "joint_ok S J view node e k (tr @ [Received k p]) (Handling p) ?y1"
      using joint_step_keeps [OF rec _ S SS own] ok by simp
    from joint_returns [OF ok1 _ S rel own, where SS = SS and clk = clk and ex = ex and os = os]
    obtain tr' y' os' where d: "?path (Handling p) (?y1, os) tr' (Loop Running) (y', os')"
      "joint_ok S J view node e k ((tr @ [Received k p]) @ tr') (Loop Running) y'" "accepted k tr' = []"
      "streams_of y' = streams_of ?y1" "get_node node (sy_state y') = get_node node (sy_state ?y1)" by auto
    have "flowing k ?y1" "on_way k ?y1 < on_way k y" using flow k Cons by (simp_all add: flowing_def on_way_def)
    then have "flowing k y'" "on_way k y' < on_way k y" using flowing_streams on_way_streams d(4) by metis+
    then show ?thesis
      using path_cons [OF rec d(1)] d(2,3,5)
      by (intro disjI2 exI [of _ "Received k p # tr'"] exI [of _ y'] exI [of _ os']) simp
  next
    case Nil
    from task_advances [OF k flow Nil, of SS] show ?thesis
    proof (elim disjE exE conjE)
      fix y' assume y': "task_moves SS k y Tau y'" "flowing k y'" "on_way k y' < on_way k y"
      have st: "?step (Loop Running) (y, os) Tau (Loop Running) (y', os)"
        by (rule daemon_moves [of "task_moves SS k", OF y'(1)]) simp_all
      then have "joint_step (stream_step SS) SS S clk M ex node e k (Loop Running) (y, os) Tau (Loop Running) (y', os)"
        by (rule joint_step_mono) (simp add: task_moves_def)
      from joint_step_keeps [OF this _ S SS own] ok
      have "joint_ok S J view node e k (tr @ [Tau]) (Loop Running) y'" by simp
      then show ?thesis
        using path_cons [OF st path_nil] y'(2,3) task_moves_nodes [OF y'(1)]
        by (intro disjI2 exI [of _ "[Tau]"] exI [of _ y'] exI [of _ os]) simp
    qed simp
  qed
qed

lemma joint_drains:
  assumes "joint_ok S J view node e k tr (Loop Running) y" and "flowing k y"
    and S: "S \<in> lawful_stores view tview J jf" and SS: "SS \<subseteq> lawful_stores view tview J jf"
    and rel: "reliable_store S" and own: "local_machine node M"
  shows "\<exists>tr' y' os'. joint_path (task_moves SS k) SS S clk M ex node e k (Loop Running) (y, os) tr' (Loop Running) (y', os') \<and>
    joint_ok S J view node e k (tr @ tr') (Loop Running) y' \<and> drained k y' \<and> accepted k tr' = [] \<and>
    get_node node (sy_state y') = get_node node (sy_state y)"
  using assms(1,2)
proof (induction "on_way k y" arbitrary: tr y os rule: less_induct)
  case less
  show ?case
  proof (cases "drained k y")
    case False
    with joint_advances [OF less.prems S SS rel own, where clk = clk and ex = ex and os = os] obtain tr1 y1 os1 where
      l: "joint_path (task_moves SS k) SS S clk M ex node e k (Loop Running) (y, os) tr1 (Loop Running) (y1, os1)"
        "joint_ok S J view node e k (tr @ tr1) (Loop Running) y1" "flowing k y1" "accepted k tr1 = []"
        "on_way k y1 < on_way k y" "get_node node (sy_state y1) = get_node node (sy_state y)" by blast
    from less.hyps [OF l(5,2,3), of os1] obtain tr' y' os' where
      d: "joint_path (task_moves SS k) SS S clk M ex node e k (Loop Running) (y1, os1) tr' (Loop Running) (y', os')"
        "joint_ok S J view node e k ((tr @ tr1) @ tr') (Loop Running) y'" "drained k y'" "accepted k tr' = []"
        "get_node node (sy_state y') = get_node node (sy_state y1)" by blast
    then show ?thesis
      using path_append [OF l(1) d(1)] l(4,6)
      by (intro exI [of _ "tr1 @ tr'"] exI [of _ y'] exI [of _ os']) simp
  next
    case True
    then show ?thesis
      using less.prems path_nil by (intro exI [of _ "[]"] exI [of _ y] exI [of _ os]) simp
  qed
qed

section \<open>From a request to the log\<close>

text \<open>A request that is acknowledged has put one command, with the acknowledged id, on the node's channel.\<close>

lemma acknowledged_enqueues:
  assumes "api_fs_command uuid node freq s = (Ready (Inr a), s') \<or> api_deploy uuid node dreq s = (Ready (Inr a), s')"
  obtains c ch cmd where "command_id cmd = da_command_id a" and "map_of (ss_channels s) node = Some c"
    and "chan_send c cmd s = (Ready (Inr ()), s')"
  using assms
proof (elim disjE)
  assume "api_fs_command uuid node freq s = (Ready (Inr a), s')"
  from fs_command_cases [OF this] obtain c ch spec where "fs_command_id spec = da_command_id a"
    "map_of (ss_channels s) node = Some c" "nth_opt (ss_chans s) c = Some ch" "ch_open ch"
    "length (ch_queue ch) < chan_capacity"
    "s' = s\<lparr>ss_chans := (ss_chans s)[c := ch\<lparr>ch_queue := ch_queue ch @ [Fs spec]\<rparr>]\<rparr>" by auto
  then show thesis by (intro that [of "Fs spec" c]) (simp_all add: chan_send_def)
next
  assume "api_deploy uuid node dreq s = (Ready (Inr a), s')"
  from deploy_cases [OF this] show thesis
  proof (elim disjE exE conjE, goal_cases)
    case (2 _ c ch spec)
    then show thesis by (intro that [of "Deploy spec" c]) (simp_all add: chan_send_def)
  qed simp
qed

text \<open>In a joint run that is two steps of the daemon: the send begins, and finds room.\<close>

lemma joint_accepts:
  assumes run: "joint_run SS S clk M ex node e k tr ph (y, os)" and on: "ongoing ph"
    and c: "map_of (ss_channels (sy_state y)) i = Some c"
    and send: "chan_send c cmd (sy_state y) = (Ready (Inr ()), s')"
  shows "joint_run SS S clk M ex node e k (tr @ [Tau, Accepted c cmd]) ph (y\<lparr>sy_state := s'\<rparr>, os)"
proof -
  let ?y1 = "y\<lparr>sy_sends := sy_sends y @ [(c, cmd)]\<rparr>"
  have "joint_step (stream_step SS) SS S clk M ex node e k ph (y, os) Tau ph (?y1, os)"
    by (rule daemon_moves [of "stream_step SS", OF begin_send [of y i c SS cmd, OF c]]) (simp_all add: on)
  note run1 = joint_next [OF run this]
  have "stream_step SS ?y1 (Accepted c cmd) (?y1\<lparr>sy_state := s', sy_sends := sy_sends y @ []\<rparr>)"
    by (rule send_ok) (simp_all add: send)
  then have step: "stream_step SS ?y1 (Accepted c cmd) (y\<lparr>sy_state := s'\<rparr>)" by simp
  have "joint_step (stream_step SS) SS S clk M ex node e k ph (?y1, os) (Accepted c cmd) ph (y\<lparr>sy_state := s'\<rparr>, os)"
    by (rule daemon_moves [of "stream_step SS", OF step]) (simp_all add: on)
  from joint_next [OF run1 this] show ?thesis by simp
qed

lemma chan_send_flowing:
  assumes "chan_send c cmd (sy_state y) = (Ready (Inr ()), s')" and "flowing k y"
  shows "flowing k (y\<lparr>sy_state := s'\<rparr>)" and "get_node i s' = get_node i (sy_state y)"
  using assms by (auto simp: flowing_def get_node_def elim!: send_okD)

text \<open>A drained stream has delivered everything, and the log has it.\<close>

lemma drained_logged:
  assumes ok: "joint_ok S J view node e k tr (Loop Running) y" and "drained k y"
  shows "\<forall>cmd \<in> set (accepted k tr). command_id cmd \<in> logged_ids J view y"
proof -
  have len: "length (received k tr) = length (accepted k tr)"
    using joint_delivered(3) [OF ok] assms(2) by (simp add: drained_def flowing_def)
  have "pb_command_id ` set (received k tr) \<subseteq> logged_ids J view y" using ok by (simp add: joint_ok_def)
  with joint_logged [OF ok, of "length (received k tr)"] len show ?thesis by simp
qed


lemma reliable_registers: "reliable_store S \<Longrightarrow> \<exists>a s'. rpc_register_node S now0 now p s = (Inr a, s')"
  by (simp add: reliable_store_def rpc_register_node_def register_node_def persist_def map_err_def
      and_then_def Let_def case_prod_beta)

section \<open>A sample session\<close>

lemma sample_joint_start:
  "joint_run {sample_store} sample_store (\<lambda>_ :: unit. 40) sample_machine (executor_new ''n1'' False)
     ''n1'' 10 0 [Tau] (Loop Running) (sample_sys [] Receiving [] [], ())"
proof -
  let ?y0 = "\<lparr>sy_state = state1, sy_tasks = [], sy_sends = []\<rparr>"
  have "stream_run {sample_store} [] ?y0" by (rule run_start) (simp_all add: state1_def state0_def)
  moreover have g: "get_node ''n1'' state1 = Some sample_record" by (simp add: get_node_def state1_def)
  moreover have "snd (spawn_stream ''n1'' ?y0) = sample_sys [] Receiving [] []"
    by (simp add: spawn_stream_def attach_command_channel_def sample_sys_def state1_def state0_def Let_def)
  ultimately have "joint_run {sample_store} sample_store (\<lambda>_ :: unit. 40) sample_machine
      (executor_new ''n1'' False) ''n1'' 10 0 ([] @ [Tau]) (Loop Running) (sample_sys [] Receiving [] [], ())"
    by (intro joint_start [where ?y0.0 = ?y0])
      (simp_all add: daemon_peer_def rpc_stream_commands_def Let_def case_prod_beta,
       simp add: state1_def state0_def)
  then show ?thesis by simp
qed

lemma sample_local_id: "local_machine ''n1'' sample_machine"
  by (simp add: local_machine_def sample_machine_def sample_report_def)

lemma sample_stores: "{sample_store} \<subseteq> lawful_stores mem_view mem_view mem_json (\<lambda>x. x)"
  using sample_lawful by simp



section \<open>Properties\<close>



text \<open>
  C2: nothing that is acknowledged can get stuck. When the REST API acknowledges a file system or
  deployment request for the node of a running session, through the stream the session listens
  to, the acknowledged id is that of the one command this put on the stream, and steps of the
  task and of the session alone carry it, and all accepted before it, through to the audit log:
  also when the session is busy with a command, and whatever the daemon did before, a
  deregistration of the node included.
\<close>

theorem acknowledged_command_reaches_log:
  assumes run: "joint_run SS S clk M ex node e k tr ph (y, os)" and on: "ongoing ph"
    and conn: "map_of (ss_channels (sy_state y)) node = Some k"
    and flow: "moving (tk_phase (sy_tasks y ! k)) \<and> tk_out_open (sy_tasks y ! k)"
    and ackd: "api_fs_command uuid node freq (sy_state y) = (Ready (Inr a), s') \<or>
      api_deploy uuid node dreq (sy_state y) = (Ready (Inr a), s')"
    and S: "S \<in> lawful_stores view tview J jf" and SS: "SS \<subseteq> lawful_stores view tview J jf"
    and rel: "reliable_store S" and own: "local_machine node M"
  shows "\<exists>cmd tr' y' os'. command_id cmd = da_command_id a \<and>
    joint_run SS S clk M ex node e k (tr @ [Tau, Accepted k cmd]) ph (y\<lparr>sy_state := s'\<rparr>, os) \<and>
    joint_path (task_moves SS k) SS S clk M ex node e k ph (y\<lparr>sy_state := s'\<rparr>, os) tr' (Loop Running) (y', os') \<and>
    joint_run SS S clk M ex node e k (tr @ [Tau, Accepted k cmd] @ tr') (Loop Running) (y', os') \<and>
    accepted k tr' = [] \<and> get_node node (sy_state y') = get_node node (sy_state y) \<and>
    (\<forall>c \<in> set (accepted k tr @ [cmd]). \<exists>oc. log_of J view (ss_db (sy_state y')) (command_id c) = Some (Inr oc))"
proof -
  obtain c cmd where cmd: "command_id cmd = da_command_id a" and c: "map_of (ss_channels (sy_state y)) node = Some c"
    and send: "chan_send c cmd (sy_state y) = (Ready (Inr ()), s')"
    by (rule acknowledged_enqueues [OF ackd])
  have "c = k" using c conn by simp
  let ?tr = "tr @ [Tau, Accepted k cmd]" and ?y1 = "y\<lparr>sy_state := s'\<rparr>"
  note run1 = joint_accepts [OF run on conn send [unfolded \<open>c = k\<close>]]
  have flow1: "flowing k ?y1" and g1: "get_node node s' = get_node node (sy_state y)"
    using chan_send_flowing [OF send, of k] flow by (simp_all add: flowing_def)
  have "joint_ok S J view node e k ?tr ph ?y1" using joint_run_keeps [OF run1 S SS own] by simp
  from joint_returns [OF this on S rel own, where SS = SS and clk = clk and ex = ex and os = os] obtain tr1 y2 os2 where
    p1: "joint_path (task_moves SS k) SS S clk M ex node e k ph (?y1, os) tr1 (Loop Running) (y2, os2)"
      "joint_ok S J view node e k (?tr @ tr1) (Loop Running) y2" "accepted k tr1 = []"
      "streams_of y2 = streams_of ?y1" "get_node node (sy_state y2) = get_node node s'" by auto
  have "flowing k y2" using flow1 flowing_streams p1(4) by blast
  from joint_drains [OF p1(2) this S SS rel own, where clk = clk and ex = ex and os = os2] obtain tr2 y' os' where
    p2: "joint_path (task_moves SS k) SS S clk M ex node e k (Loop Running) (y2, os2) tr2 (Loop Running) (y', os')"
      "joint_ok S J view node e k ((?tr @ tr1) @ tr2) (Loop Running) y'" "drained k y'" "accepted k tr2 = []"
      "get_node node (sy_state y') = get_node node (sy_state y2)" by auto
  note path = path_append [OF p1(1) p2(1)]
  have "\<forall>c \<in> set (accepted k tr @ [cmd]). \<exists>oc. log_of J view (ss_db (sy_state y')) (command_id c) = Some (Inr oc)"
    using drained_logged [OF p2(2,3)] p1(3) p2(4) by (auto simp: logged_ids_def)
  moreover have "joint_run SS S clk M ex node e k (tr @ [Tau, Accepted k cmd] @ tr1 @ tr2) (Loop Running) (y', os')"
    using joint_run_path [OF path run1] by simp
  ultimately show ?thesis
    using cmd run1 path p1(3,5) p2(4,5) g1
    by (intro exI [of _ cmd] exI [of _ "tr1 @ tr2"] exI [of _ y'] exI [of _ os']) (simp add: \<open>c = k\<close>)
qed

theorem acknowledged_command_reaches_log_witness:
  "\<exists>(y :: document mem_db sys) oc. log_of mem_json mem_view (ss_db (sy_state y)) ''c9'' = Some (Inr oc)"
proof -
  have i: "ni_node_id sample_info = ''n1''" by (simp add: sample_info_def)
  obtain a s' where r: "api_fs_command ''u'' ''n1'' sample_fs_request
      (sy_state (sample_sys [] Receiving [] [])) = (Ready (Inr a), s')" and a: "da_command_id a = ''c9''"
    using sample_fs_accepted i by auto
  have conn: "map_of (ss_channels (sy_state (sample_sys [] Receiving [] []))) ''n1'' = Some 0" by simp
  have flow: "moving (tk_phase (sy_tasks (sample_sys [] Receiving [] []) ! 0)) \<and>
      tk_out_open (sy_tasks (sample_sys [] Receiving [] []) ! 0)" by simp
  have on: "ongoing (Loop Running)" by simp
  from acknowledged_command_reaches_log [OF sample_joint_start on conn flow disjI1 [OF r] sample_lawful
      sample_stores sample_reliable sample_local_id] a show ?thesis by fastforce
qed

text \<open>
  C21: an agent that connects to a daemon whose writes succeed registers, opens its stream and stays
  in its session through any sequence of ticks and commands: the node stays known as it
  registered and reachable, and the log has the outcome of every command it was sent.
\<close>

theorem session_stays_up:
  assumes S: "S \<in> lawful_stores view tview J jf" and rel: "reliable_store S"
    and own: "local_machine (ni_node_id info) M" and info: "node_info_ok info"
    and es: "\<forall>ev \<in> set es. ev = MetricsTick \<or> ev = HeartbeatTick \<or> (\<exists>now cmd. ev = Message (Inr (Some (to_pb_command now cmd))))"
    and m: "ss_metrics_interval_secs (sy_state y) \<noteq> 0 \<or> ac_metrics_interval cfg \<noteq> 0"
    and h: "ac_heartbeat_interval cfg \<noteq> 0"
    and run: "session (daemon_peer S clk) M cfg info ex es (y, os) = (res, (y', os'))"
  shows "res = Running \<and>
    (\<exists>r. get_node (ni_node_id info) (sy_state y') = Some r \<and> nr_info r = info \<and> nr_status r \<noteq> Unreachable) \<and>
    (\<forall>now cmd. Message (Inr (Some (to_pb_command now cmd))) \<in> set es \<longrightarrow>
       (\<exists>oc. log_of J view (ss_db (sy_state y')) (command_id cmd) = Some (Inr oc) \<and> co_command_id oc = command_id cmd))"
proof -
  have i: "node_info_from_pb (node_info_to_pb info) = info" using info by (rule node_info_wire.from_to)
  obtain a s1 where reg: "rpc_register_node S (clk os) (clk os) (node_info_to_pb info) (sy_state y) = (Inr a, s1)"
    using reliable_registers [OF rel] by blast
  note eff = register_fields [OF reg, unfolded i]
  have "ra_metrics_interval_secs a = ss_metrics_interval_secs (sy_state y)"
    using register_result [OF reg] by simp
  then have mi: "metrics_interval_of cfg a \<noteq> 0"
    using m by (auto simp: metrics_interval_of_def from_secs_def word_neq_0_conv unat_gt_0)
  let ?y1 = "y\<lparr>sy_state := s1\<rparr>" and ?e = "ra_cluster_epoch a"
  let ?y2 = "snd (spawn_stream (ni_node_id info) ?y1)"
  have up: "serving True info ?e (streams_of ?y2) ?y2"
    using eff by (auto simp: serving_def info_of_def reachable_at_def spawn_stream_def
        attach_command_channel_def get_node_def Let_def)
  have "get_node (ni_node_id info) s1 \<noteq> None" using eff(2) by auto
  then obtain c where str: "rpc_stream_commands \<lparr>nref_node_id = ni_node_id info, nref_cluster_epoch = ?e\<rparr> ?y1 = (Inr c, ?y2)"
    by (simp add: rpc_stream_commands_def Let_def case_prod_beta)
  have loop: "session_loop (daemon_peer S clk) M ex (ni_node_id info) ?e es (?y2, os) = (res, (y', os'))"
    using run h mi reg str by (simp add: session_def daemon_peer_def Let_def)
  have "list_all served_event es" using es by (fastforce simp: list_all_iff issued_def)
  from served_agent.loop_served [OF served_agent.intro [OF S rel own] up this] obtain y3 os3 where
    "session_loop (daemon_peer S clk) M ex (ni_node_id info) ?e es (?y2, os) = (Running, (y3, os3))"
    and r: "serving True info ?e (streams_of ?y2) y3"
    "\<And>p. Message (Inr (Some p)) \<in> set es \<Longrightarrow> pb_command_id p \<in> logged_ids J view y3" by blast
  with loop have "res = Running" "y3 = y'" by simp_all
  with r show ?thesis
    by (fastforce simp: serving_def info_of_def reachable_at_def logged_ids_def)
qed

theorem session_stays_up_witness:
  "fst (session (daemon_peer sample_store (\<lambda>_. 40)) sample_machine default_agent_config sample_info
     (executor_new ''n1'' False) [MetricsTick, HeartbeatTick, Message (Inr (Some (to_pb_command 7 sample_command)))]
     sample_world) = Running"
proof -
  let ?es = "[MetricsTick, HeartbeatTick, Message (Inr (Some (to_pb_command 7 sample_command)))]"
  obtain y os where w: "sample_world = (y, os)" by (cases sample_world)
  have info: "node_info_ok sample_info" by (simp add: node_info_ok_def sample_info_def btree_ok_def)
  have m: "ss_metrics_interval_secs (sy_state y) \<noteq> 0 \<or> ac_metrics_interval default_agent_config \<noteq> 0"
    by (simp add: default_agent_config_def from_secs_def)
  have h: "ac_heartbeat_interval default_agent_config \<noteq> 0"
    by (simp add: default_agent_config_def from_secs_def)
  have es: "\<forall>ev \<in> set ?es. ev = MetricsTick \<or> ev = HeartbeatTick \<or>
      (\<exists>now cmd. ev = Message (Inr (Some (to_pb_command now cmd))))" by auto
  obtain res y' os' where s: "session (daemon_peer sample_store (\<lambda>_. 40)) sample_machine default_agent_config
      sample_info (executor_new ''n1'' False) ?es (y, os) = (res, (y', os'))"
    by (metis prod_cases3)
  from session_stays_up [OF sample_lawful sample_reliable sample_local info es m h s] have "res = Running" by blast
  then show ?thesis unfolding w s by simp
qed

end
