(* ===== verification/Bench.thy ===== *)
theory Bench
  imports Config
begin

text \<open>
  The benchmark suite, \<open>hpc-bench/src/lib.rs\<close>. Every call to the file system, the clock and the
  random generator is appended to a history, and an arbitrary function of the history answers it,
  so a statement about the calls of a run holds for every environment. A histogram is the list of
  the values recorded in it; its statistics are arguments.
\<close>

section \<open>Environment\<close>

datatype io_call =
    CreateDirAll string
  | OpenTruncate string
  | OpenReadWrite string
  | OpenRead string
  | Seek u64
  | WriteAll "u8 list"
  | ReadExact nat
  | Flush
  | SyncAll
  | SyncData
  | RemoveFile string
  | InstantNow
  | NowUnix
  | RandomRange u64

datatype io_reply = Done | Failed string | At nat | Unix u64 | Drawn u64

type_synonym history = "io_call list"
type_synonym io_env = "history \<Rightarrow> io_reply"

definition do_call :: "io_env \<Rightarrow> io_call \<Rightarrow> history \<Rightarrow> io_reply \<times> history" where
  "do_call env c h = (env (h @ [c]), h @ [c])"

text \<open>A call that may fail, with \<open>map_err(|e| HpcError::io_at(path, e))\<close>.\<close>

definition io_call_at :: "io_env \<Rightarrow> string \<Rightarrow> io_call \<Rightarrow> history \<Rightarrow> unit result \<times> history" where
  "io_call_at env path c h =
     (case do_call env c h of
        (Failed e, h') \<Rightarrow> (Inl (io_at path e), h')
      | (_, h') \<Rightarrow> (Inr (), h'))"

definition instant_now :: "io_env \<Rightarrow> history \<Rightarrow> nat \<times> history" where
  "instant_now env h = (case do_call env InstantNow h of (At t, h') \<Rightarrow> (t, h') | (_, h') \<Rightarrow> (0, h'))"

record bench_tools =
  bt_hist_init :: "string + unit"
  bt_min :: "u64 list \<Rightarrow> u64"
  bt_max :: "u64 list \<Rightarrow> u64"
  bt_quantile :: "f64 \<Rightarrow> u64 list \<Rightarrow> u64"
  bt_mean :: "u64 list \<Rightarrow> f64"
  bt_len :: "u64 list \<Rightarrow> u64"

section \<open>Options\<close>

definition MAX_LATENCY_US :: u64 where
  "MAX_LATENCY_US = 60000000"

definition PREP_CHUNK :: u64 where
  "PREP_CHUNK = 2 ^ 20"

record bench_options =
  bo_path :: string
  bo_block_size :: u64
  bo_file_size :: u64
  bo_patterns :: "io_pattern list"
  bo_fsync :: bool

definition default_bench_options :: bench_options where
  "default_bench_options = \<lparr>bo_path = ''.'', bo_block_size = 4096, bo_file_size = 64 * 1024 * 1024,
     bo_patterns = [SequentialWrite, SequentialRead, RandomWrite, RandomRead], bo_fsync = False\<rparr>"

definition bench_validate :: "bench_options \<Rightarrow> unit result" where
  "bench_validate opts =
     (if bo_block_size opts = 0 then Inl (BenchErr ''block_size must be non-zero'')
      else if bo_file_size opts < bo_block_size opts
      then Inl (BenchErr ''file_size must be at least block_size'')
      else Inr ())"

definition bench_blocks :: "bench_options \<Rightarrow> u64" where
  "bench_blocks opts = max (bo_file_size opts div bo_block_size opts) 1"

section \<open>Scratch file\<close>

text \<open>The loop of \<open>prepare_file\<close>.\<close>

function prep_loop :: "io_env \<Rightarrow> string \<Rightarrow> u64 \<Rightarrow> history \<Rightarrow> unit result \<times> history" where
  "prep_loop env path remaining h =
     (if remaining = 0 then (Inr (), h)
      else let n = min remaining PREP_CHUNK in
           try_then (io_call_at env path (WriteAll (replicate (unat n) 0)) h)
             (\<lambda>_ h. prep_loop env path (remaining - n) h))"
  by auto
termination
proof (relation "measure (\<lambda>(env, path, remaining, h). unat remaining)")
  fix remaining n :: u64 and env :: io_env and path h h'
  assume "remaining \<noteq> 0" "n = min remaining PREP_CHUNK"
  then have "0 < n" "n \<le> remaining" by (auto simp: word_gt_0 PREP_CHUNK_def min_def)
  then show "((env, path, remaining - n, h'), env, path, remaining, h) \<in>
      measure (\<lambda>(env, path, remaining, h). unat remaining)"
    by (simp add: unat_sub word_le_nat_alt word_less_nat_alt)
qed simp

declare prep_loop.simps [simp del]

definition prepare_file :: "io_env \<Rightarrow> string \<Rightarrow> u64 \<Rightarrow> history \<Rightarrow> unit result \<times> history" where
  "prepare_file env path len h =
     try_then (io_call_at env path (OpenTruncate path) h) (\<lambda>_ h.
     try_then (prep_loop env path len h) (\<lambda>_ h.
     try_then (io_call_at env path Flush h) (\<lambda>_ h.
     io_call_at env path SyncAll h)))"

section \<open>Scenarios\<close>

definition block_offset :: "io_env \<Rightarrow> u64 \<Rightarrow> u64 \<Rightarrow> bool \<Rightarrow> u64 \<Rightarrow> history \<Rightarrow> u64 \<times> history" where
  "block_offset env i blocks random block_size h =
     (let (index, h) =
        (if random
         then (case do_call env (RandomRange blocks) h of (Drawn x, h') \<Rightarrow> (x, h') | (_, h') \<Rightarrow> (0, h'))
         else (i, h))
      in (index * block_size, h))"

definition fill_block :: "nat \<Rightarrow> u8 list" where
  "fill_block len = map (\<lambda>i. of_nat (i mod 251)) [0..<len]"

definition new_histogram :: "bench_tools \<Rightarrow> u64 list result" where
  "new_histogram T = (case bt_hist_init T of
     Inl e \<Rightarrow> Inl (BenchErr (''histogram init: '' @ e)) | Inr _ \<Rightarrow> Inr [])"

text \<open>\<open>elapsed\<close> in nanoseconds.\<close>

definition record_latency :: "u64 list \<Rightarrow> nat \<Rightarrow> u64 list" where
  "record_latency hist elapsed =
     (let us = of_nat (min (elapsed div 1000) (unat MAX_LATENCY_US)) :: u64 in hist @ [max us 1])"

definition summarise :: "bench_tools \<Rightarrow> io_pattern \<Rightarrow> u64 \<Rightarrow> u64 \<Rightarrow> f64 \<Rightarrow> u64 list \<Rightarrow> bench_result" where
  "summarise T pattern block_size blocks elapsed hist =
     (let total_bytes = blocks * block_size;
          throughput = (if f64_zero < elapsed
             then f64_div (f64_div (f64_of_u64 total_bytes) (f64_mul (f64_lit 1024 1) (f64_lit 1024 1))) elapsed
             else f64_zero);
          ops = (if f64_zero < elapsed then f64_div (f64_of_u64 blocks) elapsed else f64_zero)
      in \<lparr>br_pattern = pattern, block_size_bytes = block_size, br_total_bytes = total_bytes,
          duration_secs = elapsed, throughput_mib_s = throughput, iops = ops,
          latency = \<lparr>min_us = bt_min T hist, p50_us = bt_quantile T (f64_lit 50 100) hist,
            p90_us = bt_quantile T (f64_lit 90 100) hist, p99_us = bt_quantile T (f64_lit 99 100) hist,
            p999_us = bt_quantile T (f64_lit 999 1000) hist, max_us = bt_max T hist,
            mean_us = f64_to_u64 (bt_mean T hist), samples = bt_len T hist\<rparr>\<rparr>)"

text \<open>The loops over the blocks; the list holds the indexes still to do.\<close>

fun write_ops ::
  "io_env \<Rightarrow> bench_options \<Rightarrow> string \<Rightarrow> bool \<Rightarrow> u64 \<Rightarrow> u8 list \<Rightarrow> nat list \<Rightarrow> u64 list \<Rightarrow> history \<Rightarrow> u64 list result \<times> history" where
  "write_ops env opts path random blocks block [] hist h = (Inr hist, h)"
| "write_ops env opts path random blocks block (i # is) hist h =
     (let (offset, h) = block_offset env (of_nat i) blocks random (bo_block_size opts) h in
      try_then (io_call_at env path (Seek offset) h) (\<lambda>_ h.
      let (op, h) = instant_now env h in
      try_then (io_call_at env path (WriteAll block) h) (\<lambda>_ h.
      try_then (if bo_fsync opts then io_call_at env path SyncData h else (Inr (), h)) (\<lambda>_ h.
      let (now, h) = instant_now env h in
      write_ops env opts path random blocks block is (record_latency hist (now - op)) h))))"

fun read_ops ::
  "io_env \<Rightarrow> bench_options \<Rightarrow> string \<Rightarrow> bool \<Rightarrow> u64 \<Rightarrow> nat list \<Rightarrow> u64 list \<Rightarrow> history \<Rightarrow> u64 list result \<times> history" where
  "read_ops env opts path random blocks [] hist h = (Inr hist, h)"
| "read_ops env opts path random blocks (i # is) hist h =
     (let (offset, h) = block_offset env (of_nat i) blocks random (bo_block_size opts) h in
      try_then (io_call_at env path (Seek offset) h) (\<lambda>_ h.
      let (op, h) = instant_now env h in
      try_then (io_call_at env path (ReadExact (unat (bo_block_size opts))) h) (\<lambda>_ h.
      let (now, h) = instant_now env h in
      read_ops env opts path random blocks is (record_latency hist (now - op)) h)))"

definition write_scenario ::
  "io_env \<Rightarrow> bench_tools \<Rightarrow> string \<Rightarrow> bench_options \<Rightarrow> bool \<Rightarrow> history \<Rightarrow> bench_result result \<times> history" where
  "write_scenario env T path opts random h =
     try_then (io_call_at env path (OpenReadWrite path) h) (\<lambda>_ h.
     let block = fill_block (unat (bo_block_size opts)); blocks = bench_blocks opts in
     try_then (new_histogram T, h) (\<lambda>hist h.
     let (started, h) = instant_now env h in
     try_then (write_ops env opts path random blocks block [0..<unat blocks] hist h) (\<lambda>hist h.
     try_then (io_call_at env path Flush h) (\<lambda>_ h.
     let (now, h) = instant_now env h in
     (Inr (summarise T (if random then RandomWrite else SequentialWrite) (bo_block_size opts) blocks
        (as_secs_f64 (now - started)) hist), h)))))"

definition read_scenario ::
  "io_env \<Rightarrow> bench_tools \<Rightarrow> string \<Rightarrow> bench_options \<Rightarrow> bool \<Rightarrow> history \<Rightarrow> bench_result result \<times> history" where
  "read_scenario env T path opts random h =
     try_then (io_call_at env path (OpenRead path) h) (\<lambda>_ h.
     let blocks = bench_blocks opts in
     try_then (new_histogram T, h) (\<lambda>hist h.
     let (started, h) = instant_now env h in
     try_then (read_ops env opts path random blocks [0..<unat blocks] hist h) (\<lambda>hist h.
     let (now, h) = instant_now env h in
     (Inr (summarise T (if random then RandomRead else SequentialRead) (bo_block_size opts) blocks
        (as_secs_f64 (now - started)) hist), h))))"

fun run_pattern ::
  "io_env \<Rightarrow> bench_tools \<Rightarrow> string \<Rightarrow> io_pattern \<Rightarrow> bench_options \<Rightarrow> history \<Rightarrow> bench_result result \<times> history" where
  "run_pattern env T path SequentialWrite opts h = write_scenario env T path opts False h"
| "run_pattern env T path RandomWrite opts h = write_scenario env T path opts True h"
| "run_pattern env T path SequentialRead opts h = read_scenario env T path opts False h"
| "run_pattern env T path RandomRead opts h = read_scenario env T path opts True h"

section \<open>The suite\<close>

text \<open>The loop over the patterns; a failure removes the scratch file, whose result is ignored.\<close>

fun run_patterns ::
  "io_env \<Rightarrow> bench_tools \<Rightarrow> string \<Rightarrow> bench_options \<Rightarrow> io_pattern list \<Rightarrow> history \<Rightarrow> bench_result list result \<times> history" where
  "run_patterns env T path opts [] h = (Inr [], h)"
| "run_patterns env T path opts (pattern # ps) h =
     (case run_pattern env T path pattern opts h of
        (Inr r, h) \<Rightarrow>
          (case run_patterns env T path opts ps h of
             (Inr rs, h) \<Rightarrow> (Inr (r # rs), h)
           | (Inl e, h) \<Rightarrow> (Inl e, h))
      | (Inl e, h) \<Rightarrow> (Inl e, snd (do_call env (RemoveFile path) h)))"

definition scratch_path :: "bench_options \<Rightarrow> string" where
  "scratch_path opts = path_join (bo_path opts) ''.hpc-bench.dat''"

definition bench_run :: "io_env \<Rightarrow> bench_tools \<Rightarrow> bench_options \<Rightarrow> history \<Rightarrow> bench_report result \<times> history" where
  "bench_run env T opts h =
     try_then (bench_validate opts, h) (\<lambda>_ h.
     try_then (io_call_at env (bo_path opts) (CreateDirAll (bo_path opts)) h) (\<lambda>_ h.
     let file_path = scratch_path opts in
     try_then (prepare_file env file_path (bo_file_size opts) h) (\<lambda>_ h.
     try_then (run_patterns env T file_path opts (bo_patterns opts) h) (\<lambda>results h.
     let (_, h) = do_call env (RemoveFile file_path) h;
         (started, h) = (case do_call env NowUnix h of (Unix t, h') \<Rightarrow> (t, h') | (_, h') \<Rightarrow> (0, h'))
     in (Inr \<lparr>bp_target_path = bo_path opts, bp_started_at_unix = started, bp_results = results\<rparr>, h)))))"

end
