(* ===== verification/Bench_Props.thy ===== *)
theory Bench_Props
  imports Bench
begin

text \<open>
  What a benchmark run does to the machine, in every environment: it stays inside the file it
  prepared, removes it, and reports on every operation it timed.
\<close>

section \<open>Histories\<close>

text \<open>The reply of a call that may fail; every operation appends its calls to the history.\<close>

definition io_result :: "io_env \<Rightarrow> string \<Rightarrow> io_call \<Rightarrow> history \<Rightarrow> unit result" where
  "io_result env path c h = (case env (h @ [c]) of Failed e \<Rightarrow> Inl (io_at path e) | _ \<Rightarrow> Inr ())"

lemma io_call_at_eq: "io_call_at env path c h = (io_result env path c h, h @ [c])"
  by (simp add: io_call_at_def io_result_def do_call_def split: io_reply.split)

lemma instant_now_snd: "\<exists>t. instant_now env h = (t, h @ [InstantNow])"
  by (auto simp: instant_now_def do_call_def split: io_reply.split)

lemma do_call_snd [simp]: "snd (do_call env c h) = h @ [c]"
  by (simp add: do_call_def)

definition time_at :: "io_env \<Rightarrow> history \<Rightarrow> nat" where
  "time_at env h = fst (instant_now env h)"

lemma instant_now_eq: "instant_now env h = (time_at env h, h @ [InstantNow])"
  using instant_now_snd [of env h] by (auto simp: time_at_def)

lemma try_then_pair: "try_then (r, s) f = (case r of Inl e \<Rightarrow> (Inl e, s) | Inr a \<Rightarrow> f a s)"
  by (simp add: try_then_def split: sum.split)

lemmas run_simps = io_call_at_eq instant_now_eq try_then_pair Let_def

section \<open>The file cursor\<close>

text \<open>The offset up to which each call reads or writes the scratch file.\<close>

fun move :: "io_call \<Rightarrow> nat \<Rightarrow> nat" where
  "move (OpenTruncate _) p = 0"
| "move (OpenReadWrite _) p = 0"
| "move (OpenRead _) p = 0"
| "move (Seek off) p = unat off"
| "move (WriteAll bs) p = p + length bs"
| "move (ReadExact n) p = p + n"
| "move _ p = p"

fun touches :: "nat \<Rightarrow> history \<Rightarrow> nat list" where
  "touches p [] = []"
| "touches p (c # cs) = move c p # touches (move c p) cs"

definition cursor :: "history \<Rightarrow> nat" where
  "cursor h = fold move h 0"

definition inside :: "nat \<Rightarrow> history \<Rightarrow> bool" where
  "inside n h \<longleftrightarrow> (\<forall>x \<in> set (touches 0 h). x \<le> n)"

lemma touches_append: "touches p (a @ b) = touches p a @ touches (fold move a p) b"
  by (induction a arbitrary: p) simp_all

lemma inside_append [simp]: "inside n (h @ cs) \<longleftrightarrow> inside n h \<and> (\<forall>x \<in> set (touches (cursor h) cs). x \<le> n)"
  by (auto simp: inside_def cursor_def touches_append)

lemma cursor_append [simp]: "cursor (h @ cs) = fold move cs (cursor h)"
  by (simp add: cursor_def)

lemma inside_cursor: "inside n h \<Longrightarrow> cursor h \<le> n"
  by (induction h rule: rev_induct) (simp_all add: cursor_def)

lemma inside_Nil [simp]: "inside n []"
  by (simp add: inside_def)

section \<open>Scenarios\<close>

text \<open>What the documentation of \<open>random_range\<close> promises.\<close>

definition draws_in_range :: "io_env \<Rightarrow> bool" where
  "draws_in_range env \<longleftrightarrow> (\<forall>h n. 0 < n \<longrightarrow> (\<exists>x < n. env (h @ [RandomRange n]) = Drawn x))"

lemma valid_blocks:
  assumes "bench_validate opts = Inr ()"
  shows "0 < unat (bo_block_size opts)" and "0 < unat (bench_blocks opts)"
    and "unat (bench_blocks opts) = unat (bo_file_size opts) div unat (bo_block_size opts)"
    and "unat (bench_blocks opts) * unat (bo_block_size opts) \<le> unat (bo_file_size opts)"
proof -
  have v: "bo_block_size opts \<noteq> 0" "bo_block_size opts \<le> bo_file_size opts"
    using assms by (auto simp: bench_validate_def not_less split: if_splits)
  then show bs: "0 < unat (bo_block_size opts)" by (simp add: unat_gt_0)
  have q: "0 < unat (bo_file_size opts) div unat (bo_block_size opts)"
    using v(2) bs by (simp add: div_greater_zero_iff word_le_nat_alt)
  have u: "unat (bo_file_size opts div bo_block_size opts) = unat (bo_file_size opts) div unat (bo_block_size opts)"
    by (rule unat_div)
  then have "1 \<le> bo_file_size opts div bo_block_size opts" using q by (simp add: word_le_nat_alt)
  then show b: "unat (bench_blocks opts) = unat (bo_file_size opts) div unat (bo_block_size opts)"
    using u by (simp add: bench_blocks_def max_def)
  show "0 < unat (bench_blocks opts)" using b q by simp
  show "unat (bench_blocks opts) * unat (bo_block_size opts) \<le> unat (bo_file_size opts)"
    unfolding b by simp
qed

lemma total_bytes_exact:
  assumes "bench_validate opts = Inr ()"
  shows "unat (bench_blocks opts * bo_block_size opts) =
    unat (bo_file_size opts) div unat (bo_block_size opts) * unat (bo_block_size opts)"
proof -
  have "unat (bench_blocks opts * bo_block_size opts) = unat (bench_blocks opts) * unat (bo_block_size opts)"
    using valid_blocks(4) [OF assms] unsigned_less [of "bo_file_size opts", where ?'a = nat]
    by (intro unat_mult_lem [THEN iffD1]) simp
  then show ?thesis by (simp add: valid_blocks(3) [OF assms])
qed

lemma block_fits:
  assumes v: "bench_validate opts = Inr ()" and i: "i < bench_blocks opts"
  shows "unat (i * bo_block_size opts) + unat (bo_block_size opts) \<le> unat (bo_file_size opts)"
proof -
  have "unat i + 1 \<le> unat (bench_blocks opts)" using i by (simp add: word_less_nat_alt)
  then have "(unat i + 1) * unat (bo_block_size opts) \<le> unat (bench_blocks opts) * unat (bo_block_size opts)"
    by (rule mult_le_mono1)
  also have "\<dots> \<le> unat (bo_file_size opts)" by (rule valid_blocks(4) [OF v])
  finally have le: "unat i * unat (bo_block_size opts) + unat (bo_block_size opts) \<le> unat (bo_file_size opts)"
    by simp
  moreover have "unat (bo_file_size opts) < 2 ^ 64"
    using unsigned_less [of "bo_file_size opts", where ?'a = nat] by simp
  ultimately have "unat (i * bo_block_size opts) = unat i * unat (bo_block_size opts)"
    by (subst unat_mult_lem [THEN iffD1]) auto
  then show ?thesis using le by simp
qed

lemma block_offset_fits:
  assumes "bench_validate opts = Inr ()" and "draws_in_range env" and "i < unat (bench_blocks opts)"
  obtains off cs where
    "block_offset env (of_nat i) (bench_blocks opts) random (bo_block_size opts) h = (off, h @ cs)"
    "unat off + unat (bo_block_size opts) \<le> unat (bo_file_size opts)"
    "set cs \<subseteq> {RandomRange (bench_blocks opts)}"
proof (cases random)
  case True
  have "0 < bench_blocks opts" using valid_blocks(2) [OF assms(1)] by (simp add: word_less_nat_alt)
  then obtain x where "x < bench_blocks opts" "env (h @ [RandomRange (bench_blocks opts)]) = Drawn x"
    using assms(2) by (auto simp: draws_in_range_def)
  then show thesis
    using that [of "x * bo_block_size opts" "[RandomRange (bench_blocks opts)]"] block_fits [OF assms(1)] True
    by (simp add: block_offset_def do_call_def)
next
  case False
  have "unat (of_nat i :: u64) = i"
    using assms(3) unsigned_less [of "bench_blocks opts", where ?'a = nat] by (intro unat_of_nat_u64) simp
  then have "(of_nat i :: u64) < bench_blocks opts" using assms(3) by (simp add: word_less_nat_alt)
  then show thesis
    using that [of "of_nat i * bo_block_size opts" "[]"] block_fits [OF assms(1)] False
    by (simp add: block_offset_def)
qed

text \<open>A scenario is quiet: it neither leaves the file nor removes it.\<close>

fun is_remove :: "io_call \<Rightarrow> bool" where
  "is_remove (RemoveFile _) \<longleftrightarrow> True"
| "is_remove _ \<longleftrightarrow> False"

definition quiet :: "nat \<Rightarrow> history \<Rightarrow> history \<Rightarrow> bool" where
  "quiet n h h' \<longleftrightarrow> (inside n h \<longrightarrow> inside n h') \<and> (\<exists>cs. h' = h @ cs \<and> list_all (\<lambda>c. \<not> is_remove c) cs)"

lemma quiet_refl [simp]: "quiet n h h"
  by (simp add: quiet_def)

lemma quiet_trans: "quiet n h h1 \<Longrightarrow> quiet n h1 h2 \<Longrightarrow> quiet n h h2"
  by (auto simp: quiet_def)

lemma quiet_inside: "quiet n h h' \<Longrightarrow> inside n h \<Longrightarrow> inside n h'"
  by (simp add: quiet_def)

lemma inside_remove: "inside n h \<Longrightarrow> inside n (h @ [RemoveFile path])"
  using inside_cursor [of n h] by simp

lemma quiet_calls: "list_all (\<lambda>c. \<not> is_remove c) cs \<Longrightarrow> (inside n h \<Longrightarrow> inside n (h @ cs)) \<Longrightarrow> quiet n h (h @ cs)"
  by (auto simp: quiet_def)

lemma random_still: "set cs \<subseteq> {RandomRange b} \<Longrightarrow> touches p cs = replicate (length cs) p \<and> fold move cs p = p"
  by (induction cs) auto

lemma block_quiet:
  assumes cs: "set cs \<subseteq> {RandomRange b}" and "list_all (\<lambda>c. \<not> is_remove c) ds"
    and "\<forall>p. \<forall>x \<in> set (touches p ds). x = p \<or> x \<le> n"
  shows "quiet n h (h @ cs @ ds)"
proof -
  have "list_all (\<lambda>c. \<not> is_remove c) cs" using cs by (auto simp: list_all_iff)
  then show ?thesis
    using assms(2,3) random_still [OF cs, of "cursor h"] inside_cursor [of n h]
    by (intro quiet_calls) (auto simp: touches_append dest!: bspec)
qed

lemma write_ops_quiet:
  assumes "bench_validate opts = Inr ()" and "draws_in_range env"
    and "length block = unat (bo_block_size opts)"
    and "\<forall>i \<in> set is. i < unat (bench_blocks opts)"
  shows "quiet (unat (bo_file_size opts)) h (snd (write_ops env opts path random (bench_blocks opts) block is hist h))"
  using assms(4)
proof (induction "is" arbitrary: hist h)
  case (Cons i "is")
  obtain off cs where o: "block_offset env (of_nat i) (bench_blocks opts) random (bo_block_size opts) h = (off, h @ cs)"
    "unat off + unat (bo_block_size opts) \<le> unat (bo_file_size opts)" "set cs \<subseteq> {RandomRange (bench_blocks opts)}"
    using block_offset_fits [OF assms(1,2)] Cons.prems by (metis list.set_intros(1))
  have later: "\<forall>i \<in> set is. i < unat (bench_blocks opts)" using Cons.prems by simp
  show ?case
    by (simp add: run_simps o(1) split: sum.split)
      (intro conjI impI allI; (rule quiet_trans [OF block_quiet [OF o(3)] Cons.IH [OF later]] | rule block_quiet [OF o(3)]);
        use o(2) assms(3) in simp)
qed simp

lemma read_ops_quiet:
  assumes "bench_validate opts = Inr ()" and "draws_in_range env"
    and "\<forall>i \<in> set is. i < unat (bench_blocks opts)"
  shows "quiet (unat (bo_file_size opts)) h (snd (read_ops env opts path random (bench_blocks opts) is hist h))"
  using assms(3)
proof (induction "is" arbitrary: hist h)
  case (Cons i "is")
  obtain off cs where o: "block_offset env (of_nat i) (bench_blocks opts) random (bo_block_size opts) h = (off, h @ cs)"
    "unat off + unat (bo_block_size opts) \<le> unat (bo_file_size opts)" "set cs \<subseteq> {RandomRange (bench_blocks opts)}"
    using block_offset_fits [OF assms(1,2)] Cons.prems by (metis list.set_intros(1))
  have later: "\<forall>i \<in> set is. i < unat (bench_blocks opts)" using Cons.prems by simp
  show ?case
    by (simp add: run_simps o(1) split: sum.split)
      (intro conjI impI allI; (rule quiet_trans [OF block_quiet [OF o(3)] Cons.IH [OF later]] | rule block_quiet [OF o(3)]);
        use o(2) in simp)
qed simp

lemma plain_quiet: "list_all (\<lambda>c. \<not> is_remove c) ds \<Longrightarrow> \<forall>p. \<forall>x \<in> set (touches p ds). x = p \<or> x \<le> n \<Longrightarrow> quiet n h (h @ ds)"
  using block_quiet [of "[]"] by simp

lemma quiet_then:
  "quiet n h (snd m) \<Longrightarrow> (\<And>a s. quiet n h s \<Longrightarrow> quiet n h (snd (f a s))) \<Longrightarrow> quiet n h (snd (try_then m f))"
  by (rule try_then_invariant)

lemma quiet_call: "\<not> is_remove c \<Longrightarrow> \<forall>p. move c p = p \<or> move c p \<le> n \<Longrightarrow> quiet n h s \<Longrightarrow>
    quiet n h (snd (io_call_at env path c s))"
  by (rule quiet_trans) (auto simp: io_call_at_eq intro!: plain_quiet)

lemma quiet_now: "quiet n h s \<Longrightarrow> quiet n h (s @ [InstantNow])"
  by (rule quiet_trans, assumption) (rule plain_quiet, simp_all)

lemma fill_block_length [simp]: "length (fill_block n) = n"
  by (simp add: fill_block_def)

lemma run_pattern_quiet:
  assumes v: "bench_validate opts = Inr ()" and d: "draws_in_range env"
  shows "quiet (unat (bo_file_size opts)) h (snd (run_pattern env T path pattern opts h))"
proof -
  note ops = quiet_trans [OF _ write_ops_quiet [OF v d]] quiet_trans [OF _ read_ops_quiet [OF v d]]
  have "quiet (unat (bo_file_size opts)) h (snd (write_scenario env T path opts random h))" for random
    unfolding write_scenario_def instant_now_eq Let_def prod.case
    by (intro quiet_then quiet_call ops) (simp_all add: quiet_now)
  moreover have "quiet (unat (bo_file_size opts)) h (snd (read_scenario env T path opts random h))" for random
    unfolding read_scenario_def instant_now_eq Let_def prod.case
    by (intro quiet_then quiet_call ops) (simp_all add: quiet_now)
  ultimately show ?thesis by (cases pattern) simp_all
qed

section \<open>Measurements\<close>

definition timed :: "u64 \<Rightarrow> bool" where
  "timed x \<longleftrightarrow> 1 \<le> x \<and> x \<le> MAX_LATENCY_US"

lemma record_timed: "list_all timed hist \<Longrightarrow> list_all timed (record_latency hist ns)"
proof -
  have "of_nat (min (ns div 1000) (unat MAX_LATENCY_US)) \<le> MAX_LATENCY_US"
    by (simp add: word_le_nat_alt MAX_LATENCY_US_def min_def unsigned_of_nat take_bit_nat_eq_self)
  then show "list_all timed hist \<Longrightarrow> ?thesis"
    by (simp add: record_latency_def timed_def MAX_LATENCY_US_def Let_def)
qed

lemma record_length [simp]: "length (record_latency hist ns) = Suc (length hist)"
  by (simp add: record_latency_def Let_def)

lemma write_ops_hist:
  "fst (write_ops env opts path random blocks block is hist h) = Inr hist' \<Longrightarrow>
     length hist' = length hist + length is \<and> (list_all timed hist \<longrightarrow> list_all timed hist')"
proof (induction "is" arbitrary: hist h)
  case (Cons i "is")
  obtain off h1 where "block_offset env (of_nat i) blocks random (bo_block_size opts) h = (off, h1)" by fastforce
  with Cons.prems show ?case
    by (auto simp: run_simps split: sum.splits if_splits dest!: Cons.IH intro: record_timed)
qed simp

lemma read_ops_hist:
  "fst (read_ops env opts path random blocks is hist h) = Inr hist' \<Longrightarrow>
     length hist' = length hist + length is \<and> (list_all timed hist \<longrightarrow> list_all timed hist')"
proof (induction "is" arbitrary: hist h)
  case (Cons i "is")
  obtain off h1 where "block_offset env (of_nat i) blocks random (bo_block_size opts) h = (off, h1)" by fastforce
  with Cons.prems show ?case
    by (auto simp: run_simps split: sum.splits if_splits dest!: Cons.IH intro: record_timed)
qed simp

text \<open>A result that stands for one timed operation per block.\<close>

definition measured :: "bench_tools \<Rightarrow> bench_options \<Rightarrow> io_pattern \<Rightarrow> bench_result \<Rightarrow> bool" where
  "measured T opts pattern r \<longleftrightarrow> (\<exists>elapsed hist.
     r = summarise T pattern (bo_block_size opts) (bench_blocks opts) elapsed hist \<and>
     length hist = unat (bench_blocks opts) \<and> list_all timed hist)"

lemma summarise_fields:
  "br_total_bytes (summarise T pattern bs blocks elapsed hist) = blocks * bs"
  "samples (latency (summarise T pattern bs blocks elapsed hist)) = bt_len T hist"
  by (simp_all add: summarise_def Let_def)

lemma list_all2_member: "list_all2 P xs ys \<Longrightarrow> y \<in> set ys \<Longrightarrow> \<exists>x \<in> set xs. P x y"
  by (induction xs ys rule: list_all2_induct) auto

lemma new_histogram_empty: "new_histogram T = Inr hist \<Longrightarrow> hist = []"
  by (simp add: new_histogram_def split: sum.splits)

lemma write_scenario_measured:
  assumes "fst (write_scenario env T path opts random h) = Inr r"
  shows "measured T opts (if random then RandomWrite else SequentialWrite) r"
proof -
  let ?h = "h @ [OpenReadWrite path, InstantNow]"
  obtain res h2 where w: "write_ops env opts path random (bench_blocks opts)
      (fill_block (unat (bo_block_size opts))) [0..<unat (bench_blocks opts)] [] ?h = (res, h2)" by fastforce
  have "new_histogram T = Inr []"
    using assms new_histogram_empty [of T]
    by (auto simp: write_scenario_def run_simps split: sum.splits)
  then obtain hist e where "res = Inr hist"
    "r = summarise T (if random then RandomWrite else SequentialWrite) (bo_block_size opts) (bench_blocks opts) e hist"
    using assms w by (auto simp: write_scenario_def run_simps split: sum.splits)
  moreover from this(1) have "length hist = unat (bench_blocks opts) \<and> list_all timed hist"
    using write_ops_hist [of env opts path random "bench_blocks opts" "fill_block (unat (bo_block_size opts))"
        "[0..<unat (bench_blocks opts)]" "[]" ?h hist] w by simp
  ultimately show ?thesis unfolding measured_def by blast
qed

lemma read_scenario_measured:
  assumes "fst (read_scenario env T path opts random h) = Inr r"
  shows "measured T opts (if random then RandomRead else SequentialRead) r"
proof -
  let ?h = "h @ [OpenRead path, InstantNow]"
  obtain res h2 where w: "read_ops env opts path random (bench_blocks opts)
      [0..<unat (bench_blocks opts)] [] ?h = (res, h2)" by fastforce
  have "new_histogram T = Inr []"
    using assms new_histogram_empty [of T]
    by (auto simp: read_scenario_def run_simps split: sum.splits)
  then obtain hist e where "res = Inr hist"
    "r = summarise T (if random then RandomRead else SequentialRead) (bo_block_size opts) (bench_blocks opts) e hist"
    using assms w by (auto simp: read_scenario_def run_simps split: sum.splits)
  moreover from this(1) have "length hist = unat (bench_blocks opts) \<and> list_all timed hist"
    using read_ops_hist [of env opts path random "bench_blocks opts"
        "[0..<unat (bench_blocks opts)]" "[]" ?h hist] w by simp
  ultimately show ?thesis unfolding measured_def by blast
qed

lemma run_pattern_measured: "fst (run_pattern env T path pattern opts h) = Inr r \<Longrightarrow> measured T opts pattern r"
  using write_scenario_measured [of env T path opts False h r] write_scenario_measured [of env T path opts True h r]
    read_scenario_measured [of env T path opts False h r] read_scenario_measured [of env T path opts True h r]
  by (cases pattern) simp_all

lemma run_patterns_measured:
  "fst (run_patterns env T path opts ps h) = Inr rs \<Longrightarrow> list_all2 (measured T opts) ps rs"
proof (induction ps arbitrary: h rs)
  case (Cons p ps)
  obtain res h1 where r: "run_pattern env T path p opts h = (res, h1)" by fastforce
  obtain res2 h2 where r2: "run_patterns env T path opts ps h1 = (res2, h2)" by fastforce
  show ?case
    using Cons.prems r r2 run_pattern_measured [of env T path p opts h] Cons.IH [of h1]
    by (cases res; cases res2) (auto simp: r2)
qed simp

section \<open>Preparation and cleanup\<close>

lemma prep_loop_calls:
  "\<exists>r ws. prep_loop env path remaining h = (r, h @ map WriteAll ws) \<and>
     length (concat ws) \<le> unat remaining \<and> (\<forall>w \<in> set ws. length w \<le> unat PREP_CHUNK) \<and>
     (r = Inr () \<longrightarrow> concat ws = replicate (unat remaining) 0)"
proof (induction env path remaining h rule: prep_loop.induct)
  case (1 env path remaining h)
  show ?case
  proof (cases "remaining = 0")
    case False
    define n where "n = min remaining PREP_CHUNK"
    have n: "unat n \<le> unat remaining" "unat n \<le> unat PREP_CHUNK" "unat (remaining - n) = unat remaining - unat n"
      by (auto simp: n_def unat_sub word_le_nat_alt min_def)
    let ?c = "WriteAll (replicate (unat n) 0)"
    show ?thesis
    proof (cases "io_result env path ?c h")
      case (Inl e)
      then have "prep_loop env path remaining h = (Inl e, h @ map WriteAll [replicate (unat n) 0])"
        using False by (subst prep_loop.simps) (simp add: run_simps flip: n_def)
      then show ?thesis using n by (intro exI [of _ "Inl e"] exI [of _ "[replicate (unat n) 0]"]) simp
    next
      case (Inr u)
      obtain r ws where ih: "prep_loop env path (remaining - n) (h @ [?c]) = (r, (h @ [?c]) @ map WriteAll ws)"
        "length (concat ws) \<le> unat (remaining - n)" "\<forall>w \<in> set ws. length w \<le> unat PREP_CHUNK"
        "r = Inr () \<longrightarrow> concat ws = replicate (unat (remaining - n)) 0"
        using 1 [OF False n_def] by blast
      have "prep_loop env path remaining h = (r, h @ map WriteAll (replicate (unat n) 0 # ws))"
        using False Inr ih(1) by (subst prep_loop.simps) (simp add: run_simps flip: n_def)
      moreover have "replicate (unat n) (0 :: u8) @ replicate (unat remaining - unat n) 0 = replicate (unat remaining) 0"
        using n(1) by (simp flip: replicate_add)
      ultimately show ?thesis
        using ih n by (intro exI [of _ r] exI [of _ "replicate (unat n) 0 # ws"]) auto
    qed
  qed (simp add: prep_loop.simps)
qed

lemma writes_touch: "x \<in> set (touches p (map WriteAll ws)) \<Longrightarrow> x \<le> p + length (concat ws)"
  by (induction ws arbitrary: p) force+

lemma prepare_file_calls:
  obtains r ws ds where "prepare_file env path len h = (r, h @ OpenTruncate path # map WriteAll ws @ ds)"
    "length (concat ws) \<le> unat len" "\<forall>w \<in> set ws. length w \<le> unat PREP_CHUNK" "set ds \<subseteq> {Flush, SyncAll}"
    "r = Inr () \<longrightarrow> concat ws = replicate (unat len) 0 \<and> ds = [Flush, SyncAll]"
proof (cases "io_result env path (OpenTruncate path) h")
  case (Inl e)
  show thesis
    by (rule that [of "Inl e" "[]" "[]"]) (use Inl in \<open>simp_all add: prepare_file_def run_simps\<close>)
next
  case open_ok: (Inr u)
  obtain r ws where l: "prep_loop env path len (h @ [OpenTruncate path]) = (r, (h @ [OpenTruncate path]) @ map WriteAll ws)"
    "length (concat ws) \<le> unat len" "\<forall>w \<in> set ws. length w \<le> unat PREP_CHUNK"
    "r = Inr () \<longrightarrow> concat ws = replicate (unat len) 0"
    using prep_loop_calls [of env path len "h @ [OpenTruncate path]"] by blast
  let ?h = "h @ OpenTruncate path # map WriteAll ws"
  show thesis
  proof (cases r)
    case (Inl e)
    show thesis
      by (rule that [of "Inl e" ws "[]"]) (use Inl open_ok l in \<open>simp_all add: prepare_file_def run_simps\<close>)
  next
    case (Inr u)
    show thesis
    proof (cases "io_result env path Flush ?h")
      case (Inl e)
      show thesis
        by (rule that [of "Inl e" ws "[Flush]"])
          (use Inl Inr open_ok l in \<open>simp_all add: prepare_file_def run_simps\<close>)
    next
      case f: (Inr u)
      show thesis
        by (rule that [of "io_result env path SyncAll (?h @ [Flush])" ws "[Flush, SyncAll]"])
          (use f Inr open_ok l in \<open>simp_all add: prepare_file_def run_simps\<close>)
    qed
  qed
qed

lemma prepare_file_quiet: "quiet (unat len) h (snd (prepare_file env path len h))"
proof -
  obtain r ws ds where p: "prepare_file env path len h = (r, h @ OpenTruncate path # map WriteAll ws @ ds)"
    "length (concat ws) \<le> unat len" "set ds \<subseteq> {Flush, SyncAll}"
    using prepare_file_calls [of env path len h] by metis
  have still: "x \<in> set (touches q ds) \<Longrightarrow> x = q" for x q
    using p(3) by (induction ds) auto
  have "fold move (map WriteAll ws) q = q + length (concat ws)" for q
    by (induction ws arbitrary: q) simp_all
  then have "\<forall>x \<in> set (touches 0 (map WriteAll ws @ ds)). x \<le> unat len"
    using writes_touch [of _ 0 ws] p(2) still by (fastforce simp: touches_append)
  moreover have "list_all (\<lambda>c. \<not> is_remove c) (OpenTruncate path # map WriteAll ws @ ds)"
    using p(3) by (auto simp: list_all_iff)
  ultimately show ?thesis unfolding p(1) snd_conv by (intro quiet_calls) simp_all
qed

lemma run_patterns_quiet:
  assumes v: "bench_validate opts = Inr ()" and d: "draws_in_range env"
  shows "case run_patterns env T path opts ps h of
      (Inr _, h') \<Rightarrow> quiet (unat (bo_file_size opts)) h h'
    | (Inl _, h') \<Rightarrow> (\<exists>h1. quiet (unat (bo_file_size opts)) h h1 \<and> h' = h1 @ [RemoveFile path])"
proof (induction ps arbitrary: h)
  case (Cons p ps)
  obtain r h1 where r: "run_pattern env T path p opts h = (r, h1)" by fastforce
  obtain rs h2 where rs: "run_patterns env T path opts ps h1 = (rs, h2)" by fastforce
  have q: "quiet (unat (bo_file_size opts)) h h1" using run_pattern_quiet [OF v d] r by (metis snd_conv)
  show ?case
    using Cons.IH [of h1] q quiet_trans [OF q]
    by (cases r; cases rs) (auto simp: r rs)
qed simp

text \<open>The ways a run with valid options ends.\<close>

definition unix_at :: "io_env \<Rightarrow> history \<Rightarrow> u64" where
  "unix_at env h = (case env (h @ [NowUnix]) of Unix t \<Rightarrow> t | _ \<Rightarrow> 0)"

lemma unix_now_eq:
  "(case do_call env NowUnix h of (Unix t, h') \<Rightarrow> (t, h') | (_, h') \<Rightarrow> (0, h')) = (unix_at env h, h @ [NowUnix])"
  by (simp add: do_call_def unix_at_def split: io_reply.split)

lemma bench_run_cases:
  assumes "bench_validate opts = Inr ()"
    and "prepare_file env (scratch_path opts) (bo_file_size opts) [CreateDirAll (bo_path opts)] = (p, h1)"
    and "run_patterns env T (scratch_path opts) opts (bo_patterns opts) h1 = (rs, h2)"
  obtains
    (directory) e where "io_result env (bo_path opts) (CreateDirAll (bo_path opts)) [] = Inl e"
      "bench_run env T opts [] = (Inl e, [CreateDirAll (bo_path opts)])"
  | (preparation) e where "p = Inl e" "bench_run env T opts [] = (Inl e, h1)"
  | (pattern) e where "p = Inr ()" "rs = Inl e" "bench_run env T opts [] = (Inl e, h2)"
  | (report) results where "p = Inr ()" "rs = Inr results"
      "bench_run env T opts [] = (Inr \<lparr>bp_target_path = bo_path opts,
         bp_started_at_unix = unix_at env (h2 @ [RemoveFile (scratch_path opts)]), bp_results = results\<rparr>,
         h2 @ [RemoveFile (scratch_path opts), NowUnix])"
proof (cases "io_result env (bo_path opts) (CreateDirAll (bo_path opts)) []")
  case (Inl e)
  then show thesis using directory assms(1) by (simp add: bench_run_def run_simps)
next
  case dir: (Inr u)
  show thesis
  proof (cases p)
    case (Inl e)
    then show thesis using preparation assms(1,2) dir by (simp add: bench_run_def run_simps)
  next
    case prep: (Inr u)
    show thesis
    proof (cases rs)
      case (Inl e)
      then show thesis using pattern prep assms dir by (simp add: bench_run_def run_simps)
    next
      case (Inr results)
      obtain x where "do_call env (RemoveFile (scratch_path opts)) h2 = (x, h2 @ [RemoveFile (scratch_path opts)])"
        by (simp add: do_call_def)
      then have "bench_run env T opts [] = (Inr \<lparr>bp_target_path = bo_path opts,
         bp_started_at_unix = unix_at env (h2 @ [RemoveFile (scratch_path opts)]), bp_results = results\<rparr>,
         h2 @ [RemoveFile (scratch_path opts), NowUnix])"
        using prep assms dir Inr by (simp add: bench_run_def io_call_at_eq try_then_pair Let_def unix_now_eq)
      then show thesis using report prep Inr by simp
    qed
  qed
qed

lemma bench_run_history:
  obtains p h1 rs h2 where
    "prepare_file env (scratch_path opts) (bo_file_size opts) [CreateDirAll (bo_path opts)] = (p, h1)"
    "run_patterns env T (scratch_path opts) opts (bo_patterns opts) h1 = (rs, h2)"
  by fastforce

section \<open>Success\<close>

text \<open>Where no call fails, every operation succeeds.\<close>

definition reliable :: "io_env \<Rightarrow> bool" where
  "reliable env \<longleftrightarrow> (\<forall>h e. env h \<noteq> Failed e)"

lemma reliable_result [simp]: "reliable env \<Longrightarrow> io_result env path c h = Inr ()"
  by (simp add: reliable_def io_result_def split: io_reply.split)

lemma write_ops_succeed:
  "reliable env \<Longrightarrow> \<exists>hist' h'. write_ops env opts path random blocks block is hist h = (Inr hist', h')"
proof (induction "is" arbitrary: hist h)
  case (Cons i "is")
  obtain off h1 where "block_offset env (of_nat i) blocks random (bo_block_size opts) h = (off, h1)" by fastforce
  with Cons show ?case by (simp add: run_simps)
qed simp

lemma read_ops_succeed:
  "reliable env \<Longrightarrow> \<exists>hist' h'. read_ops env opts path random blocks is hist h = (Inr hist', h')"
proof (induction "is" arbitrary: hist h)
  case (Cons i "is")
  obtain off h1 where "block_offset env (of_nat i) blocks random (bo_block_size opts) h = (off, h1)" by fastforce
  with Cons show ?case by (simp add: run_simps)
qed simp

lemma run_pattern_succeeds:
  assumes "reliable env" and "new_histogram T = Inr []"
  shows "\<exists>r h'. run_pattern env T path pattern opts h = (Inr r, h')"
proof -
  have "\<exists>r h'. write_scenario env T path opts random h = (Inr r, h')" for random
    using write_ops_succeed [OF assms(1), of opts path random "bench_blocks opts" "fill_block (unat (bo_block_size opts))"
        "[0..<unat (bench_blocks opts)]" "[]" "h @ [OpenReadWrite path, InstantNow]"] assms
    by (auto simp: write_scenario_def run_simps)
  moreover have "\<exists>r h'. read_scenario env T path opts random h = (Inr r, h')" for random
    using read_ops_succeed [OF assms(1), of opts path random "bench_blocks opts"
        "[0..<unat (bench_blocks opts)]" "[]" "h @ [OpenRead path, InstantNow]"] assms
    by (auto simp: read_scenario_def run_simps)
  ultimately show ?thesis by (cases pattern) simp_all
qed

lemma run_patterns_succeed:
  assumes "reliable env" and "new_histogram T = Inr []"
  shows "\<exists>rs h'. run_patterns env T path opts ps h = (Inr rs, h')"
proof (induction ps arbitrary: h)
  case (Cons p ps)
  obtain r h1 where "run_pattern env T path p opts h = (Inr r, h1)"
    using run_pattern_succeeds [OF assms] by blast
  with Cons [of h1] show ?case by auto
qed simp

lemma prepare_file_succeeds: "reliable env \<Longrightarrow> fst (prepare_file env path len h) = Inr ()"
proof -
  assume r: "reliable env"
  have "fst (prep_loop env path n h) = Inr ()" for n h
    using r
  proof (induction env path n h rule: prep_loop.induct)
    case (1 env path remaining h)
    show ?case
    proof (cases "remaining = 0")
      case False
      from 1(1) [OF False refl] 1(2) False show ?thesis
        by (subst prep_loop.simps) (simp add: run_simps)
    qed (simp add: prep_loop.simps)
  qed
  then obtain h1 where "prep_loop env path len (h @ [OpenTruncate path]) = (Inr (), h1)"
    by (metis prod.collapse)
  then show ?thesis using r by (simp add: prepare_file_def run_simps)
qed

lemma bench_run_succeeds:
  assumes "bench_validate opts = Inr ()" and "bt_hist_init T = Inr ()" and "reliable env"
  shows "\<exists>report h. bench_run env T opts [] = (Inr report, h)"
proof -
  obtain p h1 rs h2 where p: "prepare_file env (scratch_path opts) (bo_file_size opts) [CreateDirAll (bo_path opts)] = (p, h1)"
    and rs: "run_patterns env T (scratch_path opts) opts (bo_patterns opts) h1 = (rs, h2)"
    by (rule bench_run_history)
  have "new_histogram T = Inr []" using assms(2) by (simp add: new_histogram_def)
  then have s: "\<not> isl rs" using run_patterns_succeed [OF assms(3)] rs by (metis prod.inject sum.disc(2))
  have "p = Inr ()" using prepare_file_succeeds [OF assms(3)] p by (metis fst_conv)
  show ?thesis
    by (rule bench_run_cases [OF assms(1) p rs]) (use \<open>p = Inr ()\<close> s assms(3) in auto)
qed

section \<open>Sample environments\<close>

definition calm_env :: io_env where
  "calm_env h = (case last h of RandomRange n \<Rightarrow> Drawn 0 | InstantNow \<Rightarrow> At 0 | NowUnix \<Rightarrow> Unix 7 | _ \<Rightarrow> Done)"

definition full_env :: io_env where
  "full_env h = (case last h of WriteAll _ \<Rightarrow> Failed ''no space left on device'' | RandomRange n \<Rightarrow> Drawn 0 | _ \<Rightarrow> Done)"

lemma envs_in_range: "draws_in_range calm_env" "draws_in_range full_env"
  by (simp_all add: draws_in_range_def calm_env_def full_env_def)

definition sample_tools :: bench_tools where
  "sample_tools = \<lparr>bt_hist_init = Inr (), bt_min = (\<lambda>_. 1), bt_max = (\<lambda>_. 1), bt_quantile = (\<lambda>_ _. 1),
     bt_mean = (\<lambda>_. f64_one), bt_len = (\<lambda>l. of_nat (length l))\<rparr>"

definition small_opts :: bench_options where
  "small_opts = \<lparr>bo_path = ''d'', bo_block_size = 2, bo_file_size = 5,
     bo_patterns = [SequentialWrite, RandomRead], bo_fsync = True\<rparr>"

section \<open>Properties\<close>

text \<open>
  C32: in every environment whose random draws are in range, a benchmark run never reads or writes
  past the size of the file it prepares: every seek, block and chunk ends within it.
\<close>

theorem bench_stays_in_file:
  assumes "draws_in_range env" and "bench_run env T opts [] = (r, h)"
  shows "inside (unat (bo_file_size opts)) h"
proof (cases "bench_validate opts")
  case (Inl e)
  then show ?thesis using assms(2) by (auto simp: bench_run_def)
next
  case (Inr u)
  then have v: "bench_validate opts = Inr ()" by simp
  let ?n = "unat (bo_file_size opts)" and ?h0 = "[CreateDirAll (bo_path opts)]"
  have h0: "inside ?n ?h0" by (simp add: inside_def)
  obtain p h1 rs h2 where p: "prepare_file env (scratch_path opts) (bo_file_size opts) ?h0 = (p, h1)"
    and rs: "run_patterns env T (scratch_path opts) opts (bo_patterns opts) h1 = (rs, h2)"
    by (rule bench_run_history)
  have h1: "inside ?n h1"
    using prepare_file_quiet [of "bo_file_size opts" ?h0 env "scratch_path opts"] p h0 quiet_inside
    by (metis snd_conv)
  have "quiet ?n h1 h2 \<or> (\<exists>h3. quiet ?n h1 h3 \<and> h2 = h3 @ [RemoveFile (scratch_path opts)])"
    using run_patterns_quiet [OF v assms(1), where T = T and path = "scratch_path opts" and ps = "bo_patterns opts" and h = h1]
    by (cases rs) (simp_all add: rs)
  then have h2: "inside ?n h2" using h1 quiet_inside inside_remove by metis
  show ?thesis
    by (rule bench_run_cases [OF v p rs]) (use assms(2) h0 h1 h2 inside_cursor [OF h2] in auto)
qed

theorem bench_stays_in_file_witness: "inside 5 (snd (bench_run calm_env sample_tools small_opts []))"
proof -
  obtain r h where b: "bench_run calm_env sample_tools small_opts [] = (r, h)" by fastforce
  show ?thesis
    using bench_stays_in_file [OF envs_in_range(1) b] unfolding b by (simp add: small_opts_def)
qed

text \<open>
  C35: the scratch file is written with exactly the requested number of zero bytes, in chunks of at
  most a megabyte, before it is flushed and synced; the loop always ends.
\<close>

theorem prepare_exact:
  assumes "prepare_file env path len h = (Inr (), h')"
  shows "\<exists>ws. h' = h @ OpenTruncate path # map WriteAll ws @ [Flush, SyncAll] \<and>
    concat ws = replicate (unat len) 0 \<and> (\<forall>w \<in> set ws. length w \<le> 2 ^ 20)"
proof -
  obtain r ws ds where p: "prepare_file env path len h = (r, h @ OpenTruncate path # map WriteAll ws @ ds)"
    "length (concat ws) \<le> unat len" "\<forall>w \<in> set ws. length w \<le> unat PREP_CHUNK" "set ds \<subseteq> {Flush, SyncAll}"
    "r = Inr () \<longrightarrow> concat ws = replicate (unat len) 0 \<and> ds = [Flush, SyncAll]"
    by (rule prepare_file_calls [of env path len h])
  then show ?thesis using assms by (auto simp: PREP_CHUNK_def)
qed

theorem prepare_exact_witness:
  "\<exists>ws. snd (prepare_file calm_env ''f'' 3 []) = OpenTruncate ''f'' # map WriteAll ws @ [Flush, SyncAll] \<and>
     concat ws = [0, 0, 0]"
proof -
  have "fst (prepare_file calm_env ''f'' 3 []) = Inr ()" by code_simp
  then have "prepare_file calm_env ''f'' 3 [] = (Inr (), snd (prepare_file calm_env ''f'' 3 []))"
    by (metis prod.collapse)
  moreover have "replicate (unat (3 :: u64)) (0 :: u8) = [0, 0, 0]" by code_simp
  ultimately show ?thesis using prepare_exact by (metis append_Nil)
qed

text \<open>
  C33: what becomes of the scratch file: once it is prepared, it is removed exactly once, as the
  last call on it, whether the scenarios succeed or not; but when the preparation itself fails the
  run returns that error and never removes the file it may have created.
\<close>

theorem scratch_file_removed:
  assumes "bench_validate opts = Inr ()" and "draws_in_range env"
    and "io_result env (bo_path opts) (CreateDirAll (bo_path opts)) [] = Inr ()"
    and "prepare_file env (scratch_path opts) (bo_file_size opts) [CreateDirAll (bo_path opts)] = (p, h1)"
    and "bench_run env T opts [] = (r, h)"
  shows "case p of
      Inl e \<Rightarrow> r = Inl e \<and> \<not> list_ex is_remove h
    | Inr _ \<Rightarrow> (\<exists>pre. \<not> list_ex is_remove pre \<and>
        h = pre @ RemoveFile (scratch_path opts) # (if isl r then [] else [NowUnix]))"
proof -
  let ?h0 = "[CreateDirAll (bo_path opts)]"
  have q: "\<not> list_ex is_remove h1"
    using prepare_file_quiet [of "bo_file_size opts" ?h0 env "scratch_path opts"] assms(4)
    by (auto simp: quiet_def list_all_iff list_ex_iff)
  obtain rs h2 where rs: "run_patterns env T (scratch_path opts) opts (bo_patterns opts) h1 = (rs, h2)" by fastforce
  have grow: "\<not> list_ex is_remove h3" if "quiet (unat (bo_file_size opts)) h1 h3" for h3
    using that q by (auto simp: quiet_def list_all_iff list_ex_iff)
  note run = run_patterns_quiet [OF assms(1,2), where T = T and path = "scratch_path opts" and ps = "bo_patterns opts" and h = h1, unfolded rs]
  show ?thesis
  proof (rule bench_run_cases [OF assms(1,4) rs])
    fix e assume "p = Inl e" "bench_run env T opts [] = (Inl e, h1)"
    then show ?thesis using assms(5) q by simp
  next
    fix e assume *: "p = Inr ()" "rs = Inl e" "bench_run env T opts [] = (Inl e, h2)"
    then obtain h3 where "quiet (unat (bo_file_size opts)) h1 h3" "h2 = h3 @ [RemoveFile (scratch_path opts)]"
      using run by auto
    then show ?thesis using * assms(5) grow by auto
  next
    fix results assume *: "p = Inr ()" "rs = Inr results"
      "bench_run env T opts [] = (Inr \<lparr>bp_target_path = bo_path opts,
         bp_started_at_unix = unix_at env (h2 @ [RemoveFile (scratch_path opts)]), bp_results = results\<rparr>,
         h2 @ [RemoveFile (scratch_path opts), NowUnix])"
    then show ?thesis using assms(5) grow [of h2] run by auto
  qed (use assms(3) in simp)
qed

theorem scratch_file_removed_witness:
  "\<not> list_ex is_remove (snd (bench_run full_env sample_tools small_opts []))"
proof -
  have v: "bench_validate small_opts = Inr ()" by (simp add: bench_validate_def small_opts_def)
  have d: "io_result full_env (bo_path small_opts) (CreateDirAll (bo_path small_opts)) [] = Inr ()"
    by (simp add: io_result_def full_env_def)
  obtain p h1 where p: "prepare_file full_env (scratch_path small_opts) (bo_file_size small_opts)
      [CreateDirAll (bo_path small_opts)] = (p, h1)" by fastforce
  have "isl (fst (prepare_file full_env (scratch_path small_opts) (bo_file_size small_opts)
      [CreateDirAll (bo_path small_opts)]))" by code_simp
  then obtain e where e: "p = Inl e" unfolding p by (auto simp: isl_def)
  obtain r h where b: "bench_run full_env sample_tools small_opts [] = (r, h)" by fastforce
  show ?thesis
    using scratch_file_removed [OF v envs_in_range(2) d p b] unfolding b e by simp
qed

text \<open>
  C34: a run that succeeds reports one result per requested pattern, in order, each standing for
  one timed operation per whole block, with every latency between 1 microsecond and 60 seconds and
  the bytes of the whole blocks as its total, without overflow.
\<close>

theorem bench_report_complete:
  assumes "bench_run env T opts [] = (Inr report, h)" and "\<And>hist. bt_len T hist = of_nat (length hist)"
  shows "list_all2 (measured T opts) (bo_patterns opts) (bp_results report) \<and>
    (\<forall>r \<in> set (bp_results report).
       unat (br_total_bytes r) = unat (bo_file_size opts) div unat (bo_block_size opts) * unat (bo_block_size opts) \<and>
       unat (samples (latency r)) = unat (bo_file_size opts) div unat (bo_block_size opts))"
proof -
  have v: "bench_validate opts = Inr ()"
    using assms(1) by (cases "bench_validate opts") (simp_all add: bench_run_def)
  obtain p h1 rs h2 where p: "prepare_file env (scratch_path opts) (bo_file_size opts) [CreateDirAll (bo_path opts)] = (p, h1)"
    and rs: "run_patterns env T (scratch_path opts) opts (bo_patterns opts) h1 = (rs, h2)"
    by (rule bench_run_history)
  have "rs = Inr (bp_results report)"
    by (rule bench_run_cases [OF v p rs]) (use assms(1) in auto)
  then have m: "list_all2 (measured T opts) (bo_patterns opts) (bp_results report)"
    using run_patterns_measured [of env T "scratch_path opts" opts "bo_patterns opts" h1] rs by simp
  note total = total_bytes_exact [OF v]
  have "unat (br_total_bytes r) = unat (bo_file_size opts) div unat (bo_block_size opts) * unat (bo_block_size opts) \<and>
      unat (samples (latency r)) = unat (bench_blocks opts)" if member: "r \<in> set (bp_results report)" for r
  proof -
    obtain pattern where "measured T opts pattern r"
      using list_all2_member [OF m member] by blast
    then obtain elapsed hist where r: "r = summarise T pattern (bo_block_size opts) (bench_blocks opts) elapsed hist"
      and n: "length hist = unat (bench_blocks opts)" unfolding measured_def by blast
    show ?thesis unfolding r summarise_fields assms(2) n by (simp add: total)
  qed
  then show ?thesis using m by (simp add: valid_blocks(3) [OF v])
qed

theorem bench_report_complete_witness:
  "\<exists>report. fst (bench_run calm_env sample_tools small_opts []) = Inr report \<and>
     list_all2 (measured sample_tools small_opts) [SequentialWrite, RandomRead] (bp_results report) \<and>
     (\<forall>r \<in> set (bp_results report). unat (samples (latency r)) = 2)"
proof -
  have "bench_validate small_opts = Inr ()" by (simp add: bench_validate_def small_opts_def)
  moreover have "reliable calm_env" by (simp add: reliable_def calm_env_def split: io_call.split)
  ultimately obtain report h where b: "bench_run calm_env sample_tools small_opts [] = (Inr report, h)"
    using bench_run_succeeds [of small_opts sample_tools calm_env] by (auto simp: sample_tools_def)
  have "bt_len sample_tools hist = of_nat (length hist)" for hist by (simp add: sample_tools_def)
  from bench_report_complete [OF b this] b show ?thesis
    by (simp add: small_opts_def)
qed

end
