(* ===== verification/Block_File.thy ===== *)
theory Block_File
  imports Hpc_Types
begin

text \<open>
  Positioned block I/O: the C shim \<open>hpc-ffi/src/hpc_io.c\<close> and its Rust wrapper
  \<open>hpc-ffi/src/lib.rs\<close>, over the system calls of a kernel, which are arguments. The transfer loops
  of the shim may run forever, so they are partial functions: \<open>None\<close> is a call that never returns.
  The locale \<open>posix\<close> states what POSIX promises of the calls on one open regular file; under it the
  loops always return and transfer whole blocks.
\<close>

section \<open>System calls\<close>

text \<open>\<open>Inl\<close> is an error number. \<open>k_strerror\<close> is the text of an error number.\<close>

record 'w kernel =
  k_open :: "string \<Rightarrow> bool \<Rightarrow> 'w \<Rightarrow> (nat + nat) \<times> 'w"
  k_pread :: "nat \<Rightarrow> nat \<Rightarrow> int \<Rightarrow> 'w \<Rightarrow> (nat + u8 list) \<times> 'w"
  k_pwrite :: "nat \<Rightarrow> u8 list \<Rightarrow> int \<Rightarrow> 'w \<Rightarrow> (nat + nat) \<times> 'w"
  k_fsync :: "nat \<Rightarrow> 'w \<Rightarrow> (nat + unit) \<times> 'w"
  k_close :: "nat \<Rightarrow> 'w \<Rightarrow> (nat + unit) \<times> 'w"
  k_strerror :: "int \<Rightarrow> string"

definition EINTR :: nat where
  "EINTR = 4"

section \<open>The C shim\<close>

text \<open>A negative result is a negated error number.\<close>

definition hpc_open :: "'w kernel \<Rightarrow> string \<Rightarrow> bool \<Rightarrow> 'w \<Rightarrow> int \<times> 'w" where
  "hpc_open K path create w =
     (case k_open K path create w of (Inl e, w') \<Rightarrow> (- int e, w') | (Inr fd, w') \<Rightarrow> (int fd, w'))"

text \<open>The loop of \<open>hpc_read_block\<close>; the bytes read so far stand for \<open>done\<close> and the filled part of the buffer.\<close>

partial_function (option) read_loop ::
  "'w kernel \<Rightarrow> nat \<Rightarrow> nat \<Rightarrow> int \<Rightarrow> u8 list \<Rightarrow> 'w \<Rightarrow> (int \<times> u8 list \<times> 'w) option" where
  "read_loop K fd len off acc w =
     (if length acc < len
      then (case k_pread K fd (len - length acc) (off + int (length acc)) w of
              (Inl e, w') \<Rightarrow> if e = EINTR then read_loop K fd len off acc w' else Some (- int e, acc, w')
            | (Inr bs, w') \<Rightarrow> if bs = [] then Some (int (length acc), acc, w')
                             else read_loop K fd len off (acc @ bs) w')
      else Some (int (length acc), acc, w))"

declare read_loop.simps [code]

definition hpc_read_block :: "'w kernel \<Rightarrow> nat \<Rightarrow> nat \<Rightarrow> int \<Rightarrow> 'w \<Rightarrow> (int \<times> u8 list \<times> 'w) option" where
  "hpc_read_block K fd len off w = read_loop K fd len off [] w"

text \<open>The loop of \<open>hpc_write_block\<close>; \<open>sent\<close> is its \<open>done\<close>.\<close>

partial_function (option) write_loop ::
  "'w kernel \<Rightarrow> nat \<Rightarrow> u8 list \<Rightarrow> int \<Rightarrow> nat \<Rightarrow> 'w \<Rightarrow> (int \<times> 'w) option" where
  "write_loop K fd buf off sent w =
     (if sent < length buf
      then (case k_pwrite K fd (drop sent buf) (off + int sent) w of
              (Inl e, w') \<Rightarrow> if e = EINTR then write_loop K fd buf off sent w' else Some (- int e, w')
            | (Inr n, w') \<Rightarrow> write_loop K fd buf off (sent + n) w')
      else Some (int sent, w))"

declare write_loop.simps [code]

definition hpc_write_block :: "'w kernel \<Rightarrow> nat \<Rightarrow> u8 list \<Rightarrow> int \<Rightarrow> 'w \<Rightarrow> (int \<times> 'w) option" where
  "hpc_write_block K fd buf off w = write_loop K fd buf off 0 w"

definition hpc_sync_fs :: "'w kernel \<Rightarrow> nat \<Rightarrow> 'w \<Rightarrow> int \<times> 'w" where
  "hpc_sync_fs K fd w = (case k_fsync K fd w of (Inl e, w') \<Rightarrow> (- int e, w') | (Inr _, w') \<Rightarrow> (0, w'))"

definition hpc_close :: "'w kernel \<Rightarrow> nat \<Rightarrow> 'w \<Rightarrow> int \<times> 'w" where
  "hpc_close K fd w = (case k_close K fd w of (Inl e, w') \<Rightarrow> (- int e, w') | (Inr _, w') \<Rightarrow> (0, w'))"

section \<open>The Rust wrapper\<close>

text \<open>A block file is its descriptor. Offsets are cast from \<open>u64\<close> to \<open>i64\<close>.\<close>

definition errno_error :: "'w kernel \<Rightarrow> string \<Rightarrow> int \<Rightarrow> hpc_error" where
  "errno_error K ctxt ret = Ffi (ctxt @ '': '' @ k_strerror K (- ret))"

definition block_open :: "'w kernel \<Rightarrow> string \<Rightarrow> bool \<Rightarrow> 'w \<Rightarrow> nat result \<times> 'w" where
  "block_open K path create w =
     (if CHR 0x00 \<in> set path then (Inl (Ffi (''path contains NUL byte: '' @ path)), w)
      else (let (ret, w) = hpc_open K path create w in
            if ret < 0 then (Inl (errno_error K (''open '' @ path) ret), w) else (Inr (nat ret), w)))"

text \<open>The second component is the caller's buffer after the call.\<close>

definition read_block_at ::
  "'w kernel \<Rightarrow> nat \<Rightarrow> u8 list \<Rightarrow> u64 \<Rightarrow> 'w \<Rightarrow> (nat result \<times> u8 list \<times> 'w) option" where
  "read_block_at K fd buf offset w =
     (case hpc_read_block K fd (length buf) (sint offset) w of
        None \<Rightarrow> None
      | Some (ret, bs, w') \<Rightarrow>
          (let buf = bs @ drop (length bs) buf in
           if ret < 0 then Some (Inl (errno_error K ''read_block'' ret), buf, w')
           else Some (Inr (nat ret), buf, w')))"

definition write_block_at ::
  "'w kernel \<Rightarrow> nat \<Rightarrow> u8 list \<Rightarrow> u64 \<Rightarrow> 'w \<Rightarrow> (nat result \<times> 'w) option" where
  "write_block_at K fd buf offset w =
     (case hpc_write_block K fd buf (sint offset) w of
        None \<Rightarrow> None
      | Some (ret, w') \<Rightarrow>
          if ret < 0 then Some (Inl (errno_error K ''write_block'' ret), w') else Some (Inr (nat ret), w'))"

definition block_sync :: "'w kernel \<Rightarrow> nat \<Rightarrow> 'w \<Rightarrow> unit result \<times> 'w" where
  "block_sync K fd w =
     (let (ret, w) = hpc_sync_fs K fd w in
      if ret < 0 then (Inl (errno_error K ''sync_fs'' ret), w) else (Inr (), w))"

text \<open>\<open>Drop\<close>: the result of closing is ignored.\<close>

definition block_drop :: "'w kernel \<Rightarrow> nat \<Rightarrow> 'w \<Rightarrow> 'w" where
  "block_drop K fd w = snd (hpc_close K fd w)"

section \<open>Regular files\<close>

text \<open>The file after a positioned write: a gap before it reads as zeros.\<close>

definition write_at :: "u8 list \<Rightarrow> nat \<Rightarrow> u8 list \<Rightarrow> u8 list" where
  "write_at f off bs =
     (if bs = [] then f
      else take off f @ replicate (off - length f) 0 @ bs @ drop (off + length bs) f)"

lemma write_at_Nil [simp]: "write_at f off [] = f"
  by (simp add: write_at_def)

lemma write_at_split:
  assumes "bs \<noteq> []"
  obtains p where "write_at f off bs = p @ bs @ drop (off + length bs) f" "length p = off"
    "p = take off f @ replicate (off - length f) 0"
  using assms that [of "take off f @ replicate (off - length f) 0"] by (simp add: write_at_def min_def)

lemma read_back: "take (length bs) (drop off (write_at f off bs)) = bs"
proof (cases "bs = []")
  case False
  then obtain p where "write_at f off bs = p @ bs @ drop (off + length bs) f" "length p = off"
    using write_at_split by metis
  then show ?thesis by simp
qed simp

text \<open>A write that is continued where it stopped is one write.\<close>

lemma write_at_append: "write_at (write_at f off bs) (off + length bs) cs = write_at f off (bs @ cs)"
proof (cases "bs = [] \<or> cs = []")
  case False
  then obtain p where p: "write_at f off bs = p @ bs @ drop (off + length bs) f" "length p = off"
    "p = take off f @ replicate (off - length f) 0"
    using write_at_split by metis
  have "write_at (write_at f off bs) (off + length bs) cs = p @ bs @ cs @ drop (off + length bs + length cs) f"
    unfolding p(1) unfolding write_at_def using False p(2) by (simp add: ac_simps)
  moreover have "write_at f off (bs @ cs) = p @ bs @ cs @ drop (off + length bs + length cs) f"
    using False by (simp add: p(3) write_at_def add.assoc)
  ultimately show ?thesis by simp
qed auto

section \<open>What the kernel promises\<close>

text \<open>
  A positioned write stores the bytes it reports at its offset, a read returns bytes of the file from
  its offset and an empty block only at its end; an interrupted call leaves the file; error
  numbers are positive. Two assumptions are of fairness and not in the text of POSIX: a write of
  a nonempty block moves at least one byte (\<open>zero_write_hangs\<close> below shows the loop without it),
  and a call is interrupted only finitely often, which \<open>patience\<close> bounds.
\<close>

locale posix =
  fixes K :: "'w kernel" and content :: "'w \<Rightarrow> nat \<Rightarrow> u8 list" and patience :: "'w \<Rightarrow> nat"
  assumes write_some: "k_pwrite K fd bs off w = (Inr n, w') \<Longrightarrow> bs \<noteq> [] \<Longrightarrow> 0 < n \<and> n \<le> length bs"
    and write_content: "k_pwrite K fd bs off w = (Inr n, w') \<Longrightarrow> bs \<noteq> [] \<Longrightarrow> 0 \<le> off \<Longrightarrow>
      content w' fd = write_at (content w fd) (nat off) (take n bs)"
    and write_error: "k_pwrite K fd bs off w = (Inl e, w') \<Longrightarrow>
      0 < e \<and> (e = EINTR \<longrightarrow> content w' fd = content w fd \<and> patience w' < patience w)"
    and read_some: "k_pread K fd n off w = (Inr bs, w') \<Longrightarrow> content w' fd = content w fd"
    and read_content: "k_pread K fd n off w = (Inr bs, w') \<Longrightarrow> 0 < n \<Longrightarrow> 0 \<le> off \<Longrightarrow>
      length bs \<le> n \<and> bs = take (length bs) (drop (nat off) (content w fd)) \<and>
      (bs = [] \<longrightarrow> length (content w fd) \<le> nat off)"
    and read_length: "k_pread K fd n off w = (Inr bs, w') \<Longrightarrow> length bs \<le> n"
    and read_error: "k_pread K fd n off w = (Inl e, w') \<Longrightarrow>
      0 < e \<and> (e = EINTR \<longrightarrow> content w' fd = content w fd \<and> patience w' < patience w)"
begin

text \<open>The write loop returns, with the whole block written or with a negated error.\<close>

lemma write_loop_returns:
  "sent \<le> length buf \<Longrightarrow> \<exists>r w'. write_loop K fd buf off sent w = Some (r, w') \<and>
     (r = int (length buf) \<or> r < 0) \<and>
     (0 \<le> off \<longrightarrow> r = int (length buf) \<longrightarrow>
        content w' fd = write_at (content w fd) (nat off + sent) (drop sent buf))"
proof (induction "(length buf - sent, patience w)" arbitrary: sent w
    rule: wf_induct_rule [OF wf_lex_prod [OF wf_less_than wf_less_than]])
  case less: (1 sent w)
  show ?case
  proof (cases "sent < length buf")
    case True
    let ?D = "drop sent buf"
    obtain x w1 where k: "k_pwrite K fd ?D (off + int sent) w = (x, w1)" by fastforce
    show ?thesis
    proof (cases x)
      case (Inl e)
      note err = write_error [OF k [unfolded Inl]]
      show ?thesis
      proof (cases "e = EINTR")
        case intr: True
        have "write_loop K fd buf off sent w = write_loop K fd buf off sent w1"
          using True k Inl intr by (subst write_loop.simps) simp
        moreover have "((length buf - sent, patience w1), (length buf - sent, patience w)) \<in> less_than <*lex*> less_than"
          using err intr by simp
        ultimately show ?thesis using less(1) [of sent w1] less(2) err intr by auto
      next
        case False
        then have "write_loop K fd buf off sent w = Some (- int e, w1)"
          using True k Inl by (subst write_loop.simps) simp
        then show ?thesis using err by simp
      qed
    next
      case (Inr n)
      have n: "0 < n" "n \<le> length ?D" using write_some [OF k [unfolded Inr]] True by simp_all
      have l: "write_loop K fd buf off sent w = write_loop K fd buf off (sent + n) w1"
        using True k Inr by (subst write_loop.simps) simp
      have "((length buf - (sent + n), patience w1), (length buf - sent, patience w)) \<in> less_than <*lex*> less_than"
        using n True by (simp; linarith)
      moreover have "sent + n \<le> length buf" using n True by simp
      ultimately obtain r w' where ih: "write_loop K fd buf off (sent + n) w1 = Some (r, w')"
        "r = int (length buf) \<or> r < 0"
        "0 \<le> off \<longrightarrow> r = int (length buf) \<longrightarrow>
           content w' fd = write_at (content w1 fd) (nat off + (sent + n)) (drop (sent + n) buf)"
        using less(1) [of "sent + n" w1] by auto
      have "content w' fd = write_at (content w fd) (nat off + sent) ?D" if "0 \<le> off" "r = int (length buf)"
      proof -
        have "content w1 fd = write_at (content w fd) (nat off + sent) (take n ?D)"
          using write_content [OF k [unfolded Inr]] True that(1) by (simp add: nat_add_distrib)
        moreover have "take n ?D @ drop (n + sent) buf = ?D" by (metis append_take_drop_id drop_drop)
        ultimately show ?thesis
          using ih(3) that n write_at_append [of "content w fd" "nat off + sent" "take n ?D" "drop n ?D"]
          by (simp add: add.assoc add.commute [of sent])
      qed
      then show ?thesis using ih(1,2) l by simp
    qed
  qed (use less(2) in \<open>simp add: write_loop.simps\<close>)
qed

text \<open>The read loop returns, with what the file holds there or with a negated error.\<close>

lemma read_loop_returns:
  "length acc \<le> len \<Longrightarrow> \<exists>r acc' w'. read_loop K fd len off acc w = Some (r, acc', w') \<and>
     length acc' \<le> len \<and> (r = int (length acc') \<or> r < 0) \<and>
     (0 \<le> off \<longrightarrow> 0 \<le> r \<longrightarrow> content w' fd = content w fd \<and>
        acc' = acc @ take (len - length acc) (drop (nat off + length acc) (content w fd)))"
proof (induction "(len - length acc, patience w)" arbitrary: acc w
    rule: wf_induct_rule [OF wf_lex_prod [OF wf_less_than wf_less_than]])
  case less: (1 acc w)
  show ?case
  proof (cases "length acc < len")
    case True
    obtain x w1 where k: "k_pread K fd (len - length acc) (off + int (length acc)) w = (x, w1)" by fastforce
    show ?thesis
    proof (cases x)
      case (Inl e)
      note err = read_error [OF k [unfolded Inl]]
      show ?thesis
      proof (cases "e = EINTR")
        case intr: True
        have "read_loop K fd len off acc w = read_loop K fd len off acc w1"
          using True k Inl intr by (subst read_loop.simps) simp
        moreover have "((len - length acc, patience w1), (len - length acc, patience w)) \<in> less_than <*lex*> less_than"
          using err intr by simp
        ultimately show ?thesis using less(1) [of acc w1] less(2) err intr by auto
      next
        case False
        then have "read_loop K fd len off acc w = Some (- int e, acc, w1)"
          using True k Inl by (subst read_loop.simps) simp
        then show ?thesis using err less(2) by simp
      qed
    next
      case (Inr bs)
      note same = read_some [OF k [unfolded Inr]] and len = read_length [OF k [unfolded Inr]]
      have bs: "bs = take (length bs) (drop (nat off + length acc) (content w fd))"
        "bs = [] \<longrightarrow> length (content w fd) \<le> nat off + length acc" if "0 \<le> off"
        using read_content [OF k [unfolded Inr]] True that by (simp_all add: nat_add_distrib)
      show ?thesis
      proof (cases "bs = []")
        case eof: True
        then have "read_loop K fd len off acc w = Some (int (length acc), acc, w1)"
          using True k Inr by (subst read_loop.simps) simp
        then show ?thesis using less(2) same bs(2) eof by simp
      next
        case False
        have l: "read_loop K fd len off acc w = read_loop K fd len off (acc @ bs) w1"
          using True k Inr False by (subst read_loop.simps) simp
        have "((len - length (acc @ bs), patience w1), (len - length acc, patience w)) \<in> less_than <*lex*> less_than"
          using True False by (cases bs; simp; linarith)
        moreover have "length (acc @ bs) \<le> len" using len True by simp
        ultimately obtain r acc' w' where ih: "read_loop K fd len off (acc @ bs) w1 = Some (r, acc', w')"
          "length acc' \<le> len" "r = int (length acc') \<or> r < 0"
          "0 \<le> off \<longrightarrow> 0 \<le> r \<longrightarrow> content w' fd = content w1 fd \<and>
             acc' = (acc @ bs) @ take (len - length (acc @ bs)) (drop (nat off + length (acc @ bs)) (content w1 fd))"
          using less(1) [of "acc @ bs" w1] by auto
        have "bs @ take (len - length (acc @ bs)) (drop (nat off + length (acc @ bs)) (content w fd)) =
            take (len - length acc) (drop (nat off + length acc) (content w fd))" if "0 \<le> off"
        proof -
          let ?F = "drop (nat off + length acc) (content w fd)"
          have "take (len - length acc) ?F = take (length bs) ?F @ take (len - length acc - length bs) (drop (length bs) ?F)"
          proof -
            have "len - length acc = length bs + (len - length acc - length bs)" using len by simp
            then show ?thesis by (metis take_add)
          qed
          then show ?thesis using bs(1) [OF that] by (simp add: add.commute add.left_commute)
        qed
        then show ?thesis using ih l same by auto
      qed
    qed
  qed (use less(2) in \<open>simp add: read_loop.simps\<close>)
qed

end

section \<open>A regular file\<close>

text \<open>
  A file whose calls are interrupted a number of times and then move at most a fixed number of
  bytes each.
\<close>

record file_world =
  fw_bytes :: "u8 list"
  fw_interrupts :: nat
  fw_chunk :: nat

definition regular_file :: "file_world kernel" where
  "regular_file = \<lparr>k_open = (\<lambda>path create w. (Inr 3, w)),
     k_pread = (\<lambda>fd n off w. if off < 0 then (Inl 22, w)
        else if 0 < fw_interrupts w then (Inl EINTR, w\<lparr>fw_interrupts := fw_interrupts w - 1\<rparr>)
        else (Inr (take (min n (Suc (fw_chunk w))) (drop (nat off) (fw_bytes w))), w)),
     k_pwrite = (\<lambda>fd bs off w. if off < 0 then (Inl 22, w)
        else if 0 < fw_interrupts w then (Inl EINTR, w\<lparr>fw_interrupts := fw_interrupts w - 1\<rparr>)
        else (let n = min (length bs) (Suc (fw_chunk w)) in
              (Inr n, w\<lparr>fw_bytes := write_at (fw_bytes w) (nat off) (take n bs)\<rparr>))),
     k_fsync = (\<lambda>fd w. (Inr (), w)), k_close = (\<lambda>fd w. (Inr (), w)), k_strerror = (\<lambda>_. [])\<rparr>"

interpretation regular: posix regular_file "\<lambda>w fd. fw_bytes w" fw_interrupts
proof unfold_locales
  fix fd bs off w n w'
  assume "k_pwrite regular_file fd bs off w = (Inr n, w')"
  then show "bs \<noteq> [] \<Longrightarrow> 0 < n \<and> n \<le> length bs"
    and "bs \<noteq> [] \<Longrightarrow> 0 \<le> off \<Longrightarrow> fw_bytes w' = write_at (fw_bytes w) (nat off) (take n bs)"
    by (auto simp: regular_file_def Let_def split: if_splits)
next
  fix fd bs off w e w'
  assume "k_pwrite regular_file fd bs off w = (Inl e, w')"
  then show "0 < e \<and> (e = EINTR \<longrightarrow> fw_bytes w' = fw_bytes w \<and> fw_interrupts w' < fw_interrupts w)"
    by (auto simp: regular_file_def EINTR_def Let_def split: if_splits)
next
  fix fd n off w bs w'
  assume "k_pread regular_file fd n off w = (Inr bs, w')"
  then show "fw_bytes w' = fw_bytes w" and "length bs \<le> n"
    and "0 < n \<Longrightarrow> 0 \<le> off \<Longrightarrow> length bs \<le> n \<and> bs = take (length bs) (drop (nat off) (fw_bytes w)) \<and>
      (bs = [] \<longrightarrow> length (fw_bytes w) \<le> nat off)"
    by (auto simp: regular_file_def min_def split: if_splits)
next
  fix fd n off w e w'
  assume "k_pread regular_file fd n off w = (Inl e, w')"
  then show "0 < e \<and> (e = EINTR \<longrightarrow> fw_bytes w' = fw_bytes w \<and> fw_interrupts w' < fw_interrupts w)"
    by (auto simp: regular_file_def EINTR_def split: if_splits)
qed

section \<open>Whole blocks\<close>

lemma sint_offset:
  assumes "unat (x :: u64) < 2 ^ 63"
  shows "sint x = int (unat x)"
proof -
  have "int (unat x) < int (2 ^ 63)" using assms by (simp only: of_nat_less_iff)
  then have lt: "uint x < 2 ^ 63" by simp
  have "- (2 ^ 63) \<le> (0 :: int)" by simp
  then have "- (2 ^ 63) \<le> uint x" using uint_ge_0 [of x] by (rule order.trans)
  then have "signed_take_bit 63 (uint x) = uint x" using lt by (rule signed_take_bit_int_eq_self)
  then show ?thesis by (simp add: sint_uint)
qed

text \<open>
  C30: under the promises of POSIX a positioned write always returns, with a short transfer or an
  interrupt handled inside; if it succeeds the file holds the whole block at the offset and is
  otherwise unchanged, and a read of the same extent afterwards returns and, if it succeeds, gives
  back the block.
\<close>

theorem block_io_roundtrip:
  assumes "posix K content patience" and "unat offset < 2 ^ 63"
  shows "\<exists>r w1. write_block_at K fd buf offset w = Some (r, w1) \<and>
    (\<forall>n. r = Inr n \<longrightarrow> n = length buf \<and> content w1 fd = write_at (content w fd) (unat offset) buf \<and>
      (\<forall>out. length out = length buf \<longrightarrow>
        (\<exists>r' out' w2. read_block_at K fd out offset w1 = Some (r', out', w2) \<and>
          (\<forall>k. r' = Inr k \<longrightarrow> k = length buf \<and> out' = buf))))"
proof -
  have o: "sint offset = int (unat offset)" using assms(2) by (rule sint_offset)
  obtain r w1 where w: "write_loop K fd buf (int (unat offset)) 0 w = Some (r, w1)"
    "r = int (length buf) \<or> r < 0"
    "r = int (length buf) \<longrightarrow> content w1 fd = write_at (content w fd) (unat offset) buf"
    using posix.write_loop_returns [OF assms(1), of 0 buf fd "int (unat offset)" w] by auto
  have rd: "\<exists>r' out' w2. read_block_at K fd out offset w1 = Some (r', out', w2) \<and>
      (\<forall>k. r' = Inr k \<longrightarrow> k = length buf \<and> out' = buf)"
    if "r = int (length buf)" and len: "length out = length buf" for out
  proof -
    obtain r' acc' w2 where q: "read_loop K fd (length out) (int (unat offset)) [] w1 = Some (r', acc', w2)"
      "r' = int (length acc') \<or> r' < 0"
      "0 \<le> r' \<longrightarrow> acc' = take (length out) (drop (unat offset) (content w1 fd))"
      using posix.read_loop_returns [OF assms(1), of "[]" "length out" fd "int (unat offset)" w1] by auto
    have "take (length out) (drop (unat offset) (content w1 fd)) = buf"
      using w(3) that read_back [of buf "unat offset" "content w fd"] by simp
    then show ?thesis using q len by (auto simp: read_block_at_def hpc_read_block_def o Let_def)
  qed
  show ?thesis
    using w rd by (auto simp: write_block_at_def hpc_write_block_def o)
qed

theorem block_io_roundtrip_witness:
  "let w = \<lparr>fw_bytes = [9], fw_interrupts = 2, fw_chunk = 1\<rparr> in
   \<exists>w1. write_block_at regular_file 3 [1, 2, 3] 2 w = Some (Inr 3, w1) \<and> fw_bytes w1 = [9, 0, 1, 2, 3]"
proof -
  let ?w = "\<lparr>fw_bytes = [9], fw_interrupts = 2, fw_chunk = 1\<rparr>"
  have p: "posix regular_file (\<lambda>w fd. fw_bytes w) fw_interrupts" by (rule regular.posix_axioms)
  have o: "unat (2 :: u64) < 2 ^ 63" by simp
  obtain r w1 where r: "write_block_at regular_file 3 [1, 2, 3] 2 ?w = Some (r, w1)"
    and n: "\<forall>n. r = Inr n \<longrightarrow> n = length [1, 2, 3 :: u8] \<and> fw_bytes w1 = write_at (fw_bytes ?w) (unat (2 :: u64)) [1, 2, 3]"
    using block_io_roundtrip [OF p o, of 3 "[1, 2, 3]" ?w] by blast
  have e: "write_block_at regular_file 3 [1, 2, 3] 2 ?w =
      Some (Inr 3, \<lparr>fw_bytes = [9, 0, 1, 2, 3], fw_interrupts = 0, fw_chunk = 1\<rparr>)"
    by code_simp
  then have "r = Inr 3" using r by simp
  then show ?thesis using r n e by simp
qed

text \<open>
  The write loop has no case for a call that transfers nothing: on a kernel that answers so it
  never returns.
\<close>

definition transfers_nothing :: "'w kernel \<Rightarrow> bool" where
  "transfers_nothing K \<longleftrightarrow> (\<forall>fd bs off w. \<exists>w'. k_pwrite K fd bs off w = (Inr 0, w'))"

lemma write_loop_stuck:
  assumes "write_loop K fd buf off sent w = Some r"
  shows "transfers_nothing K \<longrightarrow> \<not> sent < length buf"
proof (rule write_loop.raw_induct [OF _ assms])
  fix f :: "'w kernel \<Rightarrow> nat \<Rightarrow> u8 list \<Rightarrow> int \<Rightarrow> nat \<Rightarrow> 'w \<Rightarrow> (int \<times> 'w) option"
  fix K fd buf off sent w r
  assume ih: "\<And>K fd buf off sent w r. f K fd buf off sent w = Some r \<Longrightarrow> transfers_nothing K \<longrightarrow> \<not> sent < length buf"
    and body: "(if sent < length buf
      then (case k_pwrite K fd (drop sent buf) (off + int sent) w of
              (Inl e, w') \<Rightarrow> if e = EINTR then f K fd buf off sent w' else Some (- int e, w')
            | (Inr n, w') \<Rightarrow> f K fd buf off (sent + n) w')
      else Some (int sent, w)) = Some r"
  show "transfers_nothing K \<longrightarrow> \<not> sent < length buf"
  proof (intro impI notI)
    assume t: "transfers_nothing K" and lt: "sent < length buf"
    then obtain w' where "k_pwrite K fd (drop sent buf) (off + int sent) w = (Inr 0, w')"
      unfolding transfers_nothing_def by blast
    then have "f K fd buf off sent w' = Some r" using body lt by simp
    then show False using ih t lt by blast
  qed
qed

lemma zero_write_hangs: "transfers_nothing K \<Longrightarrow> buf \<noteq> [] \<Longrightarrow> write_block_at K fd buf offset w = None"
  using write_loop_stuck [of K fd buf "sint offset" 0 w]
  by (cases "write_loop K fd buf (sint offset) 0 w") (auto simp: write_block_at_def hpc_write_block_def)

end
