(* ===== verification/Raw_Bench.thy ===== *)
theory Raw_Bench
  imports Bench_Props Block_File
begin

text \<open>
  The synchronous benchmark over the C shim, \<open>hpc-bench/src/ffi_raw.rs\<close>. A run that never returns
  is \<open>None\<close>; directories, removal and the clock are arguments beside the kernel.
\<close>

section \<open>Model\<close>

record 'w raw_env =
  re_kernel :: "'w kernel"
  re_create_dir :: "string \<Rightarrow> 'w \<Rightarrow> (string + unit) \<times> 'w"
  re_remove :: "string \<Rightarrow> 'w \<Rightarrow> 'w"
  re_now :: "'w \<Rightarrow> nat \<times> 'w"

record raw_options =
  ro_path :: string
  ro_block_size :: u64
  ro_file_size :: u64
  ro_fsync :: bool

definition default_raw_options :: raw_options where
  "default_raw_options = \<lparr>ro_path = ''.'', ro_block_size = 4096, ro_file_size = 16 * 1024 * 1024, ro_fsync = False\<rparr>"

definition try_opt ::
  "(('e + 'a) \<times> 's) option \<Rightarrow> ('a \<Rightarrow> 's \<Rightarrow> (('e + 'b) \<times> 's) option) \<Rightarrow> (('e + 'b) \<times> 's) option" where
  "try_opt m f = (case m of None \<Rightarrow> None | Some (Inl e, s) \<Rightarrow> Some (Inl e, s) | Some (Inr a, s) \<Rightarrow> f a s)"

text \<open>\<open>phase\<close>: the operation gets the index and the histogram; the list holds the indexes still to do.\<close>

fun phase_loop ::
  "(u64 \<Rightarrow> u64 list \<Rightarrow> 's \<Rightarrow> (u64 list result \<times> 's) option) \<Rightarrow> nat list \<Rightarrow> u64 list \<Rightarrow> 's \<Rightarrow>
     (u64 list result \<times> 's) option" where
  "phase_loop op [] hist s = Some (Inr hist, s)"
| "phase_loop op (i # is) hist s = try_opt (op (of_nat i) hist s) (\<lambda>hist s. phase_loop op is hist s)"

definition phase_run ::
  "bench_tools \<Rightarrow> ('s \<Rightarrow> nat \<times> 's) \<Rightarrow> io_pattern \<Rightarrow> u64 \<Rightarrow> u64 \<Rightarrow>
     (u64 \<Rightarrow> u64 list \<Rightarrow> 's \<Rightarrow> (u64 list result \<times> 's) option) \<Rightarrow> 's \<Rightarrow> (bench_result result \<times> 's) option" where
  "phase_run T now pattern block_size blocks op s =
     try_opt (Some (new_histogram T, s)) (\<lambda>hist s.
     let (started, s) = now s in
     try_opt (phase_loop op [0..<unat blocks] hist s) (\<lambda>hist s.
     let (t, s) = now s in
     Some (Inr (summarise T pattern block_size blocks (as_secs_f64 (t - started)) hist), s)))"

definition raw_write_op ::
  "'w raw_env \<Rightarrow> raw_options \<Rightarrow> nat \<Rightarrow> u8 list \<Rightarrow> u64 \<Rightarrow> u64 list \<Rightarrow> 'w \<Rightarrow> (u64 list result \<times> 'w) option" where
  "raw_write_op R opts fd block i hist w =
     (let offset = i * ro_block_size opts; (op, w) = re_now R w in
      try_opt (write_block_at (re_kernel R) fd block offset w) (\<lambda>_ w.
      try_opt (Some (if ro_fsync opts then block_sync (re_kernel R) fd w else (Inr (), w))) (\<lambda>_ w.
      let (t, w) = re_now R w in Some (Inr (record_latency hist (t - op)), w))))"

text \<open>The read phase keeps its buffer from one operation to the next; the count read is not looked at.\<close>

definition raw_read_op ::
  "'w raw_env \<Rightarrow> raw_options \<Rightarrow> nat \<Rightarrow> u64 \<Rightarrow> u64 list \<Rightarrow> u8 list \<times> 'w \<Rightarrow> (u64 list result \<times> u8 list \<times> 'w) option" where
  "raw_read_op R opts fd i hist s =
     (let (buf, w) = s; offset = i * ro_block_size opts; (op, w) = re_now R w in
      case read_block_at (re_kernel R) fd buf offset w of
        None \<Rightarrow> None
      | Some (Inl e, buf, w) \<Rightarrow> Some (Inl e, buf, w)
      | Some (Inr n, buf, w) \<Rightarrow>
          (let (t, w) = re_now R w in Some (Inr (record_latency hist (t - op)), buf, w)))"

definition now_beside :: "'w raw_env \<Rightarrow> u8 list \<times> 'w \<Rightarrow> nat \<times> u8 list \<times> 'w" where
  "now_beside R s = (let (t, w) = re_now R (snd s) in (t, fst s, w))"

definition raw_body ::
  "'w raw_env \<Rightarrow> bench_tools \<Rightarrow> raw_options \<Rightarrow> nat \<Rightarrow> 'w \<Rightarrow> (bench_result list result \<times> 'w) option" where
  "raw_body R T opts fd w =
     (let blocks = max (ro_file_size opts div ro_block_size opts) 1;
          block = fill_block (unat (ro_block_size opts)) in
      try_opt (phase_run T (re_now R) SequentialWrite (ro_block_size opts) blocks (raw_write_op R opts fd block) w) (\<lambda>wr w.
      try_opt (Some (block_sync (re_kernel R) fd w)) (\<lambda>_ w.
      let buf = replicate (unat (ro_block_size opts)) 0 in
      case phase_run T (now_beside R) SequentialRead (ro_block_size opts) blocks (raw_read_op R opts fd) (buf, w) of
        None \<Rightarrow> None
      | Some (Inl e, _, w) \<Rightarrow> Some (Inl e, w)
      | Some (Inr rd, _, w) \<Rightarrow> Some (Inr [wr, rd], w))))"

definition raw_inner ::
  "'w raw_env \<Rightarrow> bench_tools \<Rightarrow> string \<Rightarrow> raw_options \<Rightarrow> 'w \<Rightarrow> (bench_result list result \<times> 'w) option" where
  "raw_inner R T file opts w =
     try_opt (Some (block_open (re_kernel R) file True w)) (\<lambda>fd w.
     case raw_body R T opts fd w of
       None \<Rightarrow> None
     | Some (r, w) \<Rightarrow> Some (r, block_drop (re_kernel R) fd w))"

definition raw_run ::
  "'w raw_env \<Rightarrow> bench_tools \<Rightarrow> raw_options \<Rightarrow> 'w \<Rightarrow> (bench_result list result \<times> 'w) option" where
  "raw_run R T opts w =
     (if ro_block_size opts = 0 then Some (Inl (BenchErr ''block_size must be non-zero''), w)
      else if ro_file_size opts < ro_block_size opts
      then Some (Inl (BenchErr ''file_size must be at least block_size''), w)
      else (case re_create_dir R (ro_path opts) w of
              (Inl e, w) \<Rightarrow> Some (Inl (io_at (ro_path opts) e), w)
            | (Inr _, w) \<Rightarrow>
                (let file = path_join (ro_path opts) ''.hpc-bench-ffi.dat'' in
                 case raw_inner R T file opts w of
                   None \<Rightarrow> None
                 | Some (outcome, w) \<Rightarrow> Some (outcome, re_remove R file w))))"

section \<open>Lemmas\<close>

text \<open>An option whose value, if the run succeeds, has a property.\<close>

definition returns :: "('a \<Rightarrow> bool) \<Rightarrow> (('e + 'a) \<times> 's) option \<Rightarrow> bool" where
  "returns P m \<longleftrightarrow> (\<exists>r s. m = Some (r, s) \<and> (\<forall>a. r = Inr a \<longrightarrow> P a))"

lemma returns_Some [simp]: "returns P (Some (Inl e, s))" "returns P (Some (Inr a, s)) \<longleftrightarrow> P a"
  "returns (\<lambda>_. True) (Some m)"
  by (cases m; simp add: returns_def)+

lemma returns_try:
  "returns P m \<Longrightarrow> (\<And>a s. P a \<Longrightarrow> returns Q (f a s)) \<Longrightarrow> returns Q (try_opt m f)"
  by (auto simp: returns_def try_opt_def split: sum.split)

lemma phase_loop_returns:
  assumes "\<And>i hist s. returns (\<lambda>hist'. length hist' = Suc (length hist)) (op i hist s)"
  shows "returns (\<lambda>hist'. length hist' = length hist + length is) (phase_loop op is hist s)"
proof (induction "is" arbitrary: hist s)
  case (Cons i "is")
  show ?case
    unfolding phase_loop.simps
    by (rule returns_try [OF assms]) (use Cons in \<open>metis add_Suc add_Suc_right length_Cons\<close>)
qed simp

lemma phase_run_returns:
  assumes "\<And>i hist s. returns (\<lambda>hist'. length hist' = Suc (length hist)) (op i hist s)"
  shows "returns (\<lambda>r. \<exists>elapsed hist. r = summarise T pattern bs blocks elapsed hist \<and> length hist = unat blocks)
    (phase_run T now pattern bs blocks op s)"
  unfolding phase_run_def
proof (rule returns_try [where P = "\<lambda>hist. hist = []"])
  show "returns (\<lambda>hist. hist = []) (Some (new_histogram T, s))"
    by (cases "new_histogram T") (auto dest: new_histogram_empty)
  fix hist :: "u64 list" and s'
  assume h: "hist = []"
  obtain t s1 where t: "now s' = (t, s1)" by fastforce
  show "returns (\<lambda>r. \<exists>elapsed hist. r = summarise T pattern bs blocks elapsed hist \<and> length hist = unat blocks)
      (let (started, s) = now s' in try_opt (phase_loop op [0..<unat blocks] hist s) (\<lambda>hist s.
         let (t, s) = now s in Some (Inr (summarise T pattern bs blocks (as_secs_f64 (t - started)) hist), s)))"
    unfolding t Let_def prod.case
    by (rule returns_try [OF phase_loop_returns [OF assms]]) (auto simp: h split: prod.split)
qed

lemma raw_write_op_returns:
  assumes "posix (re_kernel R) content patience"
  shows "returns (\<lambda>hist'. length hist' = Suc (length hist)) (raw_write_op R opts fd block i hist w)"
proof -
  have "returns (\<lambda>_. True) (write_block_at (re_kernel R) fd block offset w)" for offset w
    using posix.write_loop_returns [OF assms, of 0 block fd "sint offset" w]
    by (auto simp: write_block_at_def hpc_write_block_def)
  then show ?thesis
    unfolding raw_write_op_def Let_def
    by (auto intro!: returns_try [where P = "\<lambda>_. True"] split: prod.split)
qed

lemma raw_read_op_returns:
  assumes "posix (re_kernel R) content patience"
  shows "returns (\<lambda>hist'. length hist' = Suc (length hist)) (raw_read_op R opts fd i hist s)"
proof -
  obtain buf w where s: "s = (buf, w)" by fastforce
  obtain t w1 where t: "re_now R w = (t, w1)" by fastforce
  have "\<exists>r b w2. read_block_at (re_kernel R) fd buf offset w1 = Some (r, b, w2)" for offset
    using posix.read_loop_returns [OF assms, of "[]" "length buf" fd "sint offset" w1]
    by (auto simp: read_block_at_def hpc_read_block_def Let_def)
  then obtain r b w2 where "read_block_at (re_kernel R) fd buf (i * ro_block_size opts) w1 = Some (r, b, w2)"
    by blast
  then show ?thesis
    by (cases r) (simp_all add: raw_read_op_def s t split: prod.split)
qed

section \<open>The run\<close>

definition as_bench :: "raw_options \<Rightarrow> bench_options" where
  "as_bench opts = \<lparr>bo_path = ro_path opts, bo_block_size = ro_block_size opts,
     bo_file_size = ro_file_size opts, bo_patterns = [], bo_fsync = ro_fsync opts\<rparr>"

definition raw_results :: "raw_options \<Rightarrow> bench_result list \<Rightarrow> bool" where
  "raw_results opts rs \<longleftrightarrow> map br_pattern rs = [SequentialWrite, SequentialRead] \<and>
     (\<forall>r \<in> set rs. block_size_bytes r = ro_block_size opts \<and> br_total_bytes r = bench_blocks (as_bench opts) * ro_block_size opts)"

lemma raw_body_returns:
  assumes "posix (re_kernel R) content patience"
  shows "returns (raw_results opts) (raw_body R T opts fd w)"
proof -
  let ?blocks = "max (ro_file_size opts div ro_block_size opts) 1"
  have b: "bench_blocks (as_bench opts) = ?blocks" by (simp add: bench_blocks_def as_bench_def)
  let ?P = "\<lambda>pattern r. \<exists>elapsed (hist :: u64 list). r = summarise T pattern (ro_block_size opts) ?blocks elapsed hist \<and>
      length hist = unat ?blocks"
  have rd: "returns (?P SequentialRead) (phase_run T (now_beside R) SequentialRead (ro_block_size opts) ?blocks
      (raw_read_op R opts fd) s)" for s
    by (rule phase_run_returns) (rule raw_read_op_returns [OF assms])
  show ?thesis
    unfolding raw_body_def Let_def
  proof (rule returns_try [where P = "?P SequentialWrite"])
    show "returns (?P SequentialWrite) (phase_run T (re_now R) SequentialWrite (ro_block_size opts) ?blocks
        (raw_write_op R opts fd (fill_block (unat (ro_block_size opts)))) w)"
      by (rule phase_run_returns) (rule raw_write_op_returns [OF assms])
    fix wr w1
    assume wr: "?P SequentialWrite wr"
    show "returns (raw_results opts) (try_opt (Some (block_sync (re_kernel R) fd w1)) (\<lambda>_ w.
        case phase_run T (now_beside R) SequentialRead (ro_block_size opts) ?blocks (raw_read_op R opts fd)
            (replicate (unat (ro_block_size opts)) 0, w) of
          None \<Rightarrow> None | Some (Inl e, _, w) \<Rightarrow> Some (Inl e, w) | Some (Inr rd, _, w) \<Rightarrow> Some (Inr [wr, rd], w)))"
    proof (rule returns_try [where P = "\<lambda>_. True"])
      fix w2
      obtain r buf w3 where r: "phase_run T (now_beside R) SequentialRead (ro_block_size opts) ?blocks
          (raw_read_op R opts fd) (replicate (unat (ro_block_size opts)) 0, w2) = Some (r, buf, w3)"
        "\<forall>a. r = Inr a \<longrightarrow> ?P SequentialRead a"
        using rd [of "(replicate (unat (ro_block_size opts)) 0, w2)"] unfolding returns_def by auto
      show "returns (raw_results opts) (case phase_run T (now_beside R) SequentialRead (ro_block_size opts) ?blocks
            (raw_read_op R opts fd) (replicate (unat (ro_block_size opts)) 0, w2) of
          None \<Rightarrow> None | Some (Inl e, _, w) \<Rightarrow> Some (Inl e, w) | Some (Inr rd, _, w) \<Rightarrow> Some (Inr [wr, rd], w))"
        using wr r(2) by (cases r) (auto simp: r(1) raw_results_def b summarise_def Let_def)
    qed simp
  qed
qed

text \<open>
  C31: on a kernel that keeps the promises of POSIX the raw benchmark always returns, whatever
  errors the calls report; if it succeeds it reports the write phase and then the read phase, each
  with the bytes of the whole blocks that fit the requested size, computed without overflow.
\<close>

theorem raw_bench_returns:
  assumes "posix (re_kernel R) content patience"
  shows "\<exists>r w'. raw_run R T opts w = Some (r, w') \<and>
    (\<forall>rs. r = Inr rs \<longrightarrow> map br_pattern rs = [SequentialWrite, SequentialRead] \<and>
      (\<forall>x \<in> set rs. unat (br_total_bytes x) =
         unat (ro_file_size opts) div unat (ro_block_size opts) * unat (ro_block_size opts)))"
proof -
  have inner: "returns (raw_results opts) (raw_inner R T path opts w)" for path w
    unfolding raw_inner_def
  proof (rule returns_try [where P = "\<lambda>_. True"])
    fix fd w1
    show "returns (raw_results opts) (case raw_body R T opts fd w1 of None \<Rightarrow> None
        | Some (r, w) \<Rightarrow> Some (r, block_drop (re_kernel R) fd w))"
      using raw_body_returns [OF assms, of opts T fd w1] by (auto simp: returns_def)
  qed simp
  show ?thesis
  proof (cases "bench_validate (as_bench opts)")
    case (Inl e)
    then have "ro_block_size opts = 0 \<or> ro_file_size opts < ro_block_size opts"
      by (auto simp: bench_validate_def as_bench_def split: if_splits)
    then show ?thesis by (auto simp: raw_run_def)
  next
    case (Inr u)
    then have v: "bench_validate (as_bench opts) = Inr ()" by simp
    then have n: "ro_block_size opts \<noteq> 0" "\<not> ro_file_size opts < ro_block_size opts"
      by (auto simp: bench_validate_def as_bench_def split: if_splits)
    obtain x w1 where d: "re_create_dir R (ro_path opts) w = (x, w1)" by fastforce
    obtain r w2 where i: "raw_inner R T (path_join (ro_path opts) ''.hpc-bench-ffi.dat'') opts w1 = Some (r, w2)"
      "\<forall>rs. r = Inr rs \<longrightarrow> raw_results opts rs"
      using inner unfolding returns_def by blast
    show ?thesis
      using n d i total_bytes_exact [OF v]
      by (cases x) (auto simp: raw_run_def raw_results_def as_bench_def)
  qed
qed

definition file_env :: "file_world raw_env" where
  "file_env = \<lparr>re_kernel = regular_file, re_create_dir = (\<lambda>_ w. (Inr (), w)),
     re_remove = (\<lambda>_ w. w\<lparr>fw_bytes := []\<rparr>), re_now = (\<lambda>w. (0, w))\<rparr>"

theorem raw_bench_returns_witness:
  "\<exists>r w'. raw_run file_env sample_tools \<lparr>ro_path = ''d'', ro_block_size = 2, ro_file_size = 5, ro_fsync = True\<rparr>
     \<lparr>fw_bytes = [], fw_interrupts = 3, fw_chunk = 0\<rparr> = Some (r, w')"
proof -
  have "posix (re_kernel file_env) (\<lambda>w fd. fw_bytes w) fw_interrupts"
    using regular.posix_axioms by (simp add: file_env_def)
  from raw_bench_returns [OF this] show ?thesis by blast
qed

end
