(* ===== verification/Rest.thy ===== *)
theory Rest
  imports Api
begin

text \<open>
  The HTTP surface of \<open>hpc-daemon/src/api.rs\<close>: the routes of \<open>router\<close>, the bodies that
  \<open>derive(Deserialize)\<close> reads with the attributes of the request types, and the responses made of
  the handlers' results. Text of JSON documents, the path of a URL, percent-decoding and the
  rejections of axum's own extractors are arguments (\<open>rest_wire\<close>).
\<close>

section \<open>JSON bodies\<close>

datatype json_value =
    JNull
  | JBool bool
  | JNum f64
  | JStr string
  | JArr "json_value list"
  | JObj "(string, json_value) btree_map"

text \<open>
  A struct is read from an object by field name, or from an array by position; \<open>names\<close> are its
  fields in the order of the declaration. Unknown fields of an object are ignored.
\<close>

fun fields_of :: "string list \<Rightarrow> json_value \<Rightarrow> (string \<times> json_value) list option" where
  "fields_of names (JObj m) = Some m"
| "fields_of names (JArr js) = (if length js \<le> length names then Some (zip names js) else None)"
| "fields_of names _ = None"

definition field :: "'a option \<Rightarrow> (json_value \<Rightarrow> 'a option) \<Rightarrow> (string \<times> json_value) list \<Rightarrow> string \<Rightarrow> 'a option" where
  "field dflt read m k = (case map_of m k of None \<Rightarrow> dflt | Some j \<Rightarrow> read j)"

fun read_str :: "json_value \<Rightarrow> string option" where
  "read_str (JStr s) = Some s"
| "read_str _ = None"

fun read_bool :: "json_value \<Rightarrow> bool option" where
  "read_bool (JBool b) = Some b"
| "read_bool _ = None"

fun read_option :: "(json_value \<Rightarrow> 'a option) \<Rightarrow> json_value \<Rightarrow> 'a option option" where
  "read_option read JNull = Some None"
| "read_option read j = map_option Some (read j)"

fun read_list :: "(json_value \<Rightarrow> 'a option) \<Rightarrow> json_value \<Rightarrow> 'a list option" where
  "read_list read (JArr js) = those (map read js)"
| "read_list read _ = None"

fun read_map :: "json_value \<Rightarrow> (string, string) btree_map option" where
  "read_map (JObj m) = map_option (zip (map fst m)) (those (map (read_str \<circ> snd) m))"
| "read_map _ = None"

text \<open>A unit variant is its name, or an object from its name to null.\<close>

fun read_variant :: "json_value \<Rightarrow> string option" where
  "read_variant (JStr s) = Some s"
| "read_variant (JObj [(s, JNull)]) = Some s"
| "read_variant _ = None"

text \<open>The wire names of the actions (\<open>rename_all = "snake_case"\<close>).\<close>

fun deploy_action_json :: "deploy_action \<Rightarrow> string" where
  "deploy_action_json Install = ''install''" | "deploy_action_json Upgrade = ''upgrade''"
| "deploy_action_json Rollback = ''rollback''" | "deploy_action_json Remove = ''remove''"

fun fs_action_json :: "fs_action \<Rightarrow> string" where
  "fs_action_json Mount = ''mount''" | "fs_action_json Unmount = ''unmount''" | "fs_action_json Remount = ''remount''"
| "fs_action_json Check = ''check''" | "fs_action_json Format = ''format''"

definition read_deploy_action :: "json_value \<Rightarrow> deploy_action option" where
  "read_deploy_action j = Option.bind (read_variant j)
     (map_of (map (\<lambda>a. (deploy_action_json a, a)) [Install, Upgrade, Rollback, Remove]))"

definition read_fs_action :: "json_value \<Rightarrow> fs_action option" where
  "read_fs_action j = Option.bind (read_variant j)
     (map_of (map (\<lambda>a. (fs_action_json a, a)) [Mount, Unmount, Remount, Check, Format]))"

definition read_deploy_request :: "json_value \<Rightarrow> deploy_request option" where
  "read_deploy_request j = Option.bind
     (fields_of [''deployment_id'', ''action'', ''component'', ''version'', ''target_path'', ''options''] j) (\<lambda>m.
     Option.bind (field (Some None) (read_option read_str) m ''deployment_id'') (\<lambda>i.
     Option.bind (field (Some Install) read_deploy_action m ''action'') (\<lambda>a.
     Option.bind (field None read_str m ''component'') (\<lambda>c.
     Option.bind (field (Some []) read_str m ''version'') (\<lambda>v.
     Option.bind (field (Some []) read_str m ''target_path'') (\<lambda>t.
     Option.bind (field (Some []) read_map m ''options'') (\<lambda>opts.
     Some \<lparr>dr_deployment_id = i, dr_action = a, dr_component = c, dr_version = v, dr_target_path = t,
       dr_options = opts\<rparr>)))))))"

definition read_fs_request :: "json_value \<Rightarrow> fs_request option" where
  "read_fs_request j = Option.bind
     (fields_of [''command_id'', ''action'', ''device'', ''mount_point'', ''fs_type'', ''mount_options'', ''force''] j) (\<lambda>m.
     Option.bind (field (Some None) (read_option read_str) m ''command_id'') (\<lambda>i.
     Option.bind (field None read_fs_action m ''action'') (\<lambda>a.
     Option.bind (field (Some []) read_str m ''device'') (\<lambda>d.
     Option.bind (field None read_str m ''mount_point'') (\<lambda>mp.
     Option.bind (field (Some []) read_str m ''fs_type'') (\<lambda>ty.
     Option.bind (field (Some []) (read_list read_str) m ''mount_options'') (\<lambda>opts.
     Option.bind (field (Some False) read_bool m ''force'') (\<lambda>f.
     Some \<lparr>fr_command_id = i, fr_action = a, fr_device = d, fr_mount_point = mp, fr_fs_type = ty,
       fr_mount_options = opts, fr_force = f\<rparr>))))))))"

section \<open>Routes\<close>

datatype http_method = GET | POST | DELETE

datatype endpoint =
    EpHealth
  | EpClusterStatus
  | EpListNodes
  | EpGetNode string
  | EpDeregisterNode string
  | EpNodeMetrics string
  | EpDeploy string
  | EpFs string
  | EpOutcomes

text \<open>A parameter of a route stands for one segment that is not empty.\<close>

definition router :: "http_method \<Rightarrow> string \<Rightarrow> endpoint option" where
  "router meth path =
     (let segs = split_on (\<lambda>c. c = CHR ''/'') path in
      if segs = [[], ''health''] \<and> meth = GET then Some EpHealth
      else if segs = [[], ''api'', ''v1'', ''cluster'', ''status''] \<and> meth = GET then Some EpClusterStatus
      else if segs = [[], ''api'', ''v1'', ''outcomes''] \<and> meth = GET then Some EpOutcomes
      else if take 4 segs = [[], ''api'', ''v1'', ''nodes''] then
        (case drop 4 segs of
           [] \<Rightarrow> if meth = GET then Some EpListNodes else None
         | [i] \<Rightarrow> if i = [] then None else
             (case meth of GET \<Rightarrow> Some (EpGetNode i) | DELETE \<Rightarrow> Some (EpDeregisterNode i) | POST \<Rightarrow> None)
         | [i, op] \<Rightarrow> if i = [] then None
             else if op = ''metrics'' \<and> meth = GET then Some (EpNodeMetrics i)
             else if op = ''deploy'' \<and> meth = POST then Some (EpDeploy i)
             else if op = ''fs'' \<and> meth = POST then Some (EpFs i)
             else None
         | _ \<Rightarrow> None)
      else None)"

section \<open>Requests and responses\<close>

datatype http_request = HttpGet string | HttpPost string json_value | HttpDelete string

fun http_method_of :: "http_request \<Rightarrow> http_method" where
  "http_method_of (HttpGet _) = GET"
| "http_method_of (HttpPost _ _) = POST"
| "http_method_of (HttpDelete _) = DELETE"

fun http_url :: "http_request \<Rightarrow> string" where
  "http_url (HttpGet url) = url"
| "http_url (HttpPost url _) = url"
| "http_url (HttpDelete url) = url"

fun http_body :: "http_request \<Rightarrow> json_value option" where
  "http_body (HttpPost _ j) = Some j"
| "http_body _ = None"

text \<open>A response as its reader sees it: reading the body may fail.\<close>

record http_response =
  hr_status :: nat
  hr_status_text :: string
  hr_body :: "string + string"

fun http_code :: "http_status \<Rightarrow> nat" where
  "http_code OK = 200" | "http_code NO_CONTENT = 204" | "http_code BAD_REQUEST = 400"
| "http_code NOT_FOUND = 404" | "http_code CONFLICT = 409" | "http_code INTERNAL_SERVER_ERROR = 500"

text \<open>
  The libraries around the handlers: the path of a URL, percent-decoding, the reason phrases, the
  JSON text of each answer, and the answer of axum to a request it turns down itself.
\<close>

record rest_wire =
  rw_path :: "string \<Rightarrow> string option"
  rw_decode :: "string \<Rightarrow> string option"
  rw_text :: "http_status \<Rightarrow> string"
  rw_error :: "string \<Rightarrow> string"
  rw_status :: "cluster_status \<Rightarrow> string"
  rw_nodes :: "node_record list \<Rightarrow> string"
  rw_node :: "node_record \<Rightarrow> string"
  rw_metrics :: "metrics_report \<Rightarrow> string"
  rw_outcomes :: "command_outcome list \<Rightarrow> string"
  rw_ack :: "dispatch_ack \<Rightarrow> string"
  rw_reject :: "http_request \<Rightarrow> http_response"

definition response :: "rest_wire \<Rightarrow> http_status \<Rightarrow> string \<Rightarrow> http_response" where
  "response W st body = \<lparr>hr_status = http_code st, hr_status_text = rw_text W st, hr_body = Inr body\<rparr>"

definition api_error_into_response :: "rest_wire \<Rightarrow> api_error \<Rightarrow> http_response" where
  "api_error_into_response W e = response W (ae_status e) (rw_error W (ae_message e))"

fun respond :: "rest_wire \<Rightarrow> ('a \<Rightarrow> string) \<Rightarrow> 'a api_result \<Rightarrow> http_response" where
  "respond W write (Inr a) = response W OK (write a)"
| "respond W write (Inl e) = api_error_into_response W e"

fun respond_status :: "rest_wire \<Rightarrow> http_status api_result \<Rightarrow> http_response" where
  "respond_status W (Inr st) = response W st []"
| "respond_status W (Inl e) = api_error_into_response W e"

text \<open>The endpoint with its parameter decoded.\<close>

fun decode_endpoint :: "(string \<Rightarrow> string option) \<Rightarrow> endpoint \<Rightarrow> endpoint option" where
  "decode_endpoint dec (EpGetNode i) = map_option EpGetNode (dec i)"
| "decode_endpoint dec (EpDeregisterNode i) = map_option EpDeregisterNode (dec i)"
| "decode_endpoint dec (EpNodeMetrics i) = map_option EpNodeMetrics (dec i)"
| "decode_endpoint dec (EpDeploy i) = map_option EpDeploy (dec i)"
| "decode_endpoint dec (EpFs i) = map_option EpFs (dec i)"
| "decode_endpoint dec e = Some e"

text \<open>One request, run without interruption.\<close>

definition api_handle ::
  "rest_wire \<Rightarrow> 'db store \<Rightarrow> string \<Rightarrow> u64 \<Rightarrow> http_request \<Rightarrow> endpoint \<Rightarrow> 'db shared_state \<Rightarrow>
     http_response poll \<times> 'db shared_state" where
  "api_handle W S uuid now req e s =
     (case e of
        EpHealth \<Rightarrow> (Ready (response W OK ''ok''), s)
      | EpClusterStatus \<Rightarrow> (Ready (response W OK (rw_status W (api_cluster_status now s s))), s)
      | EpListNodes \<Rightarrow> (Ready (response W OK (rw_nodes W (api_list_nodes s))), s)
      | EpGetNode i \<Rightarrow> (Ready (respond W (rw_node W) (api_get_node i s)), s)
      | EpNodeMetrics i \<Rightarrow> (Ready (respond W (rw_metrics W) (api_get_node_metrics i s)), s)
      | EpOutcomes \<Rightarrow> (Ready (respond W (rw_outcomes W) (api_list_outcomes S s)), s)
      | EpDeregisterNode i \<Rightarrow>
          (let (res, s') = api_deregister_node S i s in (Ready (respond_status W res), s'))
      | EpDeploy i \<Rightarrow>
          (case Option.bind (http_body req) read_deploy_request of
             None \<Rightarrow> (Ready (rw_reject W req), s)
           | Some r \<Rightarrow> (let (res, s') = api_deploy uuid i r s in (map_poll (respond W (rw_ack W)) res, s')))
      | EpFs i \<Rightarrow>
          (case Option.bind (http_body req) read_fs_request of
             None \<Rightarrow> (Ready (rw_reject W req), s)
           | Some r \<Rightarrow> (let (res, s') = api_fs_command uuid i r s in (map_poll (respond W (rw_ack W)) res, s'))))"

definition api_serve ::
  "rest_wire \<Rightarrow> 'db store \<Rightarrow> string \<Rightarrow> u64 \<Rightarrow> http_request \<Rightarrow> 'db shared_state \<Rightarrow>
     http_response poll \<times> 'db shared_state" where
  "api_serve W S uuid now req s =
     (case Option.bind (rw_path W (http_url req)) (\<lambda>p.
           Option.bind (router (http_method_of req) p) (decode_endpoint (rw_decode W))) of
        None \<Rightarrow> (Ready (rw_reject W req), s)
      | Some e \<Rightarrow> api_handle W S uuid now req e s)"

section \<open>Lemmas\<close>

lemma read_fs_action_json [simp]: "read_fs_action (JStr (fs_action_json a)) = Some a"
  by (cases a) (simp_all add: read_fs_action_def)

lemma read_deploy_action_json [simp]: "read_deploy_action (JStr (deploy_action_json a)) = Some a"
  by (cases a) (simp_all add: read_deploy_action_def)

lemma those_map_Some [simp]: "those (map (\<lambda>x. Some (f x)) xs) = Some (map f xs)"
  by (induction xs) simp_all

lemma split_on_segment:
  "d \<notin> set w \<Longrightarrow> split_on (\<lambda>c. c = d) (w @ d # r) = w # split_on (\<lambda>c. c = d) r"
  "d \<notin> set w \<Longrightarrow> split_on (\<lambda>c. c = d) w = [w]"
  by (rule split_on_append, auto) (rule split_on_word, auto)

text \<open>The route of an operation on a node whose identifier is one segment.\<close>

definition node_path :: "string \<Rightarrow> string \<Rightarrow> string" where
  "node_path i op = ''/api/v1/nodes/'' @ i @ op"

lemma node_path_segments:
  assumes "CHR ''/'' \<notin> set i"
  shows "split_on (\<lambda>c. c = CHR ''/'') (node_path i (CHR ''/'' # op)) =
    [[], ''api'', ''v1'', ''nodes'', i] @ split_on (\<lambda>c. c = CHR ''/'') op"
  using assms by (simp add: node_path_def split_on_segment)

lemma router_fs: "CHR ''/'' \<notin> set i \<Longrightarrow> i \<noteq> [] \<Longrightarrow> router POST (node_path i ''/fs'') = Some (EpFs i)"
  by (simp add: router_def node_path_segments)

lemma router_deploy: "CHR ''/'' \<notin> set i \<Longrightarrow> i \<noteq> [] \<Longrightarrow> router POST (node_path i ''/deploy'') = Some (EpDeploy i)"
  by (simp add: router_def node_path_segments)

lemma router_metrics: "CHR ''/'' \<notin> set i \<Longrightarrow> i \<noteq> [] \<Longrightarrow> router GET (node_path i ''/metrics'') = Some (EpNodeMetrics i)"
  by (simp add: router_def node_path_segments)

lemma router_node: "CHR ''/'' \<notin> set i \<Longrightarrow> i \<noteq> [] \<Longrightarrow> router GET (node_path i []) = Some (EpGetNode i)"
  by (simp add: router_def node_path_def split_on_segment)

text \<open>A node whose identifier has a slash is out of reach: its paths are those of another resource.\<close>

lemma slash_id_misrouted:
  assumes "CHR ''/'' \<notin> set i" and "i \<noteq> []"
  shows "router GET (node_path (i @ ''/metrics'') []) = Some (EpNodeMetrics i)"
  using router_metrics [OF assms] by (simp add: node_path_def)

end
