(* ===== verification/Cli.thy ===== *)
theory Cli
  imports Rest Bench
begin

text \<open>
  The operator's command line, \<open>hpc-cli/src\<close>: the REST client of \<open>client.rs\<close>, the helpers of
  \<open>output.rs\<close>, the commands under \<open>commands/\<close> and the dispatch of \<open>main.rs\<close>. The HTTP exchange,
  reading JSON, writing files and rendering a double with a number of decimals are arguments; a
  command's result is what it prints, a table being its header and rows.
\<close>

section \<open>Output\<close>

datatype color = Cyan | Green | Yellow | Red | Blue

record cell =
  ce_text :: string
  ce_color :: "color option"

datatype out = Line string | Table "cell list" "cell list list"

definition plain :: "string \<Rightarrow> cell" where
  "plain s = \<lparr>ce_text = s, ce_color = None\<rparr>"

definition out_table :: "string list \<Rightarrow> cell list list \<Rightarrow> out" where
  "out_table headers rows = Table (map (\<lambda>h. \<lparr>ce_text = h, ce_color = Some Cyan\<rparr>) headers) rows"

definition UNITS :: "string list" where
  "UNITS = [''B'', ''KiB'', ''MiB'', ''GiB'', ''TiB'', ''PiB'']"

text \<open>The loop of \<open>human_bytes\<close>.\<close>

function human_scale :: "f64 \<Rightarrow> nat \<Rightarrow> f64 \<times> nat" where
  "human_scale val u =
     (if val \<ge> f64_lit 1024 1 \<and> u < length UNITS - 1
      then human_scale (f64_div val (f64_lit 1024 1)) (u + 1) else (val, u))"
  by auto
termination by (relation "measure (\<lambda>(val, u). length UNITS - u)") auto

declare human_scale.simps [simp del]

text \<open>\<open>fmt n\<close> renders a double with \<open>n\<close> decimals.\<close>

definition human_bytes :: "(nat \<Rightarrow> f64 \<Rightarrow> string) \<Rightarrow> u64 \<Rightarrow> string" where
  "human_bytes fmt bytes =
     (let (val, u) = human_scale (f64_of_u64 bytes) 0 in
      if u = 0 then show_nat (unat bytes) @ '' B'' else fmt 2 val @ '' '' @ UNITS ! u)"

definition human_rate :: "(nat \<Rightarrow> f64 \<Rightarrow> string) \<Rightarrow> u64 \<Rightarrow> string" where
  "human_rate fmt bytes_per_sec = human_bytes fmt bytes_per_sec @ ''/s''"

definition status_cell :: "node_status \<Rightarrow> cell" where
  "status_cell status =
     (let (text, color) = (case status of
          Healthy \<Rightarrow> (''healthy'', Green) | Registered \<Rightarrow> (''healthy'', Green)
        | Degraded \<Rightarrow> (''degraded'', Yellow)
        | Unreachable \<Rightarrow> (''unreachable'', Red)
        | Draining \<Rightarrow> (''draining'', Blue))
      in \<lparr>ce_text = text, ce_color = Some color\<rparr>)"

text \<open>\<open>format!("{:?}").to_lowercase()\<close> of a role and of a status.\<close>

fun role_debug :: "node_role \<Rightarrow> string" where
  "role_debug Unspecified = ''unspecified''" | "role_debug Storage = ''storage''"
| "role_debug Compute = ''compute''" | "role_debug Metadata = ''metadata''" | "role_debug Gateway = ''gateway''"

fun status_debug :: "node_status \<Rightarrow> string" where
  "status_debug Registered = ''registered''" | "status_debug Healthy = ''healthy''"
| "status_debug Degraded = ''degraded''" | "status_debug Unreachable = ''unreachable''"
| "status_debug Draining = ''draining''"

section \<open>Client\<close>

text \<open>An error is its chain of contexts, the outermost first.\<close>

type_synonym 'a cli_result = "string list + 'a"

text \<open>
  The world outside the client: the exchange, the daemon's error body if the bytes are one, lossy
  decoding, and the JSON readers of the answers.
\<close>

record cli_status =
  cls_total_nodes :: nat
  cls_healthy :: nat
  cls_degraded :: nat
  cls_unreachable :: nat
  cls_connected_streams :: nat

record cli_ack =
  ca_command_id :: string
  ca_node_id :: string

record api_client =
  ac_base :: string
  ac_http :: "http_request \<Rightarrow> string + http_response"
  ac_error_body :: "string \<Rightarrow> string option"
  ac_lossy :: "string \<Rightarrow> string"
  ac_read_status :: "string \<Rightarrow> string + cli_status"
  ac_read_nodes :: "string \<Rightarrow> string + node_record list"
  ac_read_node :: "string \<Rightarrow> string + node_record"
  ac_read_metrics :: "string \<Rightarrow> string + metrics_report"
  ac_read_ack :: "string \<Rightarrow> string + cli_ack"

text \<open>\<open>ApiClient::new\<close> once the HTTP client is built: the trailing slashes are cut off.\<close>

definition client_new :: "string \<Rightarrow> api_client \<Rightarrow> api_client" where
  "client_new base C = C\<lparr>ac_base := trim_end_matches (CHR ''/'') base\<rparr>"

definition with_ctx :: "string \<Rightarrow> string + 'a \<Rightarrow> 'a cli_result" where
  "with_ctx c r = map_err (\<lambda>e. [c, e]) r"

definition client_decode :: "api_client \<Rightarrow> (string \<Rightarrow> string + 'a) \<Rightarrow> http_response \<Rightarrow> string \<Rightarrow> 'a cli_result" where
  "client_decode C read resp url =
     and_then (with_ctx (''reading '' @ url) (hr_body resp)) (\<lambda>bytes.
     if \<not> (200 \<le> hr_status resp \<and> hr_status resp \<le> 299)
     then (let msg = (case ac_error_body C bytes of Some e \<Rightarrow> e | None \<Rightarrow> ac_lossy C bytes)
           in Inl [url @ '' -> '' @ hr_status_text resp @ '': '' @ msg])
     else with_ctx (''decoding response from '' @ url) (read bytes))"

definition client_get :: "api_client \<Rightarrow> (string \<Rightarrow> string + 'a) \<Rightarrow> string \<Rightarrow> 'a cli_result" where
  "client_get C read path =
     (let url = ac_base C @ path in
      and_then (with_ctx (''GET '' @ url) (ac_http C (HttpGet url))) (\<lambda>resp. client_decode C read resp url))"

definition client_post :: "api_client \<Rightarrow> (string \<Rightarrow> string + 'a) \<Rightarrow> string \<Rightarrow> json_value \<Rightarrow> 'a cli_result" where
  "client_post C read path body =
     (let url = ac_base C @ path in
      and_then (with_ctx (''POST '' @ url) (ac_http C (HttpPost url body))) (\<lambda>resp. client_decode C read resp url))"

definition client_cluster_status :: "api_client \<Rightarrow> cli_status cli_result" where
  "client_cluster_status C = client_get C (ac_read_status C) ''/api/v1/cluster/status''"

definition client_list_nodes :: "api_client \<Rightarrow> node_record list cli_result" where
  "client_list_nodes C = client_get C (ac_read_nodes C) ''/api/v1/nodes''"

definition client_get_node :: "api_client \<Rightarrow> string \<Rightarrow> node_record cli_result" where
  "client_get_node C i = client_get C (ac_read_node C) (''/api/v1/nodes/'' @ i)"

definition client_node_metrics :: "api_client \<Rightarrow> string \<Rightarrow> metrics_report cli_result" where
  "client_node_metrics C i = client_get C (ac_read_metrics C) (''/api/v1/nodes/'' @ i @ ''/metrics'')"

definition client_deploy :: "api_client \<Rightarrow> string \<Rightarrow> json_value \<Rightarrow> cli_ack cli_result" where
  "client_deploy C i body = client_post C (ac_read_ack C) (''/api/v1/nodes/'' @ i @ ''/deploy'') body"

definition client_fs_command :: "api_client \<Rightarrow> string \<Rightarrow> json_value \<Rightarrow> cli_ack cli_result" where
  "client_fs_command C i body = client_post C (ac_read_ack C) (''/api/v1/nodes/'' @ i @ ''/fs'') body"

section \<open>Node commands\<close>

definition pct :: "(nat \<Rightarrow> f64 \<Rightarrow> string) \<Rightarrow> f64 \<Rightarrow> string" where
  "pct fmt x = fmt 0 (f64_mul x (f64_lit 100 1)) @ ''%''"

definition node_row :: "(nat \<Rightarrow> f64 \<Rightarrow> string) \<Rightarrow> u64 \<Rightarrow> node_record \<Rightarrow> cell list" where
  "node_row fmt now n =
     (let (cpu, mem, disk) = (case nr_latest_metrics n of
          Some m \<Rightarrow> (fmt 0 (usage_percent (mr_cpu m)) @ ''%'', pct fmt (mem_used_fraction (mr_memory m)),
                    pct fmt (foldl f64_max f64_zero (map disk_used_fraction (mr_disks m))))
        | None \<Rightarrow> (''-'', ''-'', ''-''))
      in [plain (ni_node_id (nr_info n)), plain (role_debug (ni_role (nr_info n))), status_cell (nr_status n),
          plain cpu, plain mem, plain disk,
          plain (show_nat (unat (saturating_sub now (nr_last_seen_unix n))) @ ''s ago'')])"

definition node_list :: "(nat \<Rightarrow> f64 \<Rightarrow> string) \<Rightarrow> u64 \<Rightarrow> api_client \<Rightarrow> out list cli_result" where
  "node_list fmt now C =
     and_then (client_list_nodes C) (\<lambda>nodes.
     and_then (client_cluster_status C) (\<lambda>status.
     if nodes = [] then Inr [Line ''no nodes registered'']
     else Inr [out_table [''NODE'', ''ROLE'', ''STATUS'', ''CPU'', ''MEM'', ''DISK'', ''LAST SEEN''] (map (node_row fmt now) nodes),
       Line [], Line (show_nat (cls_total_nodes status) @ '' node(s): '' @ show_nat (cls_healthy status) @ '' healthy, '' @
         show_nat (cls_degraded status) @ '' degraded, '' @ show_nat (cls_unreachable status) @ '' unreachable, '' @
         show_nat (cls_connected_streams status) @ '' connected'')]))"

definition disk_row :: "(nat \<Rightarrow> f64 \<Rightarrow> string) \<Rightarrow> disk_metrics \<Rightarrow> cell list" where
  "disk_row fmt d = map plain [disk_device d, disk_mount_point d, disk_fs_type d, pct fmt (disk_used_fraction d),
     human_bytes fmt (disk_total_bytes d), human_rate fmt (read_bytes_per_sec d), human_rate fmt (write_bytes_per_sec d)]"

definition node_status_cmd :: "(nat \<Rightarrow> f64 \<Rightarrow> string) \<Rightarrow> api_client \<Rightarrow> string \<Rightarrow> out list cli_result" where
  "node_status_cmd fmt C i =
     and_then (client_get_node C i) (\<lambda>node.
     let info = nr_info node;
         fields = out_table [''FIELD'', ''VALUE''] (map (map plain)
           [[''node id'', ni_node_id info], [''hostname'', ni_hostname info], [''address'', ni_ip_address info],
            [''role'', role_debug (ni_role info)], [''status'', status_debug (nr_status node)], [''os'', ni_os info],
            [''kernel'', ni_kernel_version info], [''agent'', ni_agent_version info],
            [''cpu cores'', show_nat (unat (ni_cpu_cores info))],
            [''memory'', human_bytes fmt (ni_total_memory_bytes info)]])
     in Inr (fields # (case nr_latest_metrics node of
          None \<Rightarrow> [Line [], Line ''no metrics reported yet'']
        | Some m \<Rightarrow> [Line [], Line (''latest sample @ '' @ show_nat (unat (mr_timestamp_unix m)) @ '':''),
            Line (''  cpu '' @ fmt 1 (usage_percent (mr_cpu m)) @ ''%   mem '' @
              fmt 1 (f64_mul (mem_used_fraction (mr_memory m)) (f64_lit 100 1)) @ ''%   load '' @
              fmt 2 (load_one (mr_load m)) @ ''/'' @ fmt 2 (load_five (mr_load m)) @ ''/'' @ fmt 2 (load_fifteen (mr_load m)))] @
            (if mr_disks m = [] then []
             else [out_table [''DEVICE'', ''MOUNT'', ''FS'', ''USED'', ''TOTAL'', ''READ'', ''WRITE''] (map (disk_row fmt) (mr_disks m))]))))"

definition deploy_body :: "string \<Rightarrow> string \<Rightarrow> deploy_action \<Rightarrow> string \<Rightarrow> (string \<times> string) list \<Rightarrow> json_value" where
  "deploy_body component version action target_path options =
     (let opts = btree_collect (map (\<lambda>(k, v). (k, JStr v)) options) in
      JObj (btree_collect [(''action'', JStr (deploy_action_json action)), (''component'', JStr component),
        (''version'', JStr version), (''target_path'', JStr target_path), (''options'', JObj opts)]))"

definition node_deploy ::
  "api_client \<Rightarrow> string \<Rightarrow> string \<Rightarrow> string \<Rightarrow> deploy_action \<Rightarrow> string \<Rightarrow> (string \<times> string) list \<Rightarrow> out list cli_result" where
  "node_deploy C i component version action target_path options =
     and_then (client_deploy C i (deploy_body component version action target_path options)) (\<lambda>ack.
     Inr [Line (''deploy accepted: command='' @ ca_command_id ack @ '' node='' @ ca_node_id ack @
            '' (outcome is asynchronous; see `hpc node status`)'')])"

section \<open>File system commands\<close>

definition mount_body :: "string \<Rightarrow> string \<Rightarrow> string \<Rightarrow> string list \<Rightarrow> json_value" where
  "mount_body device mount_point fs_type options =
     JObj (btree_collect [(''action'', JStr ''mount''), (''device'', JStr device), (''mount_point'', JStr mount_point),
       (''fs_type'', JStr fs_type), (''mount_options'', JArr (map JStr options))])"

definition unmount_body :: "string \<Rightarrow> json_value" where
  "unmount_body mount_point = JObj (btree_collect [(''action'', JStr ''unmount''), (''mount_point'', JStr mount_point)])"

definition fs_mount_cmd :: "api_client \<Rightarrow> string \<Rightarrow> string \<Rightarrow> string \<Rightarrow> string \<Rightarrow> string list \<Rightarrow> out list cli_result" where
  "fs_mount_cmd C i device mount_point fs_type options =
     and_then (client_fs_command C i (mount_body device mount_point fs_type options)) (\<lambda>ack.
     Inr [Line (''mount accepted: command='' @ ca_command_id ack @ '' node='' @ ca_node_id ack @
            '' ('' @ device @ '' -> '' @ mount_point @ '')'')])"

definition fs_unmount_cmd :: "api_client \<Rightarrow> string \<Rightarrow> string \<Rightarrow> out list cli_result" where
  "fs_unmount_cmd C i mount_point =
     and_then (client_fs_command C i (unmount_body mount_point)) (\<lambda>ack.
     Inr [Line (''unmount accepted: command='' @ ca_command_id ack @ '' node='' @ ca_node_id ack @
            '' ('' @ mount_point @ '')'')])"

definition fs_disk_row :: "(nat \<Rightarrow> f64 \<Rightarrow> string) \<Rightarrow> disk_metrics \<Rightarrow> cell list" where
  "fs_disk_row fmt d =
     (let used = saturating_sub (disk_total_bytes d) (disk_available_bytes d) in
      map plain [disk_mount_point d, disk_fs_type d, disk_device d, human_bytes fmt used,
        human_bytes fmt (disk_available_bytes d), human_bytes fmt (disk_total_bytes d), pct fmt (disk_used_fraction d)])"

definition fs_row :: "(nat \<Rightarrow> f64 \<Rightarrow> string) \<Rightarrow> filesystem_metrics \<Rightarrow> cell list" where
  "fs_row fmt f =
     map plain [fsm_mount_point f, fsm_name f, (if fsm_mounted f then ''mounted'' else ''unmounted''),
       human_bytes fmt (fsm_used_bytes f), human_bytes fmt (saturating_sub (fsm_total_bytes f) (fsm_used_bytes f)),
       human_bytes fmt (fsm_total_bytes f), ''-'']"

definition fs_status_cmd :: "(nat \<Rightarrow> f64 \<Rightarrow> string) \<Rightarrow> api_client \<Rightarrow> string \<Rightarrow> out list cli_result" where
  "fs_status_cmd fmt C i =
     and_then (client_node_metrics C i) (\<lambda>metrics.
     if mr_disks metrics = [] \<and> mr_filesystems metrics = []
     then Inr [Line (''node '' @ i @ '' reports no filesystems'')]
     else Inr [out_table [''MOUNT'', ''FS'', ''DEVICE'', ''USED'', ''AVAIL'', ''TOTAL'', ''USE%'']
       (map (fs_disk_row fmt) (mr_disks metrics) @ map (fs_row fmt) (mr_filesystems metrics))])"

end
