(* ===== verification/Cli_Main.thy ===== *)
theory Cli_Main
  imports Cli
begin

text \<open>
  The benchmark commands of \<open>hpc-cli/src/commands/bench.rs\<close>, the arguments and dispatch of
  \<open>hpc-cli/src/main.rs\<close>, and how the daemon reads the bodies that the commands send.
\<close>

section \<open>Benchmark commands\<close>

text \<open>The Greek letter mu in UTF-8.\<close>

definition micros :: "u64 \<Rightarrow> string" where
  "micros n = show_nat (unat n) @ '' '' @ [CHR 0xC2, CHR 0xB5] @ ''s''"

definition result_row :: "(nat \<Rightarrow> f64 \<Rightarrow> string) \<Rightarrow> bench_result \<Rightarrow> cell list" where
  "result_row fmt r = map plain [io_pattern_fmt (br_pattern r), human_bytes fmt (block_size_bytes r),
     fmt 1 (throughput_mib_s r) @ '' MiB/s'', fmt 0 (iops r), micros (p50_us (latency r)), micros (p99_us (latency r)),
     micros (p999_us (latency r)), micros (max_us (latency r))]"

definition print_report :: "(nat \<Rightarrow> f64 \<Rightarrow> string) \<Rightarrow> bench_report \<Rightarrow> out list" where
  "print_report fmt report =
     [Line [], Line (''benchmark report for '' @ bp_target_path report @ '' (started @ '' @
        show_nat (unat (bp_started_at_unix report)) @ '')''),
      out_table [''PATTERN'', ''BLOCK'', ''THROUGHPUT'', ''IOPS'', ''p50'', ''p99'', ''p99.9'', ''max'']
        (map (result_row fmt) (bp_results report))]"

text \<open>\<open>hpc bench run\<close>: the suite against an environment; \<open>to_json\<close> and \<open>write\<close> may fail.\<close>

definition bench_run_cmd ::
  "(nat \<Rightarrow> f64 \<Rightarrow> string) \<Rightarrow> io_env \<Rightarrow> bench_tools \<Rightarrow> (bench_report \<Rightarrow> string + string) \<Rightarrow>
     (string \<Rightarrow> string \<Rightarrow> string + unit) \<Rightarrow> bench_options \<Rightarrow> string option \<Rightarrow> out list cli_result" where
  "bench_run_cmd fmt env T to_json write opts json =
     (let intro = Line (''running '' @ show_nat (length (bo_patterns opts)) @ '' scenario(s) against '' @ bo_path opts @
            '' (file '' @ human_bytes fmt (bo_file_size opts) @ '', block '' @ human_bytes fmt (bo_block_size opts) @
            '')'' @ [CHR 0xE2, CHR 0x80, CHR 0xA6]) in
      and_then (with_ctx ''running benchmark suite'' (map_err hpc_error_to_string (fst (bench_run env T opts [])))) (\<lambda>report.
      case json of
        None \<Rightarrow> Inr (intro # print_report fmt report)
      | Some path \<Rightarrow>
          and_then (with_ctx ''serialising report'' (to_json report)) (\<lambda>text.
          and_then (with_ctx (''writing '' @ path) (write path text)) (\<lambda>_.
          Inr (intro # print_report fmt report @ [Line [], Line (''report written to '' @ path)])))))"

definition bench_report_cmd ::
  "(nat \<Rightarrow> f64 \<Rightarrow> string) \<Rightarrow> (string \<Rightarrow> string + string) \<Rightarrow> (string \<Rightarrow> string + bench_report) \<Rightarrow> string \<Rightarrow>
     out list cli_result" where
  "bench_report_cmd fmt fs from_json path =
     and_then (with_ctx (''reading '' @ path) (fs path)) (\<lambda>text.
     and_then (with_ctx (''parsing '' @ path) (from_json text)) (\<lambda>report.
     Inr (print_report fmt report)))"

section \<open>Arguments\<close>

datatype deploy_action_arg = InstallArg | UpgradeArg | RollbackArg | RemoveArg

fun deploy_action_from_arg :: "deploy_action_arg \<Rightarrow> deploy_action" where
  "deploy_action_from_arg InstallArg = Install" | "deploy_action_from_arg UpgradeArg = Upgrade"
| "deploy_action_from_arg RollbackArg = Rollback" | "deploy_action_from_arg RemoveArg = Remove"

datatype pattern_arg = SeqRead | SeqWrite | RandRead | RandWrite

fun pattern_from_arg :: "pattern_arg \<Rightarrow> io_pattern" where
  "pattern_from_arg SeqRead = SequentialRead" | "pattern_from_arg SeqWrite = SequentialWrite"
| "pattern_from_arg RandRead = RandomRead" | "pattern_from_arg RandWrite = RandomWrite"

definition parse_kv :: "string \<Rightarrow> string + string \<times> string" where
  "parse_kv s =
     (case split_once (CHR ''='') s of
        Some (k, v) \<Rightarrow> if k \<noteq> [] then Inr (k, v) else Inl (''expected key=value, got `'' @ s @ ''`'')
      | None \<Rightarrow> Inl (''expected key=value, got `'' @ s @ ''`''))"

datatype node_cmd =
    NodeList
  | NodeStatus string
  | NodeDeploy string string string deploy_action_arg string "(string \<times> string) list"

datatype fs_cmd =
    FsMount string string string string "string list"
  | FsUnmount string string
  | FsStatus string

definition cli_run_node :: "(nat \<Rightarrow> f64 \<Rightarrow> string) \<Rightarrow> u64 \<Rightarrow> api_client \<Rightarrow> string \<Rightarrow> node_cmd \<Rightarrow> out list cli_result" where
  "cli_run_node fmt now C api_url cmd =
     (let api = client_new api_url C in
      case cmd of
        NodeList \<Rightarrow> node_list fmt now api
      | NodeStatus i \<Rightarrow> node_status_cmd fmt api i
      | NodeDeploy i component version action target_path opt \<Rightarrow>
          node_deploy api i component version (deploy_action_from_arg action) target_path opt)"

definition cli_run_fs :: "(nat \<Rightarrow> f64 \<Rightarrow> string) \<Rightarrow> api_client \<Rightarrow> string \<Rightarrow> fs_cmd \<Rightarrow> out list cli_result" where
  "cli_run_fs fmt C api_url cmd =
     (let api = client_new api_url C in
      case cmd of
        FsMount i device mount_point fs_type opt \<Rightarrow> fs_mount_cmd api i device mount_point fs_type opt
      | FsUnmount i mount_point \<Rightarrow> fs_unmount_cmd api i mount_point
      | FsStatus i \<Rightarrow> fs_status_cmd fmt api i)"

datatype bench_cmd =
    BenchRun string u64 u64 "pattern_arg list" bool "string option"
  | BenchReport string

text \<open>The surroundings of the benchmark commands.\<close>

record bench_world =
  bw_env :: io_env
  bw_tools :: bench_tools
  bw_to_json :: "bench_report \<Rightarrow> string + string"
  bw_write :: "string \<Rightarrow> string \<Rightarrow> string + unit"
  bw_read :: "string \<Rightarrow> string + string"
  bw_from_json :: "string \<Rightarrow> string + bench_report"

definition cli_run_bench :: "(nat \<Rightarrow> f64 \<Rightarrow> string) \<Rightarrow> bench_world \<Rightarrow> bench_cmd \<Rightarrow> out list cli_result" where
  "cli_run_bench fmt B cmd =
     (case cmd of
        BenchRun path block_size file_size pattern fsync json \<Rightarrow>
          bench_run_cmd fmt (bw_env B) (bw_tools B) (bw_to_json B) (bw_write B)
            \<lparr>bo_path = path, bo_block_size = block_size, bo_file_size = file_size,
              bo_patterns = map pattern_from_arg pattern, bo_fsync = fsync\<rparr> json
      | BenchReport path \<Rightarrow> bench_report_cmd fmt (bw_read B) (bw_from_json B) path)"

datatype command = NodeCommand node_cmd | FsCommand fs_cmd | BenchCommand bench_cmd

definition cli_main ::
  "(nat \<Rightarrow> f64 \<Rightarrow> string) \<Rightarrow> u64 \<Rightarrow> api_client \<Rightarrow> bench_world \<Rightarrow> string \<Rightarrow> command \<Rightarrow> out list cli_result" where
  "cli_main fmt now C B api_url c =
     (case c of
        NodeCommand cmd \<Rightarrow> cli_run_node fmt now C api_url cmd
      | FsCommand cmd \<Rightarrow> cli_run_fs fmt C api_url cmd
      | BenchCommand cmd \<Rightarrow> cli_run_bench fmt B cmd)"

section \<open>Lemmas\<close>

lemma human_scale_spec:
  "u \<le> 5 \<Longrightarrow> human_scale val u = (val', u') \<Longrightarrow> u \<le> u' \<and> u' \<le> 5 \<and> (u' < 5 \<longrightarrow> \<not> val' \<ge> f64_lit 1024 1)"
proof (induction val u rule: human_scale.induct)
  case (1 val u)
  show ?case
  proof (cases "val \<ge> f64_lit 1024 1 \<and> u < 5")
    case True
    then have "human_scale (f64_div val (f64_lit 1024 1)) (u + 1) = (val', u')"
      using 1(3) by (subst (asm) human_scale.simps) (simp add: UNITS_def)
    then show ?thesis using 1(1) True by (simp add: UNITS_def)
  next
    case False
    then have "val' = val \<and> u' = u" using 1(3) by (subst (asm) human_scale.simps) (auto simp: UNITS_def)
    then show ?thesis using False 1(2) by auto
  qed
qed

lemma parse_kv_join: "CHR ''='' \<notin> set k \<Longrightarrow> k \<noteq> [] \<Longrightarrow> parse_kv (k @ ''='' @ v) = Inr (k, v)"
  using split_once_word [of "CHR ''=''" k v] by (simp add: parse_kv_def)

text \<open>The bodies of the client are read as the requests they stand for.\<close>

lemma btree_insert_map:
  "btree_insert k (f v) (map (\<lambda>(k, v). (k, f v)) m) = map (\<lambda>(k, v). (k, f v)) (btree_insert k v m)"
  by (induction k v m rule: btree_insert.induct) auto

lemma btree_collect_map:
  "btree_collect (map (\<lambda>(k, v). (k, f v)) kvs) = map (\<lambda>(k, v). (k, f v)) (btree_collect kvs)"
proof -
  have "foldl (\<lambda>m (k, v). btree_insert k v m) (map (\<lambda>(k, v). (k, f v)) acc) (map (\<lambda>(k, v). (k, f v)) kvs) =
      map (\<lambda>(k, v). (k, f v)) (foldl (\<lambda>m (k, v). btree_insert k v m) acc kvs)" for acc
    by (induction kvs arbitrary: acc) (auto simp: btree_insert_map)
  from this [of "[]"] show ?thesis by (simp add: btree_collect_def)
qed

lemma read_map_strings: "read_map (JObj (map (\<lambda>(k, v). (k, JStr v)) m)) = Some m"
proof -
  have "map (read_str \<circ> snd) (map (\<lambda>(k, v). (k, JStr v)) m) = map (\<lambda>p. Some (snd p)) m" by auto
  moreover have "map fst (map (\<lambda>(k, v). (k, JStr v)) m) = map fst m" by auto
  ultimately show ?thesis unfolding read_map.simps by (simp only: those_map_Some) (simp add: zip_map_fst_snd)
qed

lemma read_list_strings [simp]: "read_list read_str (JArr (map JStr ss)) = Some ss"
  by (simp add: comp_def)

lemmas body_simps = field_def map_of_btree_collect

lemma mount_body_parsed:
  "read_fs_request (mount_body device mp ty opts) = Some \<lparr>fr_command_id = None, fr_action = Mount, fr_device = device,
    fr_mount_point = mp, fr_fs_type = ty, fr_mount_options = opts, fr_force = False\<rparr>"
proof -
  have "read_fs_action (JStr ''mount'') = Some Mount" using read_fs_action_json [of Mount] by simp
  then show ?thesis
    by (simp add: read_fs_request_def mount_body_def body_simps del: read_list.simps)
qed

lemma unmount_body_parsed:
  "read_fs_request (unmount_body mp) = Some \<lparr>fr_command_id = None, fr_action = Unmount, fr_device = [],
    fr_mount_point = mp, fr_fs_type = [], fr_mount_options = [], fr_force = False\<rparr>"
proof -
  have "read_fs_action (JStr ''unmount'') = Some Unmount" using read_fs_action_json [of Unmount] by simp
  then show ?thesis
    by (simp add: read_fs_request_def unmount_body_def body_simps)
qed

lemma deploy_body_parsed:
  "read_deploy_request (deploy_body component version action target_path opts) =
     Some \<lparr>dr_deployment_id = None, dr_action = action, dr_component = component, dr_version = version,
       dr_target_path = target_path, dr_options = btree_collect opts\<rparr>"
  by (simp add: read_deploy_request_def deploy_body_def body_simps btree_collect_map read_map_strings
      del: read_map.simps)

end
