(* ===== verification/Cli_Daemon.thy ===== *)
theory Cli_Daemon
  imports Cli_Main Command_Streams
begin

text \<open>
  The command line and the daemon together: what a command typed by the operator does to the state
  of the daemon that answers its request, and what the operator reads.
\<close>

section \<open>The request of a command\<close>

text \<open>For a command that changes the cluster: its node, the operation in the path, and the body.\<close>

fun cli_request :: "command \<Rightarrow> (string \<times> string \<times> json_value) option" where
  "cli_request (NodeCommand (NodeDeploy i component version action target_path opts)) =
     Some (i, ''/deploy'', deploy_body component version (deploy_action_from_arg action) target_path opts)"
| "cli_request (FsCommand (FsMount i device mount_point fs_type opts)) =
     Some (i, ''/fs'', mount_body device mount_point fs_type opts)"
| "cli_request (FsCommand (FsUnmount i mount_point)) = Some (i, ''/fs'', unmount_body mount_point)"
| "cli_request _ = None"

text \<open>What the operator asked the node to do, under the id the daemon gives it.\<close>

fun cli_wanted :: "command \<Rightarrow> string \<Rightarrow> node_command list" where
  "cli_wanted (NodeCommand (NodeDeploy i component version action target_path opts)) cid =
     [Deploy \<lparr>deployment_id = cid, ds_action = deploy_action_from_arg action, ds_component = component,
       ds_version = version, ds_target_path = target_path, ds_options = btree_collect opts\<rparr>]"
| "cli_wanted (FsCommand (FsMount i device mount_point fs_type opts)) cid =
     [Fs \<lparr>fs_command_id = cid, fs_act = Mount, fs_device = device, fs_mount_point = mount_point,
       fs_fs_type = fs_type, fs_mount_options = opts, fs_force = False\<rparr>]"
| "cli_wanted (FsCommand (FsUnmount i mount_point)) cid =
     [Fs \<lparr>fs_command_id = cid, fs_act = Unmount, fs_device = [], fs_mount_point = mount_point,
       fs_fs_type = [], fs_mount_options = [], fs_force = False\<rparr>]"
| "cli_wanted _ cid = []"

text \<open>The client reads the acknowledgements and errors that the daemon writes.\<close>

definition wire_agrees :: "rest_wire \<Rightarrow> api_client \<Rightarrow> bool" where
  "wire_agrees W C \<longleftrightarrow>
     (\<forall>a. ac_read_ack C (rw_ack W a) = Inr \<lparr>ca_command_id = da_command_id a, ca_node_id = da_node_id a\<rparr>) \<and>
     (\<forall>m. ac_error_body C (rw_error W m) = Some m)"

text \<open>An identifier that is one path segment and means itself.\<close>

definition plain_id :: "rest_wire \<Rightarrow> string \<Rightarrow> bool" where
  "plain_id W i \<longleftrightarrow> i \<noteq> [] \<and> CHR ''/'' \<notin> set i \<and> rw_decode W i = Some i"

section \<open>Lemmas\<close>

text \<open>The daemon's side: the request reaches the handler of its operation.\<close>

lemma serve_fs:
  assumes "plain_id W i" and "rw_path W url = Some (node_path i ''/fs'')" and "read_fs_request body = Some r"
  shows "api_serve W S uuid now (HttpPost url body) s =
    (let (res, s') = api_fs_command uuid i r s in (map_poll (respond W (rw_ack W)) res, s'))"
  using assms by (simp add: api_serve_def router_fs plain_id_def api_handle_def)

lemma serve_deploy:
  assumes "plain_id W i" and "rw_path W url = Some (node_path i ''/deploy'')"
    and "read_deploy_request body = Some r"
  shows "api_serve W S uuid now (HttpPost url body) s =
    (let (res, s') = api_deploy uuid i r s in (map_poll (respond W (rw_ack W)) res, s'))"
  using assms by (simp add: api_serve_def router_deploy plain_id_def api_handle_def)

lemma map_poll_Ready: "map_poll f p = Ready x \<longleftrightarrow> (\<exists>y. p = Ready y \<and> x = f y)"
  by (cases p) auto

text \<open>What the client makes of the two kinds of answers.\<close>

lemma post_acknowledged:
  assumes "wire_agrees W C" and "ac_http C (HttpPost (ac_base C @ path) body) = Inr (respond W (rw_ack W) (Inr a))"
  shows "client_post C (ac_read_ack C) path body =
    Inr \<lparr>ca_command_id = da_command_id a, ca_node_id = da_node_id a\<rparr>"
  using assms by (simp add: client_post_def client_decode_def with_ctx_def map_err_def and_then_def
    response_def wire_agrees_def)

lemma post_refused:
  assumes "wire_agrees W C" and "ac_http C (HttpPost (ac_base C @ path) body) = Inr (respond W (rw_ack W) (Inl e))"
    and "ae_status e \<in> {BAD_REQUEST, NOT_FOUND, CONFLICT}"
  shows "client_post C (ac_read_ack C) path body =
    Inl [(ac_base C @ path) @ '' -> '' @ rw_text W (ae_status e) @ '': '' @ ae_message e]"
  using assms by (auto simp: client_post_def client_decode_def with_ctx_def map_err_def and_then_def
    response_def wire_agrees_def api_error_into_response_def)

lemma client_new_sel [simp]:
  "ac_base (client_new u C) = trim_end_matches (CHR ''/'') u" "ac_http (client_new u C) = ac_http C"
  "ac_read_ack (client_new u C) = ac_read_ack C" "ac_error_body (client_new u C) = ac_error_body C"
  by (simp_all add: client_new_def)

lemma wire_agrees_new [simp]: "wire_agrees W (client_new u C) = wire_agrees W C"
  by (simp add: wire_agrees_def)

text \<open>A command prints one line with the acknowledgement, or fails as the request did.\<close>

lemma cli_main_posts:
  assumes "cli_request cmd = Some (i, op, body)"
  shows "\<exists>pre post. cli_main fmt now C B u cmd =
    and_then (client_post (client_new u C) (ac_read_ack C) (node_path i op) body) (\<lambda>ack.
      Inr [Line (pre @ ''command='' @ ca_command_id ack @ '' node='' @ ca_node_id ack @ post)])"
  using assms
proof (cases rule: cli_request.cases [of cmd])
  case (1 i' component version action target_path opts)
  then show ?thesis using assms
    by (intro exI [of _ "''deploy accepted: ''"] exI [of _ "'' (outcome is asynchronous; see `hpc node status`)''"])
      (simp add: cli_main_def cli_run_node_def node_deploy_def client_deploy_def node_path_def)
next
  case (2 i' device mount_point fs_type opts)
  then show ?thesis using assms
    by (intro exI [of _ "''mount accepted: ''"] exI [of _ "'' ('' @ device @ '' -> '' @ mount_point @ '')''"])
      (simp add: cli_main_def cli_run_fs_def fs_mount_cmd_def client_fs_command_def node_path_def)
next
  case (3 i' mount_point)
  then show ?thesis using assms
    by (intro exI [of _ "''unmount accepted: ''"] exI [of _ "'' ('' @ mount_point @ '')''"])
      (simp add: cli_main_def cli_run_fs_def fs_unmount_cmd_def client_fs_command_def node_path_def)
qed simp_all

text \<open>What the daemon does with a request: refuse it, or enqueue commands for the node.\<close>

definition answered ::
  "rest_wire \<Rightarrow> 'db shared_state \<Rightarrow> string \<Rightarrow> (string \<Rightarrow> node_command list) \<Rightarrow> http_response \<Rightarrow> 'db shared_state \<Rightarrow> bool" where
  "answered W s i cmds resp s' \<longleftrightarrow>
     (\<exists>e. resp = respond W (rw_ack W) (Inl e) \<and> s' = s \<and> ae_status e \<in> {BAD_REQUEST, NOT_FOUND, CONFLICT}) \<or>
     (\<exists>a c ch. resp = respond W (rw_ack W) (Inr a) \<and> da_node_id a = i \<and> map_of (ss_channels s) i = Some c \<and>
       nth_opt (ss_chans s) c = Some ch \<and> ch_open ch \<and>
       s' = s\<lparr>ss_chans := (ss_chans s)[c := ch\<lparr>ch_queue := ch_queue ch @ cmds (da_command_id a)\<rparr>]\<rparr>)"

lemma fs_request_answered:
  assumes "plain_id W i" and "rw_path W url = Some (node_path i ''/fs'')" and "read_fs_request body = Some r"
    and "api_serve W S uuid now (HttpPost url body) s = (Ready resp, s')"
  shows "answered W s i (\<lambda>cid. [Fs \<lparr>fs_command_id = cid, fs_act = fr_action r, fs_device = fr_device r,
    fs_mount_point = fr_mount_point r, fs_fs_type = fr_fs_type r, fs_mount_options = fr_mount_options r,
    fs_force = fr_force r\<rparr>]) resp s'"
proof -
  obtain res where r: "api_fs_command uuid i r s = (Ready res, s')" and resp: "resp = respond W (rw_ack W) res"
    using assms by (auto simp: serve_fs map_poll_Ready split: prod.splits)
  from fs_command_cases [OF r] show ?thesis
  proof (elim disjE exE conjE, goal_cases)
    case (1 e)
    then show ?case by (auto simp: answered_def resp)
  next
    case (2 a c ch spec)
    then show ?case unfolding answered_def
      by (intro disjI2 exI [of _ a] exI [of _ c] exI [of _ ch]) (cases spec, simp add: resp)
  qed
qed

lemma deploy_request_answered:
  assumes "plain_id W i" and "rw_path W url = Some (node_path i ''/deploy'')" and "read_deploy_request body = Some r"
    and "api_serve W S uuid now (HttpPost url body) s = (Ready resp, s')"
  shows "answered W s i (\<lambda>cid. [Deploy \<lparr>deployment_id = cid, ds_action = dr_action r, ds_component = dr_component r,
    ds_version = dr_version r, ds_target_path = dr_target_path r, ds_options = dr_options r\<rparr>]) resp s'"
proof -
  obtain res where r: "api_deploy uuid i r s = (Ready res, s')" and resp: "resp = respond W (rw_ack W) res"
    using assms by (auto simp: serve_deploy map_poll_Ready split: prod.splits)
  from deploy_cases [OF r] show ?thesis
  proof (elim disjE exE conjE, goal_cases)
    case (1 e)
    then show ?case by (auto simp: answered_def resp)
  next
    case (2 a c ch spec)
    then show ?case unfolding answered_def
      by (intro disjI2 exI [of _ a] exI [of _ c] exI [of _ ch]) (simp add: resp)
  qed
qed

lemma cli_request_answered:
  assumes "cli_request cmd = Some (i, op, body)" and "plain_id W i" and "rw_path W url = Some (node_path i op)"
    and "api_serve W S uuid now (HttpPost url body) s = (Ready resp, s')"
  shows "answered W s i (cli_wanted cmd) resp s'"
proof (cases rule: cli_request.cases [of cmd])
  case (1 i' component version action target_path opts)
  then have "op = ''/deploy''" and body: "body = deploy_body component version (deploy_action_from_arg action) target_path opts"
    using assms(1) by auto
  then show ?thesis
    using deploy_request_answered [OF assms(2) _ _ assms(4)] assms(3)
    by (simp add: 1 body deploy_body_parsed answered_def)
next
  case (2 i' device mount_point fs_type opts)
  then have "op = ''/fs''" and body: "body = mount_body device mount_point fs_type opts" using assms(1) by auto
  then show ?thesis
    using fs_request_answered [OF assms(2) _ _ assms(4)] assms(3)
    by (simp add: 2 body mount_body_parsed answered_def)
next
  case (3 i' mount_point)
  then have "op = ''/fs''" and body: "body = unmount_body mount_point" using assms(1) by auto
  then show ?thesis
    using fs_request_answered [OF assms(2) _ _ assms(4)] assms(3)
    by (simp add: 3 body unmount_body_parsed answered_def)
qed (use assms(1) in simp_all)

section \<open>A sample exchange\<close>

text \<open>An acknowledgement is written with the length of its first string in unary.\<close>

definition sample_wire :: rest_wire where
  "sample_wire = \<lparr>rw_path = (\<lambda>url. Some (drop 8 url)), rw_decode = Some, rw_text = (\<lambda>st. show_nat (http_code st)),
     rw_error = (\<lambda>m. m), rw_status = (\<lambda>_. ''{}''), rw_nodes = (\<lambda>_. ''[]''), rw_node = (\<lambda>_. ''{}''),
     rw_metrics = (\<lambda>_. ''{}''), rw_outcomes = (\<lambda>_. ''[]''),
     rw_ack = (\<lambda>a. replicate (length (da_command_id a)) (CHR ''1'') @ CHR ''0'' # da_command_id a @ da_node_id a),
     rw_reject = (\<lambda>_. \<lparr>hr_status = 404, hr_status_text = ''404 Not Found'', hr_body = Inr []\<rparr>)\<rparr>"

definition sample_read_ack :: "string \<Rightarrow> string + cli_ack" where
  "sample_read_ack s =
     (let n = length (takeWhile (\<lambda>c. c = CHR ''1'') s); r = drop (n + 1) s
      in Inr \<lparr>ca_command_id = take n r, ca_node_id = drop n r\<rparr>)"

definition sample_client :: "'db store \<Rightarrow> 'db shared_state \<Rightarrow> api_client" where
  "sample_client S s = \<lparr>ac_base = [],
     ac_http = (\<lambda>req. case fst (api_serve sample_wire S ''u'' 30 req s) of Ready r \<Rightarrow> Inr r | Pending \<Rightarrow> Inl ''timed out''),
     ac_error_body = Some, ac_lossy = (\<lambda>b. b), ac_read_status = (\<lambda>_. Inl ''?''), ac_read_nodes = (\<lambda>_. Inl ''?''),
     ac_read_node = (\<lambda>_. Inl ''?''), ac_read_metrics = (\<lambda>_. Inl ''?''), ac_read_ack = sample_read_ack\<rparr>"

lemma takeWhile_replicate_stop: "\<not> P d \<Longrightarrow> P c \<Longrightarrow> takeWhile P (replicate n c @ d # r) = replicate n c"
  by (induction n) simp_all

lemma sample_wire_agrees: "wire_agrees sample_wire (sample_client S s)"
  by (simp add: wire_agrees_def sample_wire_def sample_client_def sample_read_ack_def takeWhile_replicate_stop Let_def)

text \<open>The sample node with its stream open, and a request it accepts.\<close>

definition connected1 :: "document mem_db shared_state" where
  "connected1 = sy_state (sample_sys [] Receiving [] [])"

lemma connected1_chans: "ss_chans connected1 = [\<lparr>ch_queue = [], ch_open = True\<rparr>]"
  by (simp add: connected1_def sample_sys_def)

lemma connected_accepts:
  "\<exists>a s'. api_fs_command ''u'' ''n1'' \<lparr>fr_command_id = None, fr_action = Unmount, fr_device = [],
     fr_mount_point = ''/mnt'', fr_fs_type = [], fr_mount_options = [], fr_force = False\<rparr> connected1 = (Ready (Inr a), s')"
proof -
  have "get_node ''n1'' state1 = Some sample_record" by (simp add: get_node_def state1_def)
  then have "get_node ''n1'' connected1 = Some sample_record" "map_of (ss_channels connected1) ''n1'' = Some 0"
    by (simp_all add: connected1_def)
  then have d: "\<exists>s'. dispatch ''n1'' cmd connected1 = (Ready (Inr ()), s')" for cmd
    by (simp add: dispatch_def chan_send_def nth_opt_def connected1_chans chan_capacity_def)
  have "\<not> is_blank ''/mnt''" by (rule not_blankI) (simp_all add: ws_len_def byte_at_def)
  then obtain cid spec where "api_fs_command ''u'' ''n1'' \<lparr>fr_command_id = None, fr_action = Unmount, fr_device = [],
     fr_mount_point = ''/mnt'', fr_fs_type = [], fr_mount_options = [], fr_force = False\<rparr> connected1 =
    dispatch_and_ack ''n1'' cid (Fs spec) connected1"
    by (simp add: api_fs_command_def is_connected_def connected1_def Let_def)
  moreover obtain s' where "dispatch ''n1'' (Fs spec) connected1 = (Ready (Inr ()), s')" using d by blast
  ultimately show ?thesis by (simp add: dispatch_and_ack_def map_err_def and_then_def)
qed

text \<open>The same request for the node before its stream is open.\<close>

lemma sample_not_connected:
  "api_fs_command ''u'' ''n1'' \<lparr>fr_command_id = None, fr_action = Unmount, fr_device = [],
     fr_mount_point = ''/mnt'', fr_fs_type = [], fr_mount_options = [], fr_force = False\<rparr> state1 =
   (Ready (Inl (not_connected_error ''n1'')), state1)"
proof -
  have "\<not> is_blank ''/mnt''" by (rule not_blankI) (simp_all add: ws_len_def byte_at_def)
  then show ?thesis by (simp add: api_fs_command_def is_connected_def state1_def state0_def)
qed

lemma show_nat_409: "show_nat 409 = ''409''"
  by code_simp

section \<open>Properties\<close>

text \<open>
  C17: a mount, unmount or deployment typed by the operator either arrives, exactly as typed and
  never forced, at the end of the node's queue under the id and node that the command line prints;
  or nothing changed, and the operator reads the status of the daemon's response and the reason
  in its body.
\<close>

theorem cli_command_arrives:
  assumes "cli_request cmd = Some (i, op, body)" and "wire_agrees W C" and "plain_id W i"
    and "url = trim_end_matches (CHR ''/'') api_url @ node_path i op" and "rw_path W url = Some (node_path i op)"
    and "api_serve W S uuid now (HttpPost url body) s = (Ready resp, s')"
    and "ac_http C (HttpPost url body) = Inr resp"
  shows "(\<exists>cid pre post c ch.
      cli_main fmt now' C B api_url cmd = Inr [Line (pre @ ''command='' @ cid @ '' node='' @ i @ post)] \<and>
      map_of (ss_channels s) i = Some c \<and> nth_opt (ss_chans s) c = Some ch \<and> ch_open ch \<and>
      s' = s\<lparr>ss_chans := (ss_chans s)[c := ch\<lparr>ch_queue := ch_queue ch @ cli_wanted cmd cid\<rparr>]\<rparr>) \<or>
    (\<exists>st msg. resp = \<lparr>hr_status = http_code st, hr_status_text = rw_text W st, hr_body = Inr (rw_error W msg)\<rparr> \<and>
      cli_main fmt now' C B api_url cmd = Inl [url @ '' -> '' @ rw_text W st @ '': '' @ msg] \<and>
      s' = s \<and> st \<in> {BAD_REQUEST, NOT_FOUND, CONFLICT})"
proof -
  let ?C = "client_new api_url C"
  obtain pre post where run: "cli_main fmt now' C B api_url cmd =
    and_then (client_post ?C (ac_read_ack ?C) (node_path i op) body) (\<lambda>ack.
      Inr [Line (pre @ ''command='' @ ca_command_id ack @ '' node='' @ ca_node_id ack @ post)])"
    using cli_main_posts [OF assms(1), of fmt now' C B api_url] by auto
  have agrees: "wire_agrees W ?C" using assms(2) by simp
  have answer: "ac_http ?C (HttpPost (ac_base ?C @ node_path i op) body) = Inr resp" using assms(4,7) by simp
  from cli_request_answered [OF assms(1,3,5,6)] show ?thesis
    unfolding answered_def
  proof (elim disjE exE conjE, goal_cases)
    case (1 e)
    then show ?case
      using post_refused [OF agrees, of "node_path i op" body e] answer assms(4)
      by (intro disjI2 exI [of _ "ae_status e"] exI [of _ "ae_message e"])
        (simp add: run and_then_def api_error_into_response_def response_def)
  next
    case (2 a c ch)
    then show ?case
      using post_acknowledged [OF agrees, of "node_path i op" body a] answer
      by (intro disjI1 exI [of _ "da_command_id a"] exI [of _ pre] exI [of _ post] exI [of _ c] exI [of _ ch])
        (simp add: run and_then_def)
  qed
qed

theorem cli_command_arrives_witness:
  "\<forall>fmt B. \<exists>cid pre post s' :: document mem_db shared_state.
     cli_main fmt 30 (sample_client sample_store connected1) B ''http://d/'' (FsCommand (FsUnmount ''n1'' ''/mnt'')) =
       Inr [Line (pre @ ''command='' @ cid @ '' node='' @ ''n1'' @ post)] \<and>
     snd (api_serve sample_wire sample_store ''u'' 30
       (HttpPost ''http://d/api/v1/nodes/n1/fs'' (unmount_body ''/mnt'')) connected1) = s' \<and>
     ss_chans s' = [\<lparr>ch_queue = cli_wanted (FsCommand (FsUnmount ''n1'' ''/mnt'')) cid, ch_open = True\<rparr>] \<and>
     cli_main fmt 30 (sample_client sample_store state1) B ''http://d/'' (FsCommand (FsUnmount ''n1'' ''/mnt'')) =
       Inl [''http://d/api/v1/nodes/n1/fs -> 409: node n1 is not connected'']"
proof (intro allI)
  fix fmt B
  let ?url = "''http://d/api/v1/nodes/n1/fs''" and ?body = "unmount_body ''/mnt''"
  let ?cmd = "FsCommand (FsUnmount ''n1'' ''/mnt'')" and ?C = "sample_client sample_store connected1"
  have req: "cli_request ?cmd = Some (''n1'', ''/fs'', ?body)" by simp
  have id: "plain_id sample_wire ''n1''" by (simp add: plain_id_def sample_wire_def)
  have path: "rw_path sample_wire ?url = Some (node_path ''n1'' ''/fs'')"
    by (simp add: sample_wire_def node_path_def)
  have base: "?url = trim_end_matches (CHR ''/'') ''http://d/'' @ node_path ''n1'' ''/fs''"
    by (simp add: trim_end_matches_def node_path_def)
  obtain a s' where ok: "api_fs_command ''u'' ''n1'' \<lparr>fr_command_id = None, fr_action = Unmount, fr_device = [],
      fr_mount_point = ''/mnt'', fr_fs_type = [], fr_mount_options = [], fr_force = False\<rparr> connected1 = (Ready (Inr a), s')"
    using connected_accepts by blast
  have serve: "api_serve sample_wire sample_store ''u'' 30 (HttpPost ?url ?body) connected1 =
      (Ready (respond sample_wire (rw_ack sample_wire) (Inr a)), s')"
    by (simp add: serve_fs [OF id path unmount_body_parsed] ok)
  have http: "ac_http ?C (HttpPost ?url ?body) = Inr (respond sample_wire (rw_ack sample_wire) (Inr a))"
    using serve by (simp add: sample_client_def del: respond.simps)
  have off: "api_fs_command ''u'' ''n1'' \<lparr>fr_command_id = None, fr_action = Unmount, fr_device = [],
      fr_mount_point = ''/mnt'', fr_fs_type = [], fr_mount_options = [], fr_force = False\<rparr> state1 =
      (Ready (Inl (not_connected_error ''n1'')), state1)"
    by (rule sample_not_connected)
  have serve0: "api_serve sample_wire sample_store ''u'' 30 (HttpPost ?url ?body) state1 =
      (Ready (respond sample_wire (rw_ack sample_wire) (Inl (not_connected_error ''n1''))), state1)"
    by (simp add: serve_fs [OF id path unmount_body_parsed] off)
  have http0: "ac_http (sample_client sample_store state1) (HttpPost ?url ?body) =
      Inr (respond sample_wire (rw_ack sample_wire) (Inl (not_connected_error ''n1'')))"
    using serve0 by (simp add: sample_client_def del: respond.simps)
  from cli_command_arrives [OF req sample_wire_agrees id base path serve0 http0, of fmt 30 B]
  have refused: "cli_main fmt 30 (sample_client sample_store state1) B ''http://d/'' ?cmd =
      Inl [''http://d/api/v1/nodes/n1/fs -> 409: node n1 is not connected'']"
    by (auto simp: state1_def state0_def api_error_into_response_def response_def not_connected_error_def
        api_error_new_def sample_wire_def show_nat_409)
  have "s' \<noteq> connected1"
  proof
    assume "s' = connected1"
    moreover from fs_command_enqueues [OF ok] obtain c ch spec where
      "nth_opt (ss_chans connected1) c = Some ch"
      "s' = connected1\<lparr>ss_chans := (ss_chans connected1)[c := ch\<lparr>ch_queue := ch_queue ch @ [Fs spec]\<rparr>]\<rparr>"
      by blast
    then have "ss_chans s' = [\<lparr>ch_queue = [Fs spec], ch_open = True\<rparr>]"
      by (auto simp: connected1_chans nth_opt_def split: if_splits)
    ultimately show False by (simp add: connected1_chans)
  qed
  with cli_command_arrives [OF req sample_wire_agrees id base path serve http, of fmt 30 B]
  obtain cid pre post c ch where "cli_main fmt 30 ?C B ''http://d/'' ?cmd =
      Inr [Line (pre @ ''command='' @ cid @ '' node='' @ ''n1'' @ post)]"
    "nth_opt (ss_chans connected1) c = Some ch"
    "s' = connected1\<lparr>ss_chans := (ss_chans connected1)[c := ch\<lparr>ch_queue := ch_queue ch @ cli_wanted ?cmd cid\<rparr>]\<rparr>"
    by blast
  moreover from this(2,3) have "ss_chans s' = [\<lparr>ch_queue = cli_wanted ?cmd cid, ch_open = True\<rparr>]"
    by (auto simp: connected1_chans nth_opt_def split: if_splits)
  ultimately show "\<exists>cid pre post s' :: document mem_db shared_state.
     cli_main fmt 30 (sample_client sample_store connected1) B ''http://d/'' (FsCommand (FsUnmount ''n1'' ''/mnt'')) =
       Inr [Line (pre @ ''command='' @ cid @ '' node='' @ ''n1'' @ post)] \<and>
     snd (api_serve sample_wire sample_store ''u'' 30
       (HttpPost ''http://d/api/v1/nodes/n1/fs'' (unmount_body ''/mnt'')) connected1) = s' \<and>
     ss_chans s' = [\<lparr>ch_queue = cli_wanted (FsCommand (FsUnmount ''n1'' ''/mnt'')) cid, ch_open = True\<rparr>] \<and>
     cli_main fmt 30 (sample_client sample_store state1) B ''http://d/'' (FsCommand (FsUnmount ''n1'' ''/mnt'')) =
       Inl [''http://d/api/v1/nodes/n1/fs -> 409: node n1 is not connected'']"
    using serve refused by (intro exI [of _ cid] exI [of _ pre] exI [of _ post] exI [of _ s']) simp
qed

end
