(* ===== verification/Monitor.thy ===== *)
theory Monitor
  imports Config Text Cluster_Lemmas
begin

text \<open>
  The health monitor: the threshold policy and the scrape loop of \<open>hpc-monitor/src/health.rs\<close> and
  the exported series of \<open>hpc-monitor/src/metrics.rs\<close>. Rendering a double with a number of
  decimals is an argument; a gauge vector is a map from its label values.
\<close>

section \<open>Policy\<close>

record float_fmt =
  fmt0 :: "f64 \<Rightarrow> string"
  fmt2 :: "f64 \<Rightarrow> string"

definition cpu_reason :: "float_fmt \<Rightarrow> thresholds \<Rightarrow> metrics_report \<Rightarrow> string list" where
  "cpu_reason F t m =
     (let cpu_frac = f64_div (usage_percent (mr_cpu m)) (f64_lit 100 1) in
      if cpu_frac \<ge> cpu_degraded t
      then [''cpu '' @ fmt0 F (usage_percent (mr_cpu m)) @ ''% >= '' @
             fmt0 F (f64_mul (cpu_degraded t) (f64_lit 100 1)) @ ''%''] else [])"

definition memory_reason :: "float_fmt \<Rightarrow> thresholds \<Rightarrow> metrics_report \<Rightarrow> string list" where
  "memory_reason F t m =
     (let mem_frac = mem_used_fraction (mr_memory m) in
      if mem_frac \<ge> memory_degraded t
      then [''memory '' @ fmt0 F (f64_mul mem_frac (f64_lit 100 1)) @ ''% >= '' @
             fmt0 F (f64_mul (memory_degraded t) (f64_lit 100 1)) @ ''%''] else [])"

fun disk_reasons :: "float_fmt \<Rightarrow> thresholds \<Rightarrow> disk_metrics list \<Rightarrow> string list" where
  "disk_reasons F t [] = []"
| "disk_reasons F t (d # ds) =
     (let frac = disk_used_fraction d in
      (if frac \<ge> disk_degraded t
       then [''disk '' @ disk_mount_point d @ '' '' @ fmt0 F (f64_mul frac (f64_lit 100 1)) @ ''% >= '' @
              fmt0 F (f64_mul (disk_degraded t) (f64_lit 100 1)) @ ''%''] else []) @ disk_reasons F t ds)"

definition load_per_core :: "node_record \<Rightarrow> metrics_report \<Rightarrow> f64" where
  "load_per_core node m =
     (let cores = f64_of_u32 (max (ni_cpu_cores (nr_info node)) 1) in f64_div (load_one (mr_load m)) cores)"

definition load_reason :: "float_fmt \<Rightarrow> thresholds \<Rightarrow> node_record \<Rightarrow> metrics_report \<Rightarrow> string list" where
  "load_reason F t node m =
     (if load_per_core node m \<ge> load_per_core_degraded t
      then [''load/core '' @ fmt2 F (load_per_core node m) @ '' >= '' @ fmt2 F (load_per_core_degraded t)]
      else [])"

text \<open>\<open>Detector::evaluate\<close>.\<close>

definition evaluate :: "float_fmt \<Rightarrow> thresholds \<Rightarrow> node_record \<Rightarrow> string list" where
  "evaluate F t node =
     (if nr_status node = Unreachable then [''unreachable (no heartbeat)'']
      else case nr_latest_metrics node of
        None \<Rightarrow> []
      | Some m \<Rightarrow> cpu_reason F t m @ memory_reason F t m @ disk_reasons F t (mr_disks m) @
                  load_reason F t node m)"

section \<open>Exported series\<close>

record exporter =
  ex_nodes_total :: int
  ex_nodes_healthy :: int
  ex_nodes_degraded :: int
  ex_nodes_unreachable :: int
  ex_node_up :: "string \<Rightarrow> int option"
  ex_node_degraded :: "string \<Rightarrow> int option"
  ex_cpu_percent :: "string \<Rightarrow> f64 option"
  ex_memory_ratio :: "string \<Rightarrow> f64 option"
  ex_load1 :: "string \<Rightarrow> f64 option"
  ex_disk_ratio :: "string \<times> string \<Rightarrow> f64 option"
  ex_scrape_errors :: u64


definition reset_series :: "exporter \<Rightarrow> exporter" where
  "reset_series e = e\<lparr>ex_node_up := Map.empty, ex_node_degraded := Map.empty,
     ex_cpu_percent := Map.empty, ex_memory_ratio := Map.empty, ex_load1 := Map.empty,
     ex_disk_ratio := Map.empty\<rparr>"

fun set_disks :: "string \<Rightarrow> disk_metrics list \<Rightarrow> exporter \<Rightarrow> exporter" where
  "set_disks i [] e = e"
| "set_disks i (d # ds) e =
     set_disks i ds (e\<lparr>ex_disk_ratio := (ex_disk_ratio e)((i, disk_mount_point d) \<mapsto> disk_used_fraction d)\<rparr>)"

definition set_metrics :: "string \<Rightarrow> metrics_report \<Rightarrow> exporter \<Rightarrow> exporter" where
  "set_metrics i m e = set_disks i (mr_disks m)
     (e\<lparr>ex_cpu_percent := (ex_cpu_percent e)(i \<mapsto> usage_percent (mr_cpu m)),
        ex_memory_ratio := (ex_memory_ratio e)(i \<mapsto> mem_used_fraction (mr_memory m)),
        ex_load1 := (ex_load1 e)(i \<mapsto> load_one (mr_load m))\<rparr>)"

definition flag :: "bool \<Rightarrow> int" where
  "flag b = (if b then 1 else 0)"

text \<open>The loop of \<open>update\<close> over the nodes, with its counters and the degraded nodes so far.\<close>

fun update_loop ::
  "float_fmt \<Rightarrow> thresholds \<Rightarrow> node_record list \<Rightarrow> int \<times> int \<times> int \<Rightarrow> (string \<times> string list) list \<Rightarrow>
     exporter \<Rightarrow> (int \<times> int \<times> int) \<times> (string \<times> string list) list \<times> exporter" where
  "update_loop F t [] counts degraded_nodes e = (counts, degraded_nodes, e)"
| "update_loop F t (node # nodes) (h, d, u) degraded_nodes e =
     (let i = ni_node_id (nr_info node);
          e = e\<lparr>ex_node_up := (ex_node_up e)(i \<mapsto> flag (nr_status node \<noteq> Unreachable))\<rparr>;
          counts = (case nr_status node of
              Unreachable \<Rightarrow> (h, d, u + 1) | Degraded \<Rightarrow> (h, d + 1, u) | _ \<Rightarrow> (h + 1, d, u));
          e = (case nr_latest_metrics node of Some m \<Rightarrow> set_metrics i m e | None \<Rightarrow> e);
          reasons = evaluate F t node;
          e = e\<lparr>ex_node_degraded := (ex_node_degraded e)(i \<mapsto> flag (reasons \<noteq> []))\<rparr>;
          degraded_nodes = (if reasons \<noteq> [] then degraded_nodes @ [(i, reasons)] else degraded_nodes)
      in update_loop F t nodes counts degraded_nodes e)"

definition update ::
  "float_fmt \<Rightarrow> thresholds \<Rightarrow> node_record list \<Rightarrow> exporter \<Rightarrow> (string \<times> string list) list \<times> exporter" where
  "update F t nodes e =
     (let ((h, d, u), degraded_nodes, e) = update_loop F t nodes (0, 0, 0) [] (reset_series e)
      in (degraded_nodes, e\<lparr>ex_nodes_total := int (length nodes), ex_nodes_healthy := h,
            ex_nodes_degraded := d, ex_nodes_unreachable := u\<rparr>))"

section \<open>Registration and text\<close>

text \<open>
  A metric family as it is handed to the prometheus crate. \<open>mk\<close> checks the options of a
  collector, \<open>register\<close> adds it to the registry and \<open>encode\<close> is the text encoder.
\<close>

record family =
  fa_name :: string
  fa_help :: string
  fa_labels :: "string list"

definition opts :: "string \<Rightarrow> string \<Rightarrow> string list \<Rightarrow> family" where
  "opts name help labels = \<lparr>fa_name = name, fa_help = help, fa_labels = labels\<rparr>"

definition reg_err :: "string \<Rightarrow> hpc_error" where
  "reg_err e = MetricsErr e"

definition add_family ::
  "(family \<Rightarrow> string + unit) \<Rightarrow> (family \<Rightarrow> 'reg \<Rightarrow> string + 'reg) \<Rightarrow> family \<Rightarrow> 'reg \<Rightarrow> 'reg result" where
  "add_family mk register f reg =
     and_then (map_err reg_err (mk f)) (\<lambda>_. map_err reg_err (register f reg))"

fun add_families ::
  "(family \<Rightarrow> string + unit) \<Rightarrow> (family \<Rightarrow> 'reg \<Rightarrow> string + 'reg) \<Rightarrow> family list \<Rightarrow> 'reg \<Rightarrow> 'reg result" where
  "add_families mk register [] reg = Inr reg"
| "add_families mk register (f # fs) reg =
     and_then (add_family mk register f reg) (\<lambda>reg. add_families mk register fs reg)"

definition exported :: "family list" where
  "exported =
     [opts ''hpc_scrape_errors_total'' ''daemon scrape failures'' [],
      opts ''hpc_nodes_total'' ''total registered nodes'' [],
      opts ''hpc_nodes_healthy'' ''nodes reporting healthy'' [],
      opts ''hpc_nodes_degraded'' ''nodes in a degraded state'' [],
      opts ''hpc_nodes_unreachable'' ''nodes with no heartbeat'' [],
      opts ''hpc_node_up'' ''1 if the node is reachable'' [''node''],
      opts ''hpc_node_degraded'' ''1 if the node breaches a threshold'' [''node''],
      opts ''hpc_node_cpu_percent'' ''node CPU usage percent'' [''node''],
      opts ''hpc_node_memory_used_ratio'' ''node memory used fraction'' [''node''],
      opts ''hpc_node_load1'' ''node 1-minute load average'' [''node''],
      opts ''hpc_node_disk_used_ratio'' ''filesystem used fraction'' [''node'', ''mount'']]"

definition empty_exporter :: exporter where
  "empty_exporter = \<lparr>ex_nodes_total = 0, ex_nodes_healthy = 0, ex_nodes_degraded = 0, ex_nodes_unreachable = 0,
     ex_node_up = Map.empty, ex_node_degraded = Map.empty, ex_cpu_percent = Map.empty,
     ex_memory_ratio = Map.empty, ex_load1 = Map.empty, ex_disk_ratio = Map.empty, ex_scrape_errors = 0\<rparr>"

definition metrics_new ::
  "(family \<Rightarrow> string + unit) \<Rightarrow> (family \<Rightarrow> 'reg \<Rightarrow> string + 'reg) \<Rightarrow> 'reg \<Rightarrow> (exporter \<times> 'reg) result" where
  "metrics_new mk register new_registry =
     and_then (add_families mk register exported new_registry) (\<lambda>reg. Inr (empty_exporter, reg))"

text \<open>\<open>from_utf8\<close> is \<open>String::from_utf8\<close>, whose error is a text.\<close>

definition render ::
  "(exporter \<Rightarrow> 'reg \<Rightarrow> string + u8 list) \<Rightarrow> (u8 list \<Rightarrow> string + string) \<Rightarrow> exporter \<times> 'reg \<Rightarrow> string result" where
  "render encode from_utf8 m =
     and_then (map_err reg_err (encode (fst m) (snd m))) (\<lambda>buffer.
     map_err (\<lambda>e. MetricsErr (''invalid utf8 in metrics: '' @ e)) (from_utf8 buffer))"

section \<open>The scrape loop\<close>




definition scrape_url :: "monitor_config \<Rightarrow> string" where
  "scrape_url cfg = trim_end_matches (CHR ''/'') (mc_daemon_api cfg) @ ''/api/v1/nodes''"

section \<open>Lemmas\<close>

text \<open>
  Against a registry that refuses a name it has and nothing else, creating the exporter succeeds
  and registers each of its families once.
\<close>

definition name_register :: "family \<Rightarrow> family list \<Rightarrow> string + family list" where
  "name_register f reg =
     (if fa_name f \<in> fa_name ` set reg then Inl ''duplicate metrics collector registration attempted''
      else Inr (reg @ [f]))"

lemma add_families_distinct:
  assumes "distinct (map fa_name (reg @ fs))" and "\<And>f. f \<in> set fs \<Longrightarrow> mk f = Inr ()"
  shows "add_families mk name_register fs reg = Inr (reg @ fs)"
  using assms
proof (induction fs arbitrary: reg)
  case (Cons f fs)
  then have "add_family mk name_register f reg = Inr (reg @ [f])"
    by (auto simp: add_family_def name_register_def map_err_def and_then_def)
  then show ?case using Cons.IH [of "reg @ [f]"] Cons.prems by (simp add: and_then_def)
qed simp

lemma metrics_new_ok:
  assumes "\<And>f. f \<in> set exported \<Longrightarrow> mk f = Inr ()"
  shows "metrics_new mk name_register [] = Inr (empty_exporter, exported)"
proof -
  have "distinct (map fa_name exported)" by (simp add: exported_def opts_def)
  then show ?thesis using add_families_distinct [of "[]" exported mk] assms
    by (simp add: metrics_new_def and_then_def)
qed

lemma reset_series_simps [simp]:
  "ex_node_up (reset_series e) = Map.empty" "ex_node_degraded (reset_series e) = Map.empty"
  "ex_cpu_percent (reset_series e) = Map.empty" "ex_memory_ratio (reset_series e) = Map.empty"
  "ex_load1 (reset_series e) = Map.empty" "ex_disk_ratio (reset_series e) = Map.empty"
  by (simp_all add: reset_series_def)

lemma disk_reasons_Nil: "disk_reasons F t ds = [] \<longleftrightarrow> \<not> list_ex (\<lambda>d. disk_used_fraction d \<ge> disk_degraded t) ds"
  by (induction F t ds rule: disk_reasons.induct) (simp_all add: Let_def)

lemma evaluate_Nil:
  assumes "nr_status node \<noteq> Unreachable" and "nr_latest_metrics node = Some m"
  shows "evaluate F t node = [] \<longleftrightarrow>
    classify m t = Healthy \<and> \<not> load_per_core node m \<ge> load_per_core_degraded t"
  using assms
  by (simp add: evaluate_def cpu_reason_def memory_reason_def load_reason_def disk_reasons_Nil
      classify_def Let_def)

lemma set_disks_frame [simp]:
  "ex_node_up (set_disks i ds e) = ex_node_up e"
  "ex_node_degraded (set_disks i ds e) = ex_node_degraded e"
  "ex_cpu_percent (set_disks i ds e) = ex_cpu_percent e"
  "ex_memory_ratio (set_disks i ds e) = ex_memory_ratio e"
  "ex_load1 (set_disks i ds e) = ex_load1 e"
  by (induction i ds e rule: set_disks.induct) simp_all

lemma set_disks_dom: "dom (ex_disk_ratio (set_disks i ds e)) =
    dom (ex_disk_ratio e) \<union> (\<lambda>d. (i, disk_mount_point d)) ` set ds"
  by (induction i ds e rule: set_disks.induct) auto

text \<open>The last file system of a sample at a mount point decides its series.\<close>

definition last_disk :: "disk_metrics list \<Rightarrow> string \<Rightarrow> disk_metrics option" where
  "last_disk ds mp = find (\<lambda>d. disk_mount_point d = mp) (rev ds)"

lemma last_disk_simps [simp]: "last_disk [] mp = None"
  "last_disk (d # ds) mp = (case last_disk ds mp of Some x \<Rightarrow> Some x
     | None \<Rightarrow> if disk_mount_point d = mp then Some d else None)"
  by (simp_all add: last_disk_def find_append split: option.splits)

lemma set_disks_ratio: "ex_disk_ratio (set_disks i ds e) (j, mp) =
    (case (if j = i then last_disk ds mp else None) of Some d \<Rightarrow> Some (disk_used_fraction d)
     | None \<Rightarrow> ex_disk_ratio e (j, mp))"
  by (induction i ds e rule: set_disks.induct) (auto split: option.splits)

lemma set_metrics_frame [simp]:
  "ex_node_up (set_metrics i m e) = ex_node_up e"
  "ex_node_degraded (set_metrics i m e) = ex_node_degraded e"
  "ex_cpu_percent (set_metrics i m e) = (ex_cpu_percent e)(i \<mapsto> usage_percent (mr_cpu m))"
  "ex_memory_ratio (set_metrics i m e) = (ex_memory_ratio e)(i \<mapsto> mem_used_fraction (mr_memory m))"
  "ex_load1 (set_metrics i m e) = (ex_load1 e)(i \<mapsto> load_one (mr_load m))"
  "dom (ex_disk_ratio (set_metrics i m e)) =
     dom (ex_disk_ratio e) \<union> (\<lambda>d. (i, disk_mount_point d)) ` set (mr_disks m)"
  by (simp_all add: set_metrics_def set_disks_dom)

lemma update_loop_degraded: "fst (snd (update_loop F t nodes c dn e)) =
    dn @ map (\<lambda>n. (ni_node_id (nr_info n), evaluate F t n)) (filter (\<lambda>n. evaluate F t n \<noteq> []) nodes)"
  by (induction F t nodes c dn e rule: update_loop.induct) (simp_all add: Let_def)

definition count_status :: "(node_status \<Rightarrow> bool) \<Rightarrow> node_record list \<Rightarrow> int" where
  "count_status P nodes = int (length (filter (\<lambda>n. P (nr_status n)) nodes))"

lemma update_loop_counts:
  "fst (update_loop F t nodes (h, d, u) dn e) =
     (h + count_status (\<lambda>s. s \<noteq> Degraded \<and> s \<noteq> Unreachable) nodes,
      d + count_status (\<lambda>s. s = Degraded) nodes, u + count_status (\<lambda>s. s = Unreachable) nodes)"
proof (induction nodes arbitrary: h d u dn e)
  case (Cons n nodes)
  show ?case by (cases "nr_status n") (simp_all add: Cons.IH Let_def count_status_def)
qed (simp add: count_status_def)

lemma count_status_sum:
  "count_status (\<lambda>s. s \<noteq> Degraded \<and> s \<noteq> Unreachable) nodes + count_status (\<lambda>s. s = Degraded) nodes +
     count_status (\<lambda>s. s = Unreachable) nodes = int (length nodes)"
  by (induction nodes) (auto simp: count_status_def)

text \<open>The last node of the list with an id decides its series.\<close>

definition last_of :: "node_record list \<Rightarrow> string \<Rightarrow> node_record option" where
  "last_of nodes i = find (\<lambda>n. ni_node_id (nr_info n) = i) (rev nodes)"

lemma last_of_simps [simp]: "last_of [] i = None"
  "last_of (n # ns) i = (case last_of ns i of Some x \<Rightarrow> Some x
     | None \<Rightarrow> if ni_node_id (nr_info n) = i then Some n else None)"
  by (simp_all add: last_of_def find_append split: option.splits)

lemma update_loop_up: "ex_node_up (snd (snd (update_loop F t nodes c dn e))) i =
    (case last_of nodes i of Some n \<Rightarrow> Some (flag (nr_status n \<noteq> Unreachable)) | None \<Rightarrow> ex_node_up e i)"
  by (induction F t nodes c dn e rule: update_loop.induct)
    (auto simp: Let_def split: option.splits)

lemma update_loop_flag: "ex_node_degraded (snd (snd (update_loop F t nodes c dn e))) i =
    (case last_of nodes i of Some n \<Rightarrow> Some (flag (evaluate F t n \<noteq> [])) | None \<Rightarrow> ex_node_degraded e i)"
  by (induction F t nodes c dn e rule: update_loop.induct)
    (auto simp: Let_def split: option.splits)

lemma set_metrics_ratio: "ex_disk_ratio (set_metrics i m e) (j, mp) =
    (case (if j = i then last_disk (mr_disks m) mp else None) of Some d \<Rightarrow> Some (disk_used_fraction d)
     | None \<Rightarrow> ex_disk_ratio e (j, mp))"
  by (simp add: set_metrics_def set_disks_ratio split: option.split)

lemma update_loop_disks: "dom (ex_disk_ratio (snd (snd (update_loop F t nodes c dn e)))) =
    dom (ex_disk_ratio e) \<union> {(ni_node_id (nr_info n), disk_mount_point d) | n m d.
      n \<in> set nodes \<and> nr_latest_metrics n = Some m \<and> d \<in> set (mr_disks m)}"
  by (induction F t nodes c dn e rule: update_loop.induct)
    (auto simp: Let_def split: option.splits)

lemma last_of_absent: "i \<notin> (\<lambda>n. ni_node_id (nr_info n)) ` set nodes \<Longrightarrow> last_of nodes i = None"
  by (induction nodes) auto

lemma last_of_member:
  "distinct (map (\<lambda>n. ni_node_id (nr_info n)) nodes) \<Longrightarrow> n \<in> set nodes \<Longrightarrow>
     last_of nodes (ni_node_id (nr_info n)) = Some n"
  by (induction nodes) (auto simp: last_of_absent split: option.splits)

text \<open>The sample an id has in a list of nodes, and the series it gives.\<close>

definition sample_of :: "node_record list \<Rightarrow> string \<Rightarrow> metrics_report option" where
  "sample_of nodes i = Option.bind (last_of nodes i) nr_latest_metrics"

lemma sample_of_Cons:
  assumes "distinct (map (\<lambda>n. ni_node_id (nr_info n)) (n # nodes))"
  shows "sample_of (n # nodes) i = (if i = ni_node_id (nr_info n) then nr_latest_metrics n else sample_of nodes i)"
    and "sample_of nodes (ni_node_id (nr_info n)) = None"
  using assms last_of_absent [of "ni_node_id (nr_info n)" nodes]
  by (auto simp: sample_of_def split: option.splits)

lemma update_loop_samples:
  fixes F :: float_fmt and t :: thresholds
  defines "loop \<equiv> \<lambda>nodes c dn e. snd (snd (update_loop F t nodes c dn e))"
  assumes "distinct (map (\<lambda>n. ni_node_id (nr_info n)) nodes)"
  shows "ex_cpu_percent (loop nodes c dn e) i =
      (case sample_of nodes i of Some m \<Rightarrow> Some (usage_percent (mr_cpu m)) | None \<Rightarrow> ex_cpu_percent e i) \<and>
    ex_memory_ratio (loop nodes c dn e) i =
      (case sample_of nodes i of Some m \<Rightarrow> Some (mem_used_fraction (mr_memory m)) | None \<Rightarrow> ex_memory_ratio e i) \<and>
    ex_load1 (loop nodes c dn e) i =
      (case sample_of nodes i of Some m \<Rightarrow> Some (load_one (mr_load m)) | None \<Rightarrow> ex_load1 e i) \<and>
    ex_disk_ratio (loop nodes c dn e) (i, mp) =
      (case Option.bind (sample_of nodes i) (\<lambda>m. last_disk (mr_disks m) mp) of
         Some d \<Rightarrow> Some (disk_used_fraction d) | None \<Rightarrow> ex_disk_ratio e (i, mp))"
  using assms(2)
proof (induction nodes arbitrary: c dn e)
  case (Cons n nodes)
  obtain h d u where c: "c = (h, d, u)" by (cases c)
  have dist: "distinct (map (\<lambda>n. ni_node_id (nr_info n)) nodes)" using Cons.prems by simp
  note IH = Cons.IH [OF dist, unfolded loop_def] and n = sample_of_Cons [OF Cons.prems]
  show ?case
    by (intro conjI; cases "nr_latest_metrics n")
      (simp_all add: c loop_def Let_def IH n set_metrics_ratio split: option.split)
qed (simp add: loop_def sample_of_def)

text \<open>After an update every series is that of the snapshot, whatever was exported before.\<close>

lemma update_exact:
  assumes "distinct (map (\<lambda>n. ni_node_id (nr_info n)) nodes)" and "update F t nodes e = (degraded, e')"
  shows "ex_node_up e' = (\<lambda>i. map_option (\<lambda>n. flag (nr_status n \<noteq> Unreachable)) (last_of nodes i))"
    and "ex_node_degraded e' = (\<lambda>i. map_option (\<lambda>n. flag (evaluate F t n \<noteq> [])) (last_of nodes i))"
    and "ex_cpu_percent e' = (\<lambda>i. map_option (\<lambda>m. usage_percent (mr_cpu m)) (sample_of nodes i))"
    and "ex_memory_ratio e' = (\<lambda>i. map_option (\<lambda>m. mem_used_fraction (mr_memory m)) (sample_of nodes i))"
    and "ex_load1 e' = (\<lambda>i. map_option (\<lambda>m. load_one (mr_load m)) (sample_of nodes i))"
    and "ex_disk_ratio e' = (\<lambda>(i, mp). map_option disk_used_fraction
      (Option.bind (sample_of nodes i) (\<lambda>m. last_disk (mr_disks m) mp)))"
proof -
  let ?e1 = "snd (snd (update_loop F t nodes (0, 0, 0) [] (reset_series e)))"
  have e': "ex_node_up e' = ex_node_up ?e1" "ex_node_degraded e' = ex_node_degraded ?e1"
    "ex_cpu_percent e' = ex_cpu_percent ?e1" "ex_memory_ratio e' = ex_memory_ratio ?e1"
    "ex_load1 e' = ex_load1 ?e1" "ex_disk_ratio e' = ex_disk_ratio ?e1"
    using assms(2) by (auto simp: update_def split: prod.splits)
  note l = update_loop_up update_loop_flag update_loop_samples [OF assms(1)]
  show "ex_node_up e' = (\<lambda>i. map_option (\<lambda>n. flag (nr_status n \<noteq> Unreachable)) (last_of nodes i))"
    "ex_node_degraded e' = (\<lambda>i. map_option (\<lambda>n. flag (evaluate F t n \<noteq> [])) (last_of nodes i))"
    "ex_cpu_percent e' = (\<lambda>i. map_option (\<lambda>m. usage_percent (mr_cpu m)) (sample_of nodes i))"
    "ex_memory_ratio e' = (\<lambda>i. map_option (\<lambda>m. mem_used_fraction (mr_memory m)) (sample_of nodes i))"
    "ex_load1 e' = (\<lambda>i. map_option (\<lambda>m. load_one (mr_load m)) (sample_of nodes i))"
    by (simp_all add: e' l fun_eq_iff split: option.split)
  show "ex_disk_ratio e' = (\<lambda>(i, mp). map_option disk_used_fraction
      (Option.bind (sample_of nodes i) (\<lambda>m. last_disk (mr_disks m) mp)))"
    by (simp add: e' l fun_eq_iff split: option.split)
qed

text \<open>The listing of a well-formed table has each node under its id.\<close>

lemma last_of_listing:
  assumes "table_ok s"
  shows "last_of (list_nodes s) i = get_node i s"
proof (cases "get_node i s")
  case None
  then have "i \<notin> (\<lambda>n. ni_node_id (nr_info n)) ` set (list_nodes s)"
    by (auto simp: list_nodes_iff [OF assms])
  then show ?thesis using None by (simp add: last_of_absent)
next
  case (Some n)
  have "distinct (map (\<lambda>n. ni_node_id (nr_info n)) (list_nodes s))"
    using assms by (simp add: list_nodes_keys table_ok_def)
  moreover have "ni_node_id (nr_info n) = i" by (rule get_node_own [OF assms Some])
  moreover from this have "n \<in> set (list_nodes s)" using Some by (simp add: list_nodes_iff [OF assms])
  ultimately show ?thesis using last_of_member [of "list_nodes s" n] Some by simp
qed

section \<open>Properties\<close>

text \<open>
  C36: monitor and daemon judge by the same rule: for a reachable node with a sample, the detector
  finds no reason exactly when the daemon's \<open>classify\<close> says healthy under the same thresholds
  and the load per core is below its own, which the daemon does not look at.
\<close>

theorem detector_matches_classify:
  assumes "nr_status node \<noteq> Unreachable" and "nr_latest_metrics node = Some m"
  shows "evaluate F t node = [] \<longleftrightarrow>
    classify m t = Healthy \<and> \<not> load_per_core node m \<ge> load_per_core_degraded t"
  using evaluate_Nil [OF assms] .

definition plain_fmt :: float_fmt where
  "plain_fmt = \<lparr>fmt0 = (\<lambda>_. ''0''), fmt2 = (\<lambda>_. ''0.00'')\<rparr>"

theorem detector_matches_classify_witness:
  "evaluate plain_fmt default_thresholds
     (sample_record\<lparr>nr_latest_metrics := Some (sample_report f64_zero)\<rparr>) = []"
proof -
  let ?n = "sample_record\<lparr>nr_latest_metrics := Some (sample_report f64_zero)\<rparr>"
  have z: "f64_div f64_zero (f64_lit 100 1) = f64_zero"
    by (simp only: lit_100) (simp add: f64_zero_def scale2_def round_ratio_def)
  have c: "f64_of_nat 8 = Finite False 4503599627370496 (-49)" by code_simp
  have "classify (sample_report f64_zero) default_thresholds = Healthy"
    by (simp add: classify_def sample_report_def default_thresholds_def default_memory_def z [unfolded f64_zero_def One_nat_def] Let_def
        mem_used_fraction_def lit_90 lit_85 f64_zero_def less_eq_f64_def signed_mant_def)
  moreover have "\<not> load_per_core ?n (sample_report f64_zero) \<ge> load_per_core_degraded default_thresholds"
    by (simp add: load_per_core_def sample_report_def default_load_def default_thresholds_def
        sample_record_def sample_info_def lit_2 [unfolded One_nat_def] f64_zero_def less_eq_f64_def signed_mant_def
        f64_of_u32_def c scale2_def round_ratio_def Let_def)
  moreover have "nr_status ?n \<noteq> Unreachable" by (simp add: sample_record_def)
  ultimately show ?thesis using detector_matches_classify [of ?n "sample_report f64_zero"] by simp
qed

text \<open>
  After an update the exporter describes the given snapshot and nothing else: the node series
  are those of its nodes (no departed node is left), the disk series those of their samples, the
  aggregates add up, and the result lists exactly the nodes with reasons, in order.
\<close>

lemma update_is_snapshot:
  assumes "distinct (map (\<lambda>n. ni_node_id (nr_info n)) nodes)" and "update F t nodes e = (degraded, e')"
  shows "dom (ex_node_up e') = (\<lambda>n. ni_node_id (nr_info n)) ` set nodes \<and>
    (\<forall>n \<in> set nodes. ex_node_up e' (ni_node_id (nr_info n)) = Some (flag (nr_status n \<noteq> Unreachable)) \<and>
       ex_node_degraded e' (ni_node_id (nr_info n)) = Some (flag (evaluate F t n \<noteq> []))) \<and>
    dom (ex_disk_ratio e') = {(ni_node_id (nr_info n), disk_mount_point d) | n m d.
      n \<in> set nodes \<and> nr_latest_metrics n = Some m \<and> d \<in> set (mr_disks m)} \<and>
    ex_nodes_healthy e' + ex_nodes_degraded e' + ex_nodes_unreachable e' = ex_nodes_total e' \<and>
    degraded = map (\<lambda>n. (ni_node_id (nr_info n), evaluate F t n)) (filter (\<lambda>n. evaluate F t n \<noteq> []) nodes)"
proof -
  obtain h d u dn e1 where l: "update_loop F t nodes (0, 0, 0) [] (reset_series e) = ((h, d, u), dn, e1)"
    by (metis prod_cases3)
  have e': "e' = e1\<lparr>ex_nodes_total := int (length nodes), ex_nodes_healthy := h,
      ex_nodes_degraded := d, ex_nodes_unreachable := u\<rparr>" and dn: "degraded = dn"
    using assms(2) l by (simp_all add: update_def)
  have up: "ex_node_up e1 i = map_option (\<lambda>n. flag (nr_status n \<noteq> Unreachable)) (last_of nodes i)"
    and fl: "ex_node_degraded e1 i = map_option (\<lambda>n. flag (evaluate F t n \<noteq> [])) (last_of nodes i)" for i
    using update_loop_up [of F t nodes "(0, 0, 0)" "[]" "reset_series e" i]
      update_loop_flag [of F t nodes "(0, 0, 0)" "[]" "reset_series e" i]
    by (simp_all add: l split: option.splits)
  let ?id = "\<lambda>n. ni_node_id (nr_info n)"
  have flags: "ex_node_up e' (?id n) = Some (flag (nr_status n \<noteq> Unreachable)) \<and>
      ex_node_degraded e' (?id n) = Some (flag (evaluate F t n \<noteq> []))" if "n \<in> set nodes" for n
    by (simp add: e' up fl last_of_member [OF assms(1) that])
  have absent: "ex_node_up e' i = None" if "i \<notin> ?id ` set nodes" for i
    by (simp add: e' up last_of_absent [OF that])
  have series: "dom (ex_node_up e') = ?id ` set nodes"
  proof
    show "dom (ex_node_up e') \<subseteq> ?id ` set nodes"
      by (rule subsetI, rule ccontr, drule absent) (simp add: dom_def)
    show "?id ` set nodes \<subseteq> dom (ex_node_up e')" using flags by (simp add: image_subset_iff dom_def)
  qed
  have "h + d + u = int (length nodes)"
    using update_loop_counts [of F t nodes 0 0 0 "[]" "reset_series e"] count_status_sum [of nodes]
    by (simp add: l)
  moreover have "dom (ex_disk_ratio e') = {(?id n, disk_mount_point d) | n m d.
      n \<in> set nodes \<and> nr_latest_metrics n = Some m \<and> d \<in> set (mr_disks m)}"
    using update_loop_disks [of F t nodes "(0, 0, 0)" "[]" "reset_series e"]
    by (simp add: l e')
  moreover have "degraded = map (\<lambda>n. (?id n, evaluate F t n)) (filter (\<lambda>n. evaluate F t n \<noteq> []) nodes)"
    using update_loop_degraded [of F t nodes "(0, 0, 0)" "[]" "reset_series e"] by (simp add: l dn)
  ultimately show ?thesis using series flags by (simp add: e')
qed




end
