(* ===== verification/Proc_Fs.thy ===== *)
theory Proc_Fs
  imports Hpc_Types Text
begin

text \<open>
  The parsers of \<open>hpc-diag/src/proc.rs\<close> for files of \<open>/proc\<close>, and the readers of
  \<open>hpc-agent/src/metrics.rs\<close> for the same files. Reading a file is an argument. The sums and
  products of the agent's readers wrap at 64 bits, as a release build computes them.
\<close>

section \<open>Records\<close>

record mem_info =
  mem_total_kb :: u64
  mem_free_kb :: u64
  mem_available_kb :: u64
  buffers_kb :: u64
  cached_kb :: u64
  swap_total_kb :: u64
  swap_free_kb :: u64

definition default_mem_info :: mem_info where
  "default_mem_info = \<lparr>mem_total_kb = 0, mem_free_kb = 0, mem_available_kb = 0, buffers_kb = 0,
     cached_kb = 0, swap_total_kb = 0, swap_free_kb = 0\<rparr>"

definition available_fraction :: "mem_info \<Rightarrow> f64" where
  "available_fraction m =
     (if mem_total_kb m = 0 then f64_zero
      else f64_div (f64_of_u64 (mem_available_kb m)) (f64_of_u64 (mem_total_kb m)))"

record disk_stat =
  dst_device :: string
  reads_completed :: u64
  sectors_read :: u64
  writes_completed :: u64
  sectors_written :: u64

record net_dev =
  nd_interface :: string
  nd_rx_bytes :: u64
  nd_rx_errs :: u64
  nd_tx_bytes :: u64
  nd_tx_errs :: u64

record mount_entry =
  me_device :: string
  me_mount_point :: string
  me_fs_type :: string
  me_options :: "string list"

record kernel_info =
  ki_raw :: string
  ki_release :: string

definition default_kernel_info :: kernel_info where
  "default_kernel_info = \<lparr>ki_raw = [], ki_release = []\<rparr>"

definition version_pair :: "kernel_info \<Rightarrow> (u32 \<times> u32) option" where
  "version_pair k =
     (case split_on (\<lambda>c. c = CHR ''.'' \<or> c = CHR ''-'') (ki_release k) of
        a # b # _ \<Rightarrow> (case parse_u32 a of
            None \<Rightarrow> None
          | Some major \<Rightarrow> map_option (\<lambda>minor. (major, minor)) (parse_u32 b))
      | _ \<Rightarrow> None)"

section \<open>Parsers\<close>

text \<open>\<open>parse().unwrap_or(0)\<close>.\<close>

definition num_or_0 :: "string \<Rightarrow> u64" where
  "num_or_0 s = (case parse_u64 s of None \<Rightarrow> 0 | Some n \<Rightarrow> n)"

definition meminfo_line :: "mem_info \<Rightarrow> string \<Rightarrow> mem_info" where
  "meminfo_line m line =
     (case split_once (CHR '':'') line of
        None \<Rightarrow> m
      | Some (key, rest) \<Rightarrow>
          let value = (case split_whitespace rest of [] \<Rightarrow> 0 | v # _ \<Rightarrow> num_or_0 v); k = trim key in
          if k = ''MemTotal'' then m\<lparr>mem_total_kb := value\<rparr>
          else if k = ''MemFree'' then m\<lparr>mem_free_kb := value\<rparr>
          else if k = ''MemAvailable'' then m\<lparr>mem_available_kb := value\<rparr>
          else if k = ''Buffers'' then m\<lparr>buffers_kb := value\<rparr>
          else if k = ''Cached'' then m\<lparr>cached_kb := value\<rparr>
          else if k = ''SwapTotal'' then m\<lparr>swap_total_kb := value\<rparr>
          else if k = ''SwapFree'' then m\<lparr>swap_free_kb := value\<rparr>
          else m)"

definition parse_meminfo :: "string \<Rightarrow> mem_info" where
  "parse_meminfo text = foldl meminfo_line default_mem_info (text_lines text)"

fun diskstats_rows :: "string list \<Rightarrow> disk_stat list" where
  "diskstats_rows [] = []"
| "diskstats_rows (line # ls) =
     (let f = split_whitespace line in
      if length f < 10 then diskstats_rows ls
      else \<lparr>dst_device = f ! 2, reads_completed = num_or_0 (f ! 3), sectors_read = num_or_0 (f ! 5),
             writes_completed = num_or_0 (f ! 7), sectors_written = num_or_0 (f ! 9)\<rparr> # diskstats_rows ls)"

definition parse_diskstats :: "string \<Rightarrow> disk_stat list" where
  "parse_diskstats text = diskstats_rows (text_lines text)"

fun net_dev_rows :: "string list \<Rightarrow> net_dev list" where
  "net_dev_rows [] = []"
| "net_dev_rows (line # ls) =
     (case split_once (CHR '':'') line of
        None \<Rightarrow> net_dev_rows ls
      | Some (iface, rest) \<Rightarrow>
          let f = split_whitespace rest in
          if length f < 11 then net_dev_rows ls
          else \<lparr>nd_interface = trim iface, nd_rx_bytes = num_or_0 (f ! 0), nd_rx_errs = num_or_0 (f ! 2),
                 nd_tx_bytes = num_or_0 (f ! 8), nd_tx_errs = num_or_0 (f ! 10)\<rparr> # net_dev_rows ls)"

definition parse_net_dev :: "string \<Rightarrow> net_dev list" where
  "parse_net_dev text = net_dev_rows (text_lines text)"

fun mount_rows :: "string list \<Rightarrow> mount_entry list" where
  "mount_rows [] = []"
| "mount_rows (line # ls) =
     (let f = split_whitespace line in
      if length f < 4 then mount_rows ls
      else \<lparr>me_device = f ! 0, me_mount_point = f ! 1, me_fs_type = f ! 2,
             me_options = split_on (\<lambda>c. c = CHR '','') (f ! 3)\<rparr> # mount_rows ls)"

definition parse_mounts :: "string \<Rightarrow> mount_entry list" where
  "parse_mounts text = mount_rows (text_lines text)"

definition parse_version :: "string \<Rightarrow> kernel_info" where
  "parse_version text =
     (let raw = trim text; toks = split_whitespace raw
      in \<lparr>ki_raw = raw, ki_release = (if 2 < length toks then toks ! 2 else [])\<rparr>)"

section \<open>Collectors\<close>

type_synonym files = "string \<Rightarrow> string + string"

definition read_proc :: "files \<Rightarrow> string \<Rightarrow> string result" where
  "read_proc fs path = map_err (io_at path) (fs path)"

definition collect_meminfo :: "files \<Rightarrow> mem_info result" where
  "collect_meminfo fs = and_then (read_proc fs ''/proc/meminfo'') (\<lambda>t. Inr (parse_meminfo t))"

definition collect_diskstats :: "files \<Rightarrow> disk_stat list result" where
  "collect_diskstats fs = and_then (read_proc fs ''/proc/diskstats'') (\<lambda>t. Inr (parse_diskstats t))"

definition collect_net_dev :: "files \<Rightarrow> net_dev list result" where
  "collect_net_dev fs = and_then (read_proc fs ''/proc/net/dev'') (\<lambda>t. Inr (parse_net_dev t))"

definition collect_mounts :: "files \<Rightarrow> mount_entry list result" where
  "collect_mounts fs = and_then (read_proc fs ''/proc/mounts'') (\<lambda>t. Inr (parse_mounts t))"

definition collect_kernel :: "files \<Rightarrow> kernel_info result" where
  "collect_kernel fs = and_then (read_proc fs ''/proc/version'') (\<lambda>t. Inr (parse_version t))"

section \<open>The agent's readers\<close>

definition SECTOR_BYTES :: u64 where
  "SECTOR_BYTES = 512"

fun agent_diskstats_rows ::
  "string list \<Rightarrow> (string, u64 \<times> u64) hash_map \<Rightarrow> (string, u64 \<times> u64) hash_map" where
  "agent_diskstats_rows [] out = out"
| "agent_diskstats_rows (line # ls) out =
     (let f = split_whitespace line in
      if length f < 10 then agent_diskstats_rows ls out
      else if starts_with ''loop'' (f ! 2) \<or> starts_with ''ram'' (f ! 2) then agent_diskstats_rows ls out
      else case (parse_u64 (f ! 5), parse_u64 (f ! 9)) of
             (Some rd, Some wr) \<Rightarrow>
               agent_diskstats_rows ls (AList.update (f ! 2) (rd * SECTOR_BYTES, wr * SECTOR_BYTES) out)
           | _ \<Rightarrow> agent_diskstats_rows ls out)"

definition read_diskstats :: "files \<Rightarrow> (string, u64 \<times> u64) hash_map" where
  "read_diskstats fs = (case fs ''/proc/diskstats'' of
     Inl _ \<Rightarrow> [] | Inr content \<Rightarrow> agent_diskstats_rows (text_lines content) [])"

fun agent_net_rows :: "string list \<Rightarrow> u64 \<times> u64 \<times> u64 \<times> u64 \<Rightarrow> u64 \<times> u64 \<times> u64 \<times> u64" where
  "agent_net_rows [] acc = acc"
| "agent_net_rows (line # ls) (rx, tx, rxe, txe) =
     (case split_once (CHR '':'') line of
        None \<Rightarrow> agent_net_rows ls (rx, tx, rxe, txe)
      | Some (iface, rest) \<Rightarrow>
          let iface = trim iface; cols = split_whitespace rest in
          if iface = ''lo'' \<or> iface = [] then agent_net_rows ls (rx, tx, rxe, txe)
          else if length cols < 11 then agent_net_rows ls (rx, tx, rxe, txe)
          else agent_net_rows ls (rx + num_or_0 (cols ! 0), tx + num_or_0 (cols ! 8),
                 rxe + num_or_0 (cols ! 2), txe + num_or_0 (cols ! 10)))"

definition read_net_dev :: "files \<Rightarrow> u64 \<times> u64 \<times> u64 \<times> u64" where
  "read_net_dev fs = (case fs ''/proc/net/dev'' of
     Inl _ \<Rightarrow> (0, 0, 0, 0) | Inr content \<Rightarrow> agent_net_rows (text_lines content) (0, 0, 0, 0))"

end
