(* ===== verification/Proc_Readers.thy ===== *)
theory Proc_Readers
  imports Proc_Fs
begin

text \<open>
  What the parsers of \<open>Proc_Fs\<close> read: the tables they are given, printed the way the kernel
  prints them, and the agreement of the diagnostics' parsers with the agent's own readers.
\<close>

section \<open>The kernel's formats\<close>

definition mount_line :: "mount_entry \<Rightarrow> string" where
  "mount_line m = join '' '' [me_device m, me_mount_point m, me_fs_type m, join '','' (me_options m), ''0'', ''0'']"

definition option_word :: "string \<Rightarrow> bool" where
  "option_word w \<longleftrightarrow> is_word w \<and> CHR '','' \<notin> set w"

definition mount_ok :: "mount_entry \<Rightarrow> bool" where
  "mount_ok m \<longleftrightarrow> is_word (me_device m) \<and> is_word (me_mount_point m) \<and> is_word (me_fs_type m) \<and>
     me_options m \<noteq> [] \<and> list_all option_word (me_options m)"

definition meminfo_show :: "string \<times> u64 \<Rightarrow> string" where
  "meminfo_show kv = fst kv @ '':        '' @ show_nat (unat (snd kv)) @ '' kB''"

definition key_ok :: "string \<Rightarrow> bool" where
  "key_ok k \<longleftrightarrow> is_word k \<and> CHR '':'' \<notin> set k"

section \<open>Lemmas\<close>

lemma word_digit: "is_word ''0''"
  by (simp add: is_word_def graphic_def)

lemma option_list_word: "list_all option_word ws \<Longrightarrow> ws \<noteq> [] \<Longrightarrow> is_word (join '','' ws)"
  by (induction "'',''" ws rule: join.induct) (auto simp: option_word_def is_word_def graphic_def)

lemma mount_line_words:
  assumes "mount_ok m"
  shows "list_all is_word [me_device m, me_mount_point m, me_fs_type m, join '','' (me_options m), ''0'', ''0'']"
  using assms by (simp add: mount_ok_def option_list_word word_digit)

lemma mount_line_fields:
  assumes "mount_ok m"
  shows "split_whitespace (mount_line m) =
    [me_device m, me_mount_point m, me_fs_type m, join '','' (me_options m), ''0'', ''0'']"
    and "line_ok (mount_line m)"
  unfolding mount_line_def
  by (rule split_ws_join [OF mount_line_words [OF assms]], rule line_ok_words [OF mount_line_words [OF assms]])

lemma mount_options_split:
  assumes "mount_ok m"
  shows "split_on (\<lambda>c. c = CHR '','') (join '','' (me_options m)) = me_options m"
proof (rule split_on_join)
  show "list_all (\<lambda>w. \<forall>c \<in> set w. c \<noteq> CHR '','') (me_options m)"
    using assms by (auto simp: mount_ok_def option_word_def list_all_iff)
qed (use assms in \<open>simp_all add: mount_ok_def\<close>)

lemma mount_rows_lines: "list_all mount_ok ms \<Longrightarrow> mount_rows (map mount_line ms) = ms"
  by (induction ms) (simp_all add: mount_line_fields mount_options_split Let_def)

lemma trim_end_graphic: "is_word w \<Longrightarrow> trim_end w = w"
proof -
  assume w: "is_word w"
  have "ws_len (drop (length w - n) w) = 0" if "n = 1 \<or> n = 2 \<or> n = 3" for n
  proof -
    have "drop (length w - n) w \<noteq> []" "list_all graphic (drop (length w - n) w)"
      using w that by (cases w, auto simp: is_word_def list_all_iff dest: in_set_dropD)
    then show ?thesis by (cases "drop (length w - n) w") (simp_all add: graphic_no_ws)
  qed
  then have "ws_end w = 0" by (simp add: ws_end_def)
  then show ?thesis by (simp add: trim_end.simps)
qed

lemma trim_word: "is_word w \<Longrightarrow> trim w = w"
  using trim_start_word [of w "[]"] by (simp add: trim_def trim_end_graphic)

lemma meminfo_show_ok: "key_ok (fst kv) \<Longrightarrow> line_ok (meminfo_show kv)"
  using show_nat_graphic [of "unat (snd kv)"]
  by (auto simp: line_ok_def meminfo_show_def key_ok_def is_word_def dest!: graphic_not_ctrl)

lemma meminfo_show_split: "key_ok (fst kv) \<Longrightarrow>
    split_once (CHR '':'') (meminfo_show kv) = Some (fst kv, ''        '' @ show_nat (unat (snd kv)) @ '' kB'')"
  using split_once_word [of "CHR '':''" "fst kv"] by (simp add: meminfo_show_def key_ok_def)

lemma meminfo_value: "split_whitespace (show_nat (unat v) @ '' kB'') = [show_nat (unat v), ''kB'']"
proof -
  have "is_word ''kB''" by (simp add: is_word_def graphic_def)
  then show ?thesis using split_ws_word [OF show_nat_word [of "unat v"], of "'' kB''"]
    by (simp add: split_ws_last)
qed

text \<open>The effect of one printed line.\<close>

lemma meminfo_line_show:
  assumes "key_ok (fst kv)"
  shows "meminfo_line m (meminfo_show kv) =
    (let k = fst kv; value = snd kv in
     if k = ''MemTotal'' then m\<lparr>mem_total_kb := value\<rparr>
     else if k = ''MemFree'' then m\<lparr>mem_free_kb := value\<rparr>
     else if k = ''MemAvailable'' then m\<lparr>mem_available_kb := value\<rparr>
     else if k = ''Buffers'' then m\<lparr>buffers_kb := value\<rparr>
     else if k = ''Cached'' then m\<lparr>cached_kb := value\<rparr>
     else if k = ''SwapTotal'' then m\<lparr>swap_total_kb := value\<rparr>
     else if k = ''SwapFree'' then m\<lparr>swap_free_kb := value\<rparr>
     else m)"
proof -
  have t: "trim (fst kv) = fst kv" using assms by (simp add: trim_word key_ok_def)
  show ?thesis
    by (simp add: meminfo_line_def meminfo_show_split [OF assms] meminfo_value num_or_0_def
        parse_u64_show t Let_def)
qed

lemma meminfo_line_field:
  assumes "key_ok (fst kv)"
  shows "mem_total_kb (meminfo_line m (meminfo_show kv)) = (if fst kv = ''MemTotal'' then snd kv else mem_total_kb m)"
    and "mem_free_kb (meminfo_line m (meminfo_show kv)) = (if fst kv = ''MemFree'' then snd kv else mem_free_kb m)"
    and "mem_available_kb (meminfo_line m (meminfo_show kv)) =
      (if fst kv = ''MemAvailable'' then snd kv else mem_available_kb m)"
    and "buffers_kb (meminfo_line m (meminfo_show kv)) = (if fst kv = ''Buffers'' then snd kv else buffers_kb m)"
    and "cached_kb (meminfo_line m (meminfo_show kv)) = (if fst kv = ''Cached'' then snd kv else cached_kb m)"
    and "swap_total_kb (meminfo_line m (meminfo_show kv)) = (if fst kv = ''SwapTotal'' then snd kv else swap_total_kb m)"
    and "swap_free_kb (meminfo_line m (meminfo_show kv)) = (if fst kv = ''SwapFree'' then snd kv else swap_free_kb m)"
  by (simp_all add: meminfo_line_show [OF assms] Let_def)

text \<open>A field that each line either sets, when it has the field's key, or leaves.\<close>

lemma foldl_last_of:
  assumes "\<And>m kv. key_ok (fst kv) \<Longrightarrow> get (f m (pr kv)) = (if fst kv = key then snd kv else get m)"
    and "list_all (\<lambda>kv. key_ok (fst kv)) kvs"
  shows "get (foldl f m (map pr kvs)) = (case map_of (rev kvs) key of Some v \<Rightarrow> v | None \<Rightarrow> get m)"
  using assms(2) by (induction kvs arbitrary: m) (auto simp: assms(1) map_add_def split: option.splits)

lemma meminfo_text_lines:
  "list_all (\<lambda>kv. key_ok (fst kv)) kvs \<Longrightarrow>
     parse_meminfo (unlines (map meminfo_show kvs)) = foldl meminfo_line default_mem_info (map meminfo_show kvs)"
  unfolding parse_meminfo_def
  by (subst text_lines_unlines) (auto simp: list_all_iff intro!: meminfo_show_ok)

section \<open>The agent's readers and the parsers\<close>

definition outward :: "net_dev \<Rightarrow> bool" where
  "outward d \<longleftrightarrow> nd_interface d \<noteq> ''lo'' \<and> nd_interface d \<noteq> []"

lemma agent_net_rows_sum:
  "agent_net_rows ls (rx, tx, rxe, txe) =
    (let ds = filter outward (net_dev_rows ls) in
     (rx + sum_list (map nd_rx_bytes ds), tx + sum_list (map nd_tx_bytes ds),
      rxe + sum_list (map nd_rx_errs ds), txe + sum_list (map nd_tx_errs ds)))"
  by (induction ls arbitrary: rx tx rxe txe)
    (auto simp: Let_def outward_def add.assoc split: option.splits)

definition physical :: "string \<Rightarrow> bool" where
  "physical name \<longleftrightarrow> \<not> starts_with ''loop'' name \<and> \<not> starts_with ''ram'' name"

lemma agent_disk_sound:
  "map_of (agent_diskstats_rows ls out) name = Some v \<Longrightarrow>
     map_of out name = Some v \<or>
     (physical name \<and> (\<exists>d \<in> set (diskstats_rows ls). dst_device d = name \<and>
        v = (sectors_read d * SECTOR_BYTES, sectors_written d * SECTOR_BYTES)))"
proof (induction ls arbitrary: out)
  case (Cons line ls)
  define f where "f = split_whitespace line"
  show ?case
  proof (cases "10 \<le> length f \<and> physical (f ! 2)")
    case ok: True
    show ?thesis
    proof (cases "parse_u64 (f ! 5)")
      case (Some a)
      show ?thesis
      proof (cases "parse_u64 (f ! 9)")
        case b: (Some b)
        have "map_of (agent_diskstats_rows ls (AList.update (f ! 2) (a * SECTOR_BYTES, b * SECTOR_BYTES) out)) name = Some v"
          using Cons.prems ok Some b by (simp add: f_def physical_def Let_def)
        from Cons.IH [OF this] ok show ?thesis
          by (cases "name = f ! 2") (auto simp: Let_def num_or_0_def Some b simp flip: f_def)
      qed (use Cons ok Some in \<open>auto simp: Let_def physical_def simp flip: f_def\<close>)
    qed (use Cons ok in \<open>auto simp: Let_def physical_def simp flip: f_def\<close>)
  qed (use Cons in \<open>auto simp: Let_def physical_def simp flip: f_def split: if_splits\<close>)
qed simp

section \<open>Properties\<close>

text \<open>
  C40: the mount table the kernel prints is read back: for entries whose columns are words and
  whose options hold no comma, parsing the printed lines returns the entries, in order, with
  their options apart.
\<close>

theorem mounts_roundtrip:
  assumes "list_all mount_ok ms"
  shows "parse_mounts (unlines (map mount_line ms)) = ms"
proof -
  have "list_all line_ok (map mount_line ms)"
    using assms by (auto simp: list_all_iff intro: mount_line_fields(2))
  then show ?thesis using assms by (simp add: parse_mounts_def text_lines_unlines mount_rows_lines)
qed

theorem mounts_roundtrip_witness:
  "let m = \<lparr>me_device = ''/dev/sda1'', me_mount_point = ''/'', me_fs_type = ''ext4'',
      me_options = [''rw'', ''noatime'']\<rparr>
   in mount_line m = ''/dev/sda1 / ext4 rw,noatime 0 0'' \<and> parse_mounts (unlines [mount_line m]) = [m]"
proof -
  let ?m = "\<lparr>me_device = ''/dev/sda1'', me_mount_point = ''/'', me_fs_type = ''ext4'',
      me_options = [''rw'', ''noatime'']\<rparr>"
  have "list_all mount_ok [?m]" by (simp add: mount_ok_def option_word_def is_word_def graphic_def)
  from mounts_roundtrip [OF this] show ?thesis by (simp add: mount_line_def)
qed

text \<open>
  Reading \<open>/proc/meminfo\<close>: each of the seven fields is the value of the last line with its
  key, zero when there is none; the order of the lines and every line with another key are
  irrelevant.
\<close>

theorem meminfo_fields:
  assumes "list_all (\<lambda>kv. key_ok (fst kv)) kvs"
  shows "parse_meminfo (unlines (map meminfo_show kvs)) =
    (let value = \<lambda>key. (case map_of (rev kvs) key of Some v \<Rightarrow> v | None \<Rightarrow> 0) in
     \<lparr>mem_total_kb = value ''MemTotal'', mem_free_kb = value ''MemFree'',
      mem_available_kb = value ''MemAvailable'', buffers_kb = value ''Buffers'',
      cached_kb = value ''Cached'', swap_total_kb = value ''SwapTotal'', swap_free_kb = value ''SwapFree''\<rparr>)"
  unfolding meminfo_text_lines [OF assms] Let_def
  by (rule mem_info.equality)
    (simp_all add: foldl_last_of [where pr = meminfo_show, OF meminfo_line_field(1) assms]
      foldl_last_of [where pr = meminfo_show, OF meminfo_line_field(2) assms]
      foldl_last_of [where pr = meminfo_show, OF meminfo_line_field(3) assms]
      foldl_last_of [where pr = meminfo_show, OF meminfo_line_field(4) assms]
      foldl_last_of [where pr = meminfo_show, OF meminfo_line_field(5) assms]
      foldl_last_of [where pr = meminfo_show, OF meminfo_line_field(6) assms]
      foldl_last_of [where pr = meminfo_show, OF meminfo_line_field(7) assms]
      default_mem_info_def split: option.split)

theorem meminfo_fields_witness:
  "parse_meminfo (unlines (map meminfo_show [(''SwapFree'', 7), (''Shmem'', 9), (''MemTotal'', 16333764)])) =
     default_mem_info\<lparr>mem_total_kb := 16333764, swap_free_kb := 7\<rparr>"
proof -
  have "list_all (\<lambda>kv. key_ok (fst kv)) [(''SwapFree'', 7), (''Shmem'', 9), (''MemTotal'', 16333764 :: u64)]"
    by (simp add: key_ok_def is_word_def graphic_def)
  from meminfo_fields [OF this] show ?thesis by (simp add: default_mem_info_def Let_def)
qed

text \<open>
  C39: the agent's network totals are the sums, at 64 bits, of the rows that the diagnostics parse
  from the same file, the loopback and the nameless interface left out; they are zero when the
  file cannot be read.
\<close>

theorem net_readers_agree:
  "read_net_dev fs = (case collect_net_dev fs of
     Inl _ \<Rightarrow> (0, 0, 0, 0)
   | Inr rows \<Rightarrow> (let ds = filter outward rows in
       (sum_list (map nd_rx_bytes ds), sum_list (map nd_tx_bytes ds),
        sum_list (map nd_rx_errs ds), sum_list (map nd_tx_errs ds))))"
  by (simp add: read_net_dev_def collect_net_dev_def read_proc_def parse_net_dev_def
      agent_net_rows_sum map_err_def and_then_def split: sum.splits)

text \<open>
  The agent's disk counters come from rows that the diagnostics parse too: a device it
  counts is neither a loop nor a ram device, and its byte counts are 512 times the sector counts
  of a row of that device.
\<close>

theorem disk_reader_sound:
  assumes "map_of (read_diskstats fs) name = Some (rd, wr)"
  shows "physical name \<and> (\<exists>rows d. collect_diskstats fs = Inr rows \<and> d \<in> set rows \<and>
    dst_device d = name \<and> rd = sectors_read d * 512 \<and> wr = sectors_written d * 512)"
proof (cases "fs ''/proc/diskstats''")
  case (Inr content)
  then have "map_of (agent_diskstats_rows (text_lines content) []) name = Some (rd, wr)"
    using assms by (simp add: read_diskstats_def)
  from agent_disk_sound [OF this] Inr show ?thesis
    by (auto simp: collect_diskstats_def read_proc_def parse_diskstats_def SECTOR_BYTES_def)
qed (use assms in \<open>simp add: read_diskstats_def\<close>)

definition sample_diskstats :: files where
  "sample_diskstats path = Inr (unlines [''7 0 loop0 1 0 8 0 0 0 0'', ''8 0 sda 5 0 100 3 2 0 40 1''])"

theorem disk_reader_sound_witness:
  "physical ''sda'' \<and> read_diskstats sample_diskstats = [(''sda'', (51200, 20480))]"
proof -
  have r: "read_diskstats sample_diskstats = [(''sda'', (51200, 20480))]"
    by code_simp
  then have "map_of (read_diskstats sample_diskstats) ''sda'' = Some (51200, 20480)" by simp
  from disk_reader_sound [OF this] r show ?thesis by blast
qed

end
