(* ===== verification/Agent_Metrics.thy ===== *)
theory Agent_Metrics
  imports Proc_Readers
begin

text \<open>
  The agent's collector, \<open>hpc-agent/src/metrics.rs\<close>. What the \<open>sysinfo\<close> crate, the network stack
  and the clocks return at one call is a record of readings; an instant is a number of
  nanoseconds; the files of \<open>/proc\<close> are read by the readers of \<open>Proc_Fs\<close>.
\<close>

section \<open>Readings\<close>

record sys_disk =
  sd_name :: string
  sd_mount_point :: string
  sd_file_system :: string
  sd_total_space :: u64
  sd_available_space :: u64

text \<open>The state of \<open>sysinfo::System\<close> after a refresh; usages are widened to doubles.\<close>

record sys_reading =
  sy_cpu_usage :: f64
  sy_cores :: "f64 list"
  sy_total_memory :: u64
  sy_used_memory :: u64
  sy_available_memory :: u64
  sy_total_swap :: u64
  sy_used_swap :: u64

record machine =
  mc_sys :: sys_reading
  mc_load :: "f64 \<times> f64 \<times> f64"
  mc_disks :: "sys_disk list"
  mc_files :: files
  mc_now :: nat
  mc_unix :: u64

record host_reading =
  ho_host_name :: "string option"
  ho_kernel_version :: "string option"
  ho_long_os_version :: "string option"
  ho_name :: "string option"
  ho_udp_bind :: bool
  ho_udp_connect :: bool
  ho_udp_local_ip :: "string option"

section \<open>Collector\<close>

record prev =
  pv_at :: nat
  pv_disk :: "(string, u64 \<times> u64) hash_map"
  pv_net :: "u64 \<times> u64 \<times> u64 \<times> u64"

record collector =
  cl_node_id :: string
  cl_role :: node_role
  cl_sys :: sys_reading
  cl_prev :: "prev option"

definition collector_new :: "string \<Rightarrow> node_role \<Rightarrow> sys_reading \<Rightarrow> collector" where
  "collector_new i role sys = \<lparr>cl_node_id = i, cl_role = role, cl_sys = sys, cl_prev = None\<rparr>"

definition local_ip :: "host_reading \<Rightarrow> string" where
  "local_ip h =
     (if \<not> ho_udp_bind h then ''0.0.0.0''
      else if \<not> ho_udp_connect h then ''0.0.0.0''
      else case ho_udp_local_ip h of Some a \<Rightarrow> a | None \<Rightarrow> ''0.0.0.0'')"

definition unwrap_or :: "'a \<Rightarrow> 'a option \<Rightarrow> 'a" where
  "unwrap_or d x = (case x of None \<Rightarrow> d | Some a \<Rightarrow> a)"

definition collector_node_info :: "host_reading \<Rightarrow> machine \<Rightarrow> string \<Rightarrow> collector \<Rightarrow> node_info" where
  "collector_node_info h mc agent_version c =
     \<lparr>ni_node_id = cl_node_id c,
      ni_hostname = unwrap_or (cl_node_id c) (ho_host_name h),
      ni_ip_address = local_ip h,
      ni_role = cl_role c,
      ni_cpu_cores = of_nat (length (sy_cores (cl_sys c))),
      ni_total_memory_bytes = sy_total_memory (cl_sys c),
      ni_total_disk_bytes = fold max (map sd_total_space (mc_disks mc)) 0,
      ni_agent_version = agent_version,
      ni_kernel_version = unwrap_or [] (ho_kernel_version h),
      ni_os = unwrap_or (unwrap_or [] (ho_name h)) (ho_long_os_version h),
      ni_started_at_unix = mc_unix mc,
      ni_labels = []\<rparr>"

definition rate :: "u64 \<Rightarrow> u64 \<Rightarrow> f64 \<Rightarrow> u64" where
  "rate cur old secs =
     (if secs \<le> f64_zero then 0 else f64_to_u64 (f64_div (f64_of_u64 (saturating_sub cur old)) secs))"

text \<open>\<open>rsplit('/').next()\<close>: what follows the last slash.\<close>

definition short_name :: "string \<Rightarrow> string" where
  "short_name device = rev (takeWhile (\<lambda>c. c \<noteq> CHR ''/'') (rev device))"

definition build_disk ::
  "(string, u64 \<times> u64) hash_map \<Rightarrow> f64 option \<Rightarrow> prev option \<Rightarrow> sys_disk \<Rightarrow> disk_metrics" where
  "build_disk cur_io elapsed prev d =
     (let device = sd_name d; short = short_name device;
          (read_rate, write_rate) =
            (case (elapsed, prev) of
               (Some secs, Some p) \<Rightarrow>
                 let cur = unwrap_or (0, 0) (map_of cur_io short);
                     old = unwrap_or cur (map_of (pv_disk p) short)
                 in (rate (fst cur) (fst old) secs, rate (snd cur) (snd old) secs)
             | _ \<Rightarrow> (0, 0))
      in \<lparr>disk_device = device, disk_mount_point = sd_mount_point d, disk_fs_type = sd_file_system d,
          disk_total_bytes = sd_total_space d, disk_available_bytes = sd_available_space d,
          read_bytes_per_sec = read_rate, write_bytes_per_sec = write_rate,
          io_utilization_percent = f64_zero\<rparr>)"

definition build_disks ::
  "sys_disk list \<Rightarrow> (string, u64 \<times> u64) hash_map \<Rightarrow> f64 option \<Rightarrow> prev option \<Rightarrow> disk_metrics list" where
  "build_disks disks cur_io elapsed prev = map (build_disk cur_io elapsed prev) disks"

definition build_network :: "u64 \<times> u64 \<times> u64 \<times> u64 \<Rightarrow> f64 option \<Rightarrow> prev option \<Rightarrow> network_metrics" where
  "build_network cur elapsed prev =
     (case (elapsed, prev) of
        (Some secs, Some p) \<Rightarrow>
          (let (rx, tx, rxe, txe) = cur; (rx0, tx0, rxe0, txe0) = pv_net p
           in \<lparr>rx_bytes_per_sec = rate rx rx0 secs, tx_bytes_per_sec = rate tx tx0 secs,
               rx_errors = saturating_sub rxe rxe0, tx_errors = saturating_sub txe txe0\<rparr>)
      | _ \<Rightarrow> default_network)"

definition elapsed_since :: "nat \<Rightarrow> prev option \<Rightarrow> f64 option" where
  "elapsed_since now prev =
     (case prev of
        None \<Rightarrow> None
      | Some p \<Rightarrow> (let s = as_secs_f64 (now - pv_at p) in if f64_zero < s then Some s else None))"

definition collect_metrics :: "machine \<Rightarrow> collector \<Rightarrow> metrics_report \<times> collector" where
  "collect_metrics mc c =
     (let sys = mc_sys mc;
          cpu = \<lparr>usage_percent = sy_cpu_usage sys, per_core_percent = sy_cores sys\<rparr>;
          memory = \<lparr>mem_total_bytes = sy_total_memory sys, mem_used_bytes = sy_used_memory sys,
                    mem_available_bytes = sy_available_memory sys,
                    swap_total_bytes = sy_total_swap sys, swap_used_bytes = sy_used_swap sys\<rparr>;
          (l1, l5, l15) = mc_load mc;
          load = \<lparr>load_one = l1, load_five = l5, load_fifteen = l15\<rparr>;
          now = mc_now mc;
          elapsed = elapsed_since now (cl_prev c);
          cur_disk_io = read_diskstats (mc_files mc);
          disks = build_disks (mc_disks mc) cur_disk_io elapsed (cl_prev c);
          cur_net = read_net_dev (mc_files mc);
          network = build_network cur_net elapsed (cl_prev c);
          c' = c\<lparr>cl_sys := sys, cl_prev := Some \<lparr>pv_at = now, pv_disk = cur_disk_io, pv_net = cur_net\<rparr>\<rparr>
      in (\<lparr>mr_node_id = cl_node_id c, mr_timestamp_unix = mc_unix mc, mr_cpu = cpu, mr_memory = memory,
           mr_load = load, mr_disks = disks, mr_network = network, mr_filesystems = []\<rparr>, c'))"

text \<open>A series of samples.\<close>

fun collect_series :: "machine list \<Rightarrow> collector \<Rightarrow> metrics_report list \<times> collector" where
  "collect_series [] c = ([], c)"
| "collect_series (mc # ms) c =
     (let (r, c1) = collect_metrics mc c; (rs, c2) = collect_series ms c1 in (r # rs, c2))"

end
