(* ===== verification/Services.thy ===== *)
theory Services
  imports Control_Plane Cli_Daemon Monitor Agent_Metrics
begin

text \<open>
  The three services as their \<open>main.rs\<close> put them together, with \<open>hpc-core/src/telemetry.rs\<close>: the
  start-up of \<open>hpc-daemon\<close>, \<open>hpc-agent\<close> and \<open>hpc-monitor\<close>, the reaper task of the daemon, and the
  scrape of the daemon's REST API by the monitor. Serving, signals and the \<open>select!\<close> between them
  are not modelled.
\<close>

section \<open>Telemetry\<close>

record 'f subscriber =
  sub_filter :: 'f
  sub_json :: bool
  sub_target :: bool
  sub_file :: bool
  sub_line_number :: bool

text \<open>
  \<open>from_env\<close> is \<open>EnvFilter::try_from_default_env\<close>, \<open>parse\<close> is \<open>EnvFilter::try_new\<close>, and
  \<open>try_init\<close> installs the subscriber unless there is one. A layer shows its target by default.
\<close>

definition telemetry_init ::
  "string + 'f \<Rightarrow> (string \<Rightarrow> string + 'f) \<Rightarrow> ('f subscriber \<Rightarrow> string + unit) \<Rightarrow> log_config \<Rightarrow> unit result" where
  "telemetry_init from_env parse try_init cfg =
     and_then (map_err (\<lambda>e. ConfigInvalid (''invalid log filter: '' @ e))
        (case from_env of Inr f \<Rightarrow> Inr f | Inl _ \<Rightarrow> parse (log_filter cfg))) (\<lambda>filter.
     let fmt = \<lparr>sub_filter = filter, sub_json = log_json cfg, sub_target = True,
           sub_file = log_with_location cfg, sub_line_number = log_with_location cfg\<rparr>
     in map_err (\<lambda>e. InvalidState (''tracing already initialised: '' @ e)) (try_init fmt))"

section \<open>Daemon\<close>

definition result_ctx :: "string \<Rightarrow> 'a result \<Rightarrow> 'a cli_result" where
  "result_ctx c r = with_ctx c (map_err hpc_error_to_string r)"

text \<open>
  Start-up of the daemon, as far as it is the same on every run: \<open>load\<close> is \<open>load_or_default\<close> with
  its file system and parser, \<open>tel\<close> is \<open>telemetry_init\<close> and \<open>opn\<close> is \<open>Store::open\<close>.
\<close>

definition daemon_start ::
  "(string \<Rightarrow> daemon_config result) \<Rightarrow> (log_config \<Rightarrow> unit result) \<Rightarrow> (duration \<Rightarrow> string) \<Rightarrow> (f64 \<Rightarrow> string) \<Rightarrow>
     (string \<Rightarrow> 'db result) \<Rightarrow> 'db store \<Rightarrow> u64 \<Rightarrow> string \<Rightarrow> (daemon_config \<times> 'db shared_state) cli_result" where
  "daemon_start load tel fmt_dur fmt opn S now path =
     and_then (result_ctx (''loading config from '' @ path) (load path)) (\<lambda>cfg.
     and_then (result_ctx ''initialising telemetry'' (tel (dc_log cfg))) (\<lambda>_.
     and_then (result_ctx ''validating configuration'' (daemon_validate fmt_dur fmt cfg)) (\<lambda>_.
     and_then (result_ctx ''opening state store'' (opn (store_path cfg))) (\<lambda>db.
     and_then (result_ctx ''bootstrapping cluster state'' (bootstrap S cfg now db)) (\<lambda>s.
     Inr (cfg, s))))))"

definition reaper_period :: "daemon_config \<Rightarrow> duration" where
  "reaper_period cfg = max (dc_node_timeout cfg div 2) (from_secs 1)"

text \<open>The reaper over the clock readings of its ticks: the nodes it warns of at each.\<close>

fun reaper :: "u64 list \<Rightarrow> 'db shared_state \<Rightarrow> node_id list list \<times> 'db shared_state" where
  "reaper [] s = ([], s)"
| "reaper (now # ts) s =
     (let (changed, s1) = reap_stale now s; (warned, s2) = reaper ts s1 in (changed # warned, s2))"

text \<open>
  The readings of a clock of whole seconds at the first \<open>n\<close> ticks of an interval that started at
  \<open>start\<close> nanoseconds; the first tick is immediate.
\<close>

definition tick_readings :: "nat \<Rightarrow> duration \<Rightarrow> nat \<Rightarrow> u64 list" where
  "tick_readings start period n = map (\<lambda>k. of_nat (as_secs (start + k * period))) [0..<n]"

section \<open>Agent\<close>

definition agent_start ::
  "(string \<Rightarrow> agent_config result) \<Rightarrow> (log_config \<Rightarrow> unit result) \<Rightarrow> string \<Rightarrow> string option \<Rightarrow> agent_config cli_result" where
  "agent_start load tel path endpoint =
     and_then (result_ctx (''loading config from '' @ path) (load path)) (\<lambda>cfg.
     let cfg = (case endpoint of Some e \<Rightarrow> cfg\<lparr>ac_daemon_endpoint := e\<rparr> | None \<Rightarrow> cfg) in
     and_then (result_ctx ''initialising telemetry'' (tel (ac_log cfg))) (\<lambda>_. Inr cfg))"

text \<open>What \<open>client::run\<close> makes before its loop: the collector, the description of the node, the executor.\<close>

definition agent_setup ::
  "host_reading \<Rightarrow> Agent_Metrics.machine \<Rightarrow> sys_reading \<Rightarrow> string \<Rightarrow> agent_config \<Rightarrow>
     collector \<times> node_info \<times> executor" where
  "agent_setup h mc sys version cfg =
     (let node_id = resolve_node_id cfg (ho_host_name h);
          collector = collector_new node_id (ac_role cfg) sys;
          info = (collector_node_info h mc version collector)\<lparr>ni_labels := ac_labels cfg, ni_role := ac_role cfg\<rparr>
      in (collector, info, executor_new node_id (ac_allow_exec cfg)))"

section \<open>Monitor\<close>

text \<open>\<open>fresh\<close> is \<open>metrics_new\<close> with its registry.\<close>

definition monitor_start ::
  "(string \<Rightarrow> monitor_config result) \<Rightarrow> (log_config \<Rightarrow> unit result) \<Rightarrow> (f64 \<Rightarrow> string) \<Rightarrow>
     (exporter \<times> 'reg) result \<Rightarrow> string \<Rightarrow> (monitor_config \<times> exporter \<times> 'reg) cli_result" where
  "monitor_start load tel fmt fresh path =
     and_then (result_ctx (''loading config from '' @ path) (load path)) (\<lambda>cfg.
     and_then (result_ctx ''initialising telemetry'' (tel (mc_log cfg))) (\<lambda>_.
     and_then (result_ctx ''validating thresholds'' (thresholds_validate fmt (mc_thresholds cfg))) (\<lambda>_.
     and_then (result_ctx ''initialising prometheus metrics'' fresh) (\<lambda>metrics.
     Inr (cfg, metrics)))))"

text \<open>The answer of \<open>/metrics\<close>: status, content type where one is set, body.\<close>

definition metrics_handler :: "string result \<Rightarrow> nat \<times> string option \<times> string" where
  "metrics_handler rendered =
     (case rendered of
        Inr body \<Rightarrow> (200, Some ''text/plain; version=0.0.4'', body)
      | Inl e \<Rightarrow> (500, None, hpc_error_to_string e))"


section \<open>Lemmas\<close>

subsection \<open>Daemon\<close>

lemma result_ctx_Inr [simp]: "result_ctx c r = Inr a \<longleftrightarrow> r = Inr a"
  by (cases r) (simp_all add: result_ctx_def with_ctx_def map_err_def)

text \<open>A daemon that started runs on a valid configuration, from a state it recovered from its store.\<close>

lemma daemon_started:
  assumes "daemon_start load tel fmt_dur fmt opn S now path = Inr (cfg, s)"
  shows "load path = Inr cfg" and "daemon_validate fmt_dur fmt cfg = Inr ()"
    and "ss_node_timeout s = dc_node_timeout cfg" and "ss_thresholds s = dc_thresholds cfg"
    and "\<exists>db. opn (store_path cfg) = Inr db \<and> bootstrap S cfg now db = Inr s \<and> daemon_reach {S} {db} s"
proof -
  obtain db where *: "load path = Inr cfg" "daemon_validate fmt_dur fmt cfg = Inr ()"
      "opn (store_path cfg) = Inr db" "bootstrap S cfg now db = Inr s"
    using assms by (auto simp: daemon_start_def and_then_Inr_iff)
  then show "load path = Inr cfg" "daemon_validate fmt_dur fmt cfg = Inr ()"
    "ss_node_timeout s = dc_node_timeout cfg" "ss_thresholds s = dc_thresholds cfg"
    by (auto simp: bootstrap_def and_then_Inr_iff)
  have "daemon_reach {S} {db} s" by (rule reach_boot [OF _ _ *(4)]) simp_all
  then show "\<exists>db. opn (store_path cfg) = Inr db \<and> bootstrap S cfg now db = Inr s \<and> daemon_reach {S} {db} s"
    using * by blast
qed

text \<open>The settings of a daemon never change while it runs.\<close>

lemma section_step_settings:
  "section_step SS s t \<Longrightarrow> ss_node_timeout t = ss_node_timeout s \<and> ss_thresholds t = ss_thresholds s \<and>
     ss_epoch t = ss_epoch s"
proof (induction rule: section_step.induct)
  case (sec_dispatch s i cmd)
  then show ?case using dispatch_state [of i cmd s] by (auto simp: chan_send_def split: option.splits)
qed (simp_all add: method_defs Let_def case_prod_beta split: option.splits)

subsection \<open>Agent\<close>

lemma agent_identity:
  assumes "agent_setup h mc sys version cfg = (c, info, ex)"
  shows "ni_node_id info = ex_node_id ex" and "mr_node_id (fst (collect_metrics m c)) = ex_node_id ex"
    and "btree_ok (ac_labels cfg) \<Longrightarrow> node_info_ok info" and "cl_prev c = None"
  using assms by (auto simp: agent_setup_def collector_node_info_def collector_new_def executor_new_def
      collect_metrics_def node_info_ok_def Let_def split: prod.splits)

subsection \<open>Reaper\<close>

lemma reap_stale_settings [simp]:
  "ss_node_timeout (snd (reap_stale now s)) = ss_node_timeout s"
  by (simp add: reap_stale_def case_prod_beta)

lemma table_ok_reap: "table_ok s \<Longrightarrow> table_ok (snd (reap_stale now s))"
  by (blast intro: table_ok_step sec_reap)

lemma reaper_lengths: "length (fst (reaper ts s)) = length ts"
  by (induction ts arbitrary: s) (simp_all add: case_prod_beta)

lemma count_list_distinct: "distinct xs \<Longrightarrow> count_list xs x = (if x \<in> set xs then 1 else 0)"
  by (induction xs) auto

text \<open>No sweep touches or reports a node that is marked already.\<close>

lemma reaper_marked:
  assumes "table_ok s" and "get_node i s = Some r" and "nr_status r = Unreachable"
  shows "count_list (concat (fst (reaper ts s))) i = 0 \<and> get_node i (snd (reaper ts s)) = Some r"
  using assms
proof (induction ts arbitrary: s)
  case (Cons now ts)
  have "reap_one (reap_cutoff now s) r = r" using Cons.prems(3) by (simp add: reap_one_def)
  then have "get_node i (snd (reap_stale now s)) = Some r" by (simp add: get_reap Cons.prems(2))
  moreover have "i \<notin> set (fst (reap_stale now s))" using Cons.prems by (simp add: reap_changed(2))
  ultimately show ?case
    using Cons.IH [OF table_ok_reap [OF Cons.prems(1)] _ Cons.prems(3)]
    by (simp add: case_prod_beta count_list_0_iff)
qed simp

text \<open>A silent node is reported once, at the first reading beyond its window.\<close>

lemma reaper_silent:
  assumes "table_ok s" and "get_node i s = Some r" and "nr_status r \<noteq> Unreachable"
    and "as_secs (ss_node_timeout s) < 2 ^ 64"
  defines "late \<equiv> (\<lambda>now :: u64. unat (nr_last_seen_unix r) + as_secs (ss_node_timeout s) < unat now)"
  shows "count_list (concat (fst (reaper ts s))) i = (if list_ex late ts then 1 else 0) \<and>
    get_node i (snd (reaper ts s)) = Some (if list_ex late ts then r\<lparr>nr_status := Unreachable\<rparr> else r) \<and>
    (\<forall>k < length ts. late (ts ! k) \<and> \<not> list_ex late (take k ts) \<longrightarrow> i \<in> set (fst (reaper ts s) ! k))"
  using assms(1-4) unfolding late_def
proof (induction ts arbitrary: s)
  case (Cons now ts)
  let ?s1 = "snd (reap_stale now s)" and ?T = "as_secs (ss_node_timeout s)"
  let ?late = "\<lambda>now :: u64. unat (nr_last_seen_unix r) + ?T < unat now"
  note ok1 = table_ok_reap [OF Cons.prems(1), of now]
  have in_iff: "i \<in> set (fst (reap_stale now s)) \<longleftrightarrow> ?late now"
    using Cons.prems by (simp add: reap_changed(2) stale_iff)
  have get1: "get_node i ?s1 = Some (if ?late now then r\<lparr>nr_status := Unreachable\<rparr> else r)"
    using Cons.prems by (simp add: get_reap reap_one_def stale_iff)
  have cnt: "count_list (fst (reap_stale now s)) i = (if ?late now then 1 else 0)"
    using in_iff count_list_distinct [OF reap_changed(1) [OF Cons.prems(1), of now], of i] by simp
  show ?case
  proof (cases "?late now")
    case True
    then show ?thesis
      using reaper_marked [OF ok1, of i "r\<lparr>nr_status := Unreachable\<rparr>" ts] get1 cnt in_iff
      by (auto simp: case_prod_beta nth_Cons split: nat.splits)
  next
    case False
    then show ?thesis
      using Cons.IH [OF ok1 _ Cons.prems(3)] Cons.prems(4) get1 cnt
      by (auto simp: case_prod_beta nth_Cons split: nat.splits)
  qed
qed simp

text \<open>The readings of an interval's ticks, and the first of them beyond a given second.\<close>

lemma tick_reading:
  assumes "k < n" and "as_secs (start + n * period) < 2 ^ 64"
  shows "unat (tick_readings start period n ! k) = as_secs (start + k * period)"
proof -
  have "as_secs (start + k * period) \<le> as_secs (start + n * period)"
    using assms(1) by (simp add: as_secs_def div_le_mono)
  then show ?thesis using assms by (simp add: tick_readings_def unat_of_nat_u64)
qed

lemma tick_readings_length [simp]: "length (tick_readings start period n) = n"
  by (simp add: tick_readings_def)

lemma as_secs_beyond: "m < as_secs d \<longleftrightarrow> (m + 1) * 1000000000 \<le> d"
  by (simp add: as_secs_def less_eq_div_iff_mult_less_eq Suc_le_eq [symmetric])

lemma reaper_period_secs: "as_secs (reaper_period cfg) \<le> as_secs (dc_node_timeout cfg) div 2 + 1"
  by (simp add: reaper_period_def as_secs_def from_secs_def max_def div_mult2_eq [symmetric] mult.commute)

lemma first_tick_beyond:
  assumes "as_secs start \<le> m" and "m < as_secs (start + (n - 1) * period)" and "n > 0"
  shows "\<exists>k < n. m < as_secs (start + k * period) \<and> as_secs (start + k * period) \<le> m + as_secs period + 1 \<and>
    (\<forall>j < k. \<not> m < as_secs (start + j * period))"
proof -
  let ?P = "\<lambda>k. m < as_secs (start + k * period)"
  define k where "k = (LEAST k. ?P k)"
  have k: "?P k" and least: "\<forall>j < k. \<not> ?P j" and "k \<le> n - 1"
    using assms(2) not_less_Least [of _ ?P] by (auto simp: k_def intro: LeastI Least_le)
  obtain j where j: "k = Suc j" using k assms(1) by (cases k) auto
  then have "as_secs (start + j * period) \<le> m" using least by auto
  then have "start + j * period < (m + 1) * 1000000000"
    using as_secs_beyond [of m "start + j * period"] by simp
  moreover have "period < (as_secs period + 1) * 1000000000"
    using as_secs_beyond [of "as_secs period" period] by simp
  ultimately have "start + k * period < (m + 1 + as_secs period + 1) * 1000000000"
    by (simp add: j algebra_simps)
  then have "as_secs (start + k * period) \<le> m + as_secs period + 1"
    using as_secs_beyond [of "m + as_secs period + 1" "start + k * period"] by simp
  then show ?thesis using k least \<open>k \<le> n - 1\<close> assms(3) by (intro exI [of _ k]) simp
qed

subsection \<open>Monitor\<close>




section \<open>Properties\<close>

text \<open>
  C4: the reaper with the period that the daemon gives it finds every silent node in time: a node
  last heard of after the reaper started, and then silent, is warned of exactly once and ends
  unreachable, at a tick at most one and a half timeouts and two seconds after its last contact.
\<close>

theorem silent_node_reported:
  assumes "daemon_reach SS D s" and "ss_node_timeout s = dc_node_timeout cfg"
    and "get_node i s = Some r" and "nr_status r \<noteq> Unreachable"
    and "as_secs start \<le> unat (nr_last_seen_unix r)"
    and "unat (nr_last_seen_unix r) + as_secs (dc_node_timeout cfg) < as_secs (start + (n - 1) * reaper_period cfg)"
    and "as_secs (start + n * reaper_period cfg) < 2 ^ 64" and "n > 0"
    and "ts = tick_readings start (reaper_period cfg) n"
  shows "count_list (concat (fst (reaper ts s))) i = 1 \<and>
    get_node i (snd (reaper ts s)) = Some (r\<lparr>nr_status := Unreachable\<rparr>) \<and>
    (\<exists>k < n. i \<in> set (fst (reaper ts s) ! k) \<and> unat (ts ! k) \<le>
      unat (nr_last_seen_unix r) + as_secs (dc_node_timeout cfg) + as_secs (dc_node_timeout cfg) div 2 + 2)"
proof -
  let ?T = "as_secs (dc_node_timeout cfg)" and ?p = "reaper_period cfg"
  let ?m = "unat (nr_last_seen_unix r) + ?T"
  let ?late = "\<lambda>now :: u64. unat (nr_last_seen_unix r) + as_secs (ss_node_timeout s) < unat now"
  have "as_secs start \<le> ?m" using assms(5) by simp
  then obtain k where k: "k < n" "?m < as_secs (start + k * ?p)"
      "as_secs (start + k * ?p) \<le> ?m + as_secs ?p + 1" "\<forall>j < k. \<not> ?m < as_secs (start + j * ?p)"
    using first_tick_beyond [of start ?m n ?p] assms(6,8) by blast
  have reading: "unat (ts ! j) = as_secs (start + j * ?p)" if "j < n" for j
    unfolding assms(9) by (rule tick_reading [OF that assms(7)])
  have len: "length ts = n" by (simp add: assms(9))
  have late: "?late (ts ! k)" using k(1,2) by (simp add: reading assms(2))
  have early: "\<not> list_ex ?late (take k ts)"
    using k(1,4) by (auto simp: list_ex_iff in_set_conv_nth reading len assms(2))
  have some: "list_ex ?late ts" using late k(1) len nth_mem [of k ts] by (auto simp: list_ex_iff)
  have "?T < 2 ^ 64"
  proof -
    have "as_secs (start + (n - 1) * ?p) \<le> as_secs (start + n * ?p)" by (simp add: as_secs_def div_le_mono)
    then show ?thesis using assms(6,7) by linarith
  qed
  then have silent: "count_list (concat (fst (reaper ts s))) i = 1"
      "get_node i (snd (reaper ts s)) = Some (r\<lparr>nr_status := Unreachable\<rparr>)"
      "i \<in> set (fst (reaper ts s) ! k)"
    using reaper_silent [OF reach_table_ok [OF assms(1)] assms(3,4), of ts] some late early k(1) len assms(2)
    by simp_all
  moreover have "unat (ts ! k) \<le> ?m + ?T div 2 + 2"
    using k(1,3) reaper_period_secs [of cfg] by (simp add: reading)
  ultimately show ?thesis using k(1) by blast
qed

theorem silent_node_reported_witness:
  "count_list (concat (fst (reaper (tick_readings (from_secs 15) (reaper_period sample_cfg) 4) state1))) ''n1'' = 1"
proof -
  have p: "reaper_period sample_cfg = from_secs 15" "dc_node_timeout sample_cfg = from_secs 30"
    by (simp_all add: reaper_period_def sample_cfg_def default_daemon_config_def from_secs_def)
  have n: "get_node ''n1'' state1 = Some sample_record" by (simp add: get_node_def state1_def)
  show ?thesis
    using silent_node_reported [OF sample_reach _ n, of sample_cfg "from_secs 15" 4]
    by (simp add: p sample_record_def state1_def state0_def as_secs_def from_secs_def)
qed











end
