(* ===== verification/Diagnostics.thy ===== *)
theory Diagnostics
  imports Proc_Readers
begin

text \<open>
  The diagnostic bundle: the data model and heuristics of \<open>hpc-diag/src/report.rs\<close>, the collection
  of \<open>hpc-diag/src/lib.rs\<close> and the command of \<open>hpc-diag/src/main.rs\<close>. Rendering a double with one
  decimal, serialising to JSON and writing a file are arguments.
\<close>

section \<open>Data model\<close>

datatype severity = Info | Warning | Error | Fatal

text \<open>The derived order follows the declaration.\<close>

fun severity_rank :: "severity \<Rightarrow> nat" where
  "severity_rank Info = 0"
| "severity_rank Warning = 1"
| "severity_rank Error = 2"
| "severity_rank Fatal = 3"

instantiation severity :: linorder
begin

definition less_eq_severity :: "severity \<Rightarrow> severity \<Rightarrow> bool" where
  "less_eq_severity a b \<longleftrightarrow> severity_rank a \<le> severity_rank b"

definition less_severity :: "severity \<Rightarrow> severity \<Rightarrow> bool" where
  "less_severity a b \<longleftrightarrow> severity_rank a < severity_rank b"

instance
proof
  show "x \<le> y \<Longrightarrow> y \<le> x \<Longrightarrow> x = y" for x y :: severity
    by (cases x; cases y) (simp_all add: less_eq_severity_def)
qed (auto simp: less_eq_severity_def less_severity_def)

end

record diag_report =
  dr_source :: string
  dr_severity :: severity
  dr_kind :: string
  dr_message :: string
  dr_context :: "(string, string) btree_map"
  dr_captured_at_unix :: u64

definition diag_report_new :: "u64 \<Rightarrow> string \<Rightarrow> severity \<Rightarrow> string \<Rightarrow> string \<Rightarrow> diag_report" where
  "diag_report_new now source sev kind message =
     \<lparr>dr_source = source, dr_severity = sev, dr_kind = kind, dr_message = message,
      dr_context = [], dr_captured_at_unix = now\<rparr>"

definition report_warning :: "u64 \<Rightarrow> string \<Rightarrow> string \<Rightarrow> string \<Rightarrow> diag_report" where
  "report_warning now source kind message = diag_report_new now source Warning kind message"

definition report_error :: "u64 \<Rightarrow> string \<Rightarrow> string \<Rightarrow> string \<Rightarrow> diag_report" where
  "report_error now source kind message = diag_report_new now source Error kind message"

definition with_context :: "string \<Rightarrow> string \<Rightarrow> diag_report \<Rightarrow> diag_report" where
  "with_context key value r = r\<lparr>dr_context := btree_insert key value (dr_context r)\<rparr>"

record host_info =
  hi_hostname :: string
  hi_os :: string
  hi_arch :: string

record platform_info =
  pi_kernel :: kernel_info
  pi_filesystems :: "string list"
  pi_mounts :: "mount_entry list"

record anomaly =
  an_severity :: severity
  an_category :: string
  an_detail :: string

record diagnostic_bundle =
  db_schema_version :: u32
  db_generated_at_unix :: u64
  db_host :: host_info
  db_platform :: platform_info
  db_memory :: "mem_info option"
  db_disks :: "disk_stat list"
  db_network :: "net_dev list"
  db_reports :: "diag_report list"
  db_anomalies :: "anomaly list"

definition SCHEMA_VERSION :: u32 where
  "SCHEMA_VERSION = 1"

section \<open>Heuristics\<close>

definition EPHEMERAL_FS :: "string list" where
  "EPHEMERAL_FS = [''tmpfs'', ''ramfs'', ''overlay'', ''devtmpfs'']"

definition memory_anomalies :: "(f64 \<Rightarrow> string) \<Rightarrow> mem_info \<Rightarrow> anomaly list" where
  "memory_anomalies fmt1 mem =
     (let avail = available_fraction mem in
      (if mem_total_kb mem > 0 \<and> avail < f64_lit 10 100
       then [\<lparr>an_severity = Error, an_category = ''memory_pressure'',
              an_detail = ''only '' @ fmt1 (f64_mul avail (f64_lit 100 1)) @ ''% of memory available; latency spikes, allocator failures and OOM kills are plausible here''\<rparr>]
       else []) @
      (if swap_total_kb mem = 0
       then [\<lparr>an_severity = Info, an_category = ''no_swap'',
              an_detail = ''no swap configured; memory pressure surfaces as hard OOM rather than slowdown''\<rparr>]
       else []))"

definition kernel_anomalies :: "kernel_info \<Rightarrow> anomaly list" where
  "kernel_anomalies k =
     (case version_pair k of
        None \<Rightarrow> []
      | Some (major, minor) \<Rightarrow>
          if major < 5 \<or> (major = 5 \<and> minor < 1)
          then [\<lparr>an_severity = Warning, an_category = ''old_kernel'',
                 an_detail = ''kernel '' @ ki_release k @ '' predates io_uring (5.1); async I/O and syscall behaviour may differ from newer nodes''\<rparr>]
          else [])"

definition filesystem_anomalies :: "string list \<Rightarrow> anomaly list" where
  "filesystem_anomalies fss =
     (if length fss > 1
      then [\<lparr>an_severity = Info, an_category = ''heterogeneous_filesystems'',
             an_detail = ''multiple filesystem types in use ('' @ join '', '' fss @ ''); durability and atomicity semantics can differ per mount''\<rparr>]
      else [])"

fun mount_anomalies :: "mount_entry list \<Rightarrow> anomaly list" where
  "mount_anomalies [] = []"
| "mount_anomalies (m # ms) =
     (if me_fs_type m \<in> set EPHEMERAL_FS \<and> starts_with ''/var'' (me_mount_point m)
      then [\<lparr>an_severity = Warning, an_category = ''ephemeral_state_dir'',
             an_detail = me_mount_point m @ '' is '' @ me_fs_type m @ '' (ephemeral); state written there is lost on reboot''\<rparr>]
      else []) @
     (if me_mount_point m = ''/'' \<and> ''ro'' \<in> set (me_options m)
      then [\<lparr>an_severity = Error, an_category = ''root_read_only'',
             an_detail = ''root filesystem is mounted read-only; writes will fail''\<rparr>]
      else []) @ mount_anomalies ms"

definition detect_anomalies :: "(f64 \<Rightarrow> string) \<Rightarrow> mem_info option \<Rightarrow> platform_info \<Rightarrow> anomaly list" where
  "detect_anomalies fmt1 memory platform =
     (case memory of None \<Rightarrow> [] | Some mem \<Rightarrow> memory_anomalies fmt1 mem) @
     kernel_anomalies (pi_kernel platform) @
     filesystem_anomalies (pi_filesystems platform) @
     mount_anomalies (pi_mounts platform)"

section \<open>Collection\<close>

text \<open>
  The machine: its files, the variable \<open>HOSTNAME\<close>, the compile-time constants, the double
  formatter, and the clock, which is read when a source is found unavailable (at its path) and
  when the bundle is built (at the empty string).
\<close>

record diag_env =
  de_files :: files
  de_hostname_var :: "string option"
  de_os :: string
  de_arch :: string
  de_fmt1 :: "f64 \<Rightarrow> string"
  de_clock :: "string \<Rightarrow> u64"

definition host_collect :: "diag_env \<Rightarrow> host_info" where
  "host_collect E =
     (let from_file = (case de_files E ''/proc/sys/kernel/hostname'' of
            Inl _ \<Rightarrow> None
          | Inr s \<Rightarrow> if trim s = [] then None else Some (trim s));
          from_env = (case from_file of None \<Rightarrow> de_hostname_var E | Some h \<Rightarrow> Some h);
          hostname = (case from_env of None \<Rightarrow> ''unknown'' | Some h \<Rightarrow> h)
      in \<lparr>hi_hostname = hostname, hi_os = de_os E, hi_arch = de_arch E\<rparr>)"

definition unavailable :: "diag_env \<Rightarrow> string \<Rightarrow> hpc_error \<Rightarrow> diag_report" where
  "unavailable E source err =
     with_context ''source'' source
       (report_warning (de_clock E source) ''hpc-diag'' ''collector_unavailable''
          (''could not read '' @ source @ '': '' @ hpc_error_to_string err))"

text \<open>One arm of the collection: the value, or the default and one more report.\<close>

definition collect_or :: "diag_env \<Rightarrow> string \<Rightarrow> 'a \<Rightarrow> 'a result \<Rightarrow> diag_report list \<Rightarrow> 'a \<times> diag_report list" where
  "collect_or E source dflt r reports =
     (case r of Inr a \<Rightarrow> (a, reports) | Inl err \<Rightarrow> (dflt, reports @ [unavailable E source err]))"

definition distinct_sorted :: "string list \<Rightarrow> string list" where
  "distinct_sorted xs = map fst (btree_collect (map (\<lambda>x. (x, ())) xs))"

definition collect_with_reports :: "diag_env \<Rightarrow> diag_report list \<Rightarrow> diagnostic_bundle" where
  "collect_with_reports E reports =
     (let fs = de_files E;
          (memory, reports) = collect_or E ''/proc/meminfo'' None
             (and_then (collect_meminfo fs) (\<lambda>m. Inr (Some m))) reports;
          (disks, reports) = collect_or E ''/proc/diskstats'' [] (collect_diskstats fs) reports;
          (network, reports) = collect_or E ''/proc/net/dev'' [] (collect_net_dev fs) reports;
          (mounts, reports) = collect_or E ''/proc/mounts'' [] (collect_mounts fs) reports;
          (kernel, reports) = collect_or E ''/proc/version'' default_kernel_info (collect_kernel fs) reports;
          filesystems = distinct_sorted (map me_fs_type mounts);
          platform = \<lparr>pi_kernel = kernel, pi_filesystems = filesystems, pi_mounts = mounts\<rparr>;
          anomalies = detect_anomalies (de_fmt1 E) memory platform
      in \<lparr>db_schema_version = SCHEMA_VERSION, db_generated_at_unix = de_clock E [],
          db_host = host_collect E, db_platform = platform, db_memory = memory, db_disks = disks,
          db_network = network, db_reports = reports, db_anomalies = anomalies\<rparr>)"

definition collect_bundle :: "diag_env \<Rightarrow> diagnostic_bundle" where
  "collect_bundle E = collect_with_reports E []"

text \<open>
  The command: the JSON goes to standard output or to a file; serialising and writing may fail.
  The result holds the text printed, if any, and the file written, if any; an error carries its
  context before a colon.
\<close>

definition run_collect ::
  "diag_env \<Rightarrow> (diagnostic_bundle \<Rightarrow> string + string) \<Rightarrow> (diagnostic_bundle \<Rightarrow> string + string) \<Rightarrow>
     (string \<Rightarrow> string \<Rightarrow> string + unit) \<Rightarrow> string \<Rightarrow> bool \<Rightarrow> string + string option \<times> (string \<times> string) option" where
  "run_collect E to_json to_json_pretty write output one_line =
     (let bundle = collect_bundle E in
      and_then (map_err (\<lambda>e. ''serializing bundle: '' @ e) ((if one_line then to_json else to_json_pretty) bundle))
        (\<lambda>json. if output = ''-'' then Inr (Some json, None)
                else and_then (map_err (\<lambda>e. ''writing bundle to '' @ output @ '': '' @ e) (write output json))
                       (\<lambda>_. Inr (None, Some (output, json)))))"

end
