(* ===== verification/Diagnostics_Props.thy ===== *)
theory Diagnostics_Props
  imports Diagnostics
begin

text \<open>
  What the diagnostics promise: which conditions are flagged, stated on the integers the kernel
  reports, and that collection never fails.
\<close>

section \<open>Lemmas\<close>

definition categories :: "anomaly list \<Rightarrow> string set" where
  "categories as = an_category ` set as"

lemma categories_simps [simp]:
  "categories [] = {}" "categories (a # as) = insert (an_category a) (categories as)"
  "categories (as @ bs) = categories as \<union> categories bs"
  by (auto simp: categories_def)

lemma available_fraction_ratio:
  "mem_total_kb m > 0 \<Longrightarrow> available_fraction m = u64_ratio (mem_available_kb m) (mem_total_kb m)"
  by (auto simp: available_fraction_def u64_ratio_def)

lemma memory_categories:
  assumes "unat (mem_total_kb m) < 2 ^ 53"
  shows "categories (memory_anomalies F m) =
    (if 10 * unat (mem_available_kb m) < unat (mem_total_kb m) then {''memory_pressure''} else {}) \<union>
    (if swap_total_kb m = 0 then {''no_swap''} else {})"
proof (cases "mem_total_kb m > 0")
  case True
  then show ?thesis
    using less_tenth_iff [OF True assms, of "mem_available_kb m"]
    by (simp add: memory_anomalies_def available_fraction_ratio Let_def)
next
  case False
  then have "unat (mem_total_kb m) = 0" by (simp add: word_gt_0)
  then show ?thesis using False by (simp add: memory_anomalies_def Let_def)
qed

lemma kernel_categories:
  "categories (kernel_anomalies k) =
    (case version_pair k of
       Some (major, minor) \<Rightarrow> if major < 5 \<or> (major = 5 \<and> minor = 0) then {''old_kernel''} else {}
     | None \<Rightarrow> {})"
  by (simp add: kernel_anomalies_def word_less_1 split: option.split)

lemma filesystem_categories:
  "categories (filesystem_anomalies fss) = (if length fss > 1 then {''heterogeneous_filesystems''} else {})"
  by (simp add: filesystem_anomalies_def)

definition ephemeral_state :: "mount_entry \<Rightarrow> bool" where
  "ephemeral_state m \<longleftrightarrow> me_fs_type m \<in> {''tmpfs'', ''ramfs'', ''overlay'', ''devtmpfs''} \<and>
     starts_with ''/var'' (me_mount_point m)"

definition root_read_only :: "mount_entry \<Rightarrow> bool" where
  "root_read_only m \<longleftrightarrow> me_mount_point m = ''/'' \<and> ''ro'' \<in> set (me_options m)"

lemma mount_categories:
  "categories (mount_anomalies ms) =
    (if list_ex ephemeral_state ms then {''ephemeral_state_dir''} else {}) \<union>
    (if list_ex root_read_only ms then {''root_read_only''} else {})"
  by (induction ms) (auto simp: ephemeral_state_def root_read_only_def EPHEMERAL_FS_def)

lemma distinct_sorted_set: "set (distinct_sorted xs) = set xs"
proof -
  have "fst ` set (foldl (\<lambda>m (k, v). btree_insert k v m) acc (map (\<lambda>x. (x, ())) ys)) = fst ` set acc \<union> set ys"
    for acc :: "(string, unit) btree_map" and ys
    by (induction ys arbitrary: acc) auto
  then show ?thesis by (simp add: distinct_sorted_def btree_collect_def)
qed

lemma distinct_sorted_sorted: "sorted_wrt (<) (distinct_sorted xs)"
  using btree_ok_collect [of "map (\<lambda>x. (x, ())) xs"] by (simp add: distinct_sorted_def btree_ok_def)

lemma distinct_sorted_many: "length (distinct_sorted xs) > 1 \<longleftrightarrow> (\<exists>x \<in> set xs. \<exists>y \<in> set xs. x \<noteq> y)"
proof -
  have "distinct (distinct_sorted xs)"
    using distinct_sorted_sorted [of xs] by (simp add: strict_sorted_iff)
  then have "length (distinct_sorted xs) = card (set xs)"
    using distinct_card distinct_sorted_set by metis
  moreover have "card (set xs) > 1 \<longleftrightarrow> (\<exists>x \<in> set xs. \<exists>y \<in> set xs. x \<noteq> y)"
    by (metis List.finite_set One_nat_def card_le_Suc0_iff_eq linorder_not_less)
  ultimately show ?thesis by simp
qed

text \<open>The five sources, and the one rule by which each of them is collected.\<close>

definition sources :: "string list" where
  "sources = [''/proc/meminfo'', ''/proc/diskstats'', ''/proc/net/dev'', ''/proc/mounts'', ''/proc/version'']"

definition unreadable :: "diag_env \<Rightarrow> string \<Rightarrow> bool" where
  "unreadable E path \<longleftrightarrow> (\<exists>err. de_files E path = Inl err)"

definition source_notes :: "diag_env \<Rightarrow> string \<Rightarrow> diag_report list" where
  "source_notes E path = (case de_files E path of Inl err \<Rightarrow> [unavailable E path (io_at path err)] | Inr _ \<Rightarrow> [])"

definition parsed :: "diag_env \<Rightarrow> string \<Rightarrow> 'a \<Rightarrow> (string \<Rightarrow> 'a) \<Rightarrow> 'a" where
  "parsed E path dflt parse = (case de_files E path of Inl _ \<Rightarrow> dflt | Inr text \<Rightarrow> parse text)"

lemma collect_or_read:
  "collect_or E path dflt (and_then (read_proc (de_files E) path) (\<lambda>t. Inr (parse t))) reports =
     (parsed E path dflt parse, reports @ source_notes E path)"
  by (cases "de_files E path") (simp_all add: collect_or_def read_proc_def parsed_def source_notes_def)

lemma and_then_assoc: "and_then (and_then r f) g = and_then r (\<lambda>a. and_then (f a) g)"
  by (cases r) simp_all

lemmas collectors = collect_meminfo_def collect_diskstats_def collect_net_dev_def collect_mounts_def
  collect_kernel_def

lemma collect_with_reports_parts:
  "collect_with_reports E reports =
    (let mounts = parsed E ''/proc/mounts'' [] parse_mounts;
         memory = parsed E ''/proc/meminfo'' None (\<lambda>t. Some (parse_meminfo t));
         platform = \<lparr>pi_kernel = parsed E ''/proc/version'' default_kernel_info parse_version,
            pi_filesystems = distinct_sorted (map me_fs_type mounts), pi_mounts = mounts\<rparr>
     in \<lparr>db_schema_version = SCHEMA_VERSION, db_generated_at_unix = de_clock E [],
         db_host = host_collect E, db_platform = platform, db_memory = memory,
         db_disks = parsed E ''/proc/diskstats'' [] parse_diskstats,
         db_network = parsed E ''/proc/net/dev'' [] parse_net_dev,
         db_reports = reports @ concat (map (source_notes E) sources),
         db_anomalies = detect_anomalies (de_fmt1 E) memory platform\<rparr>)"
  by (simp add: collect_with_reports_def collectors and_then_assoc collect_or_read sources_def Let_def)

section \<open>Properties\<close>

text \<open>
  C26: the categories flagged are exactly those whose condition holds, on the numbers the kernel
  reports: memory pressure when less than a tenth of the memory is available (exact below
  \<open>2 ^ 53\<close> kB, although the code divides doubles), missing swap, a kernel before 5.1, several file
  system types, an ephemeral file system under \<open>/var\<close>, a root mounted read-only.
\<close>

theorem anomalies_exact:
  assumes "unat (mem_total_kb m) < 2 ^ 53"
  shows "categories (detect_anomalies F (Some m) platform) =
    (if 10 * unat (mem_available_kb m) < unat (mem_total_kb m) then {''memory_pressure''} else {}) \<union>
    (if swap_total_kb m = 0 then {''no_swap''} else {}) \<union>
    (case version_pair (pi_kernel platform) of
       Some (major, minor) \<Rightarrow> if major < 5 \<or> (major = 5 \<and> minor = 0) then {''old_kernel''} else {}
     | None \<Rightarrow> {}) \<union>
    (if length (pi_filesystems platform) > 1 then {''heterogeneous_filesystems''} else {}) \<union>
    (if list_ex ephemeral_state (pi_mounts platform) then {''ephemeral_state_dir''} else {}) \<union>
    (if list_ex root_read_only (pi_mounts platform) then {''root_read_only''} else {})"
  by (simp only: detect_anomalies_def option.simps categories_simps memory_categories [OF assms]
      kernel_categories filesystem_categories mount_categories Un_assoc)

theorem anomalies_exact_witness:
  "categories (detect_anomalies (\<lambda>_. []) (Some (default_mem_info\<lparr>mem_total_kb := 1000, mem_available_kb := 50\<rparr>))
     \<lparr>pi_kernel = \<lparr>ki_raw = [], ki_release = ''4.19.0''\<rparr>, pi_filesystems = [''ext4''], pi_mounts = []\<rparr>) =
   {''memory_pressure'', ''no_swap'', ''old_kernel''}"
proof -
  let ?m = "default_mem_info\<lparr>mem_total_kb := 1000, mem_available_kb := 50\<rparr>"
  let ?k = "\<lparr>ki_raw = [], ki_release = ''4.19.0''\<rparr>"
  have "version_pair ?k = Some (4, 19)" by code_simp
  moreover have "unat (mem_total_kb ?m) < 2 ^ 53" by simp
  ultimately show ?thesis
    by (subst anomalies_exact) (simp_all add: default_mem_info_def insert_commute)
qed

text \<open>
  C27: collection never fails: every part of the bundle is what its source parses to, or the
  default when the source cannot be read, and the reports are those contributed, then one note
  for each unreadable source, in the order of collection, under the same rule for all five.
\<close>

theorem collection_resilient:
  "let b = collect_with_reports E reports in
     db_memory b = parsed E ''/proc/meminfo'' None (\<lambda>t. Some (parse_meminfo t)) \<and>
     db_disks b = parsed E ''/proc/diskstats'' [] parse_diskstats \<and>
     db_network b = parsed E ''/proc/net/dev'' [] parse_net_dev \<and>
     pi_mounts (db_platform b) = parsed E ''/proc/mounts'' [] parse_mounts \<and>
     pi_kernel (db_platform b) = parsed E ''/proc/version'' default_kernel_info parse_version \<and>
     take (length reports) (db_reports b) = reports \<and>
     map dr_context (drop (length reports) (db_reports b)) =
       map (\<lambda>path. [(''source'', path)]) (filter (unreadable E) sources) \<and>
     (\<forall>r \<in> set (drop (length reports) (db_reports b)).
        dr_severity r = Warning \<and> dr_kind r = ''collector_unavailable'')"
proof -
  have c: "map dr_context (source_notes E path) = (if unreadable E path then [[(''source'', path)]] else [])" for path
    by (simp add: source_notes_def unreadable_def unavailable_def with_context_def report_warning_def
        diag_report_new_def split: sum.split)
  have "map dr_context (concat (map (source_notes E) ps)) =
      map (\<lambda>path. [(''source'', path)]) (filter (unreadable E) ps)" for ps
    by (induction ps) (simp_all add: c)
  moreover have "dr_severity r = Warning \<and> dr_kind r = ''collector_unavailable''"
    if "r \<in> set (source_notes E path)" for r path
    using that by (auto simp: source_notes_def unavailable_def with_context_def report_warning_def
        diag_report_new_def split: sum.splits)
  ultimately show ?thesis by (auto simp: collect_with_reports_parts Let_def)
qed

definition bare_env :: diag_env where
  "bare_env = \<lparr>de_files = (\<lambda>path. if path = ''/proc/version'' then Inr ''Linux version 6.5.0'' else Inl ''not found''),
     de_hostname_var = None, de_os = ''linux'', de_arch = ''x86_64'', de_fmt1 = (\<lambda>_. ''0.0''), de_clock = (\<lambda>_. 0)\<rparr>"

theorem collection_resilient_witness:
  "map dr_context (db_reports (collect_with_reports bare_env [])) =
     map (\<lambda>path. [(''source'', path)]) [''/proc/meminfo'', ''/proc/diskstats'', ''/proc/net/dev'', ''/proc/mounts'']"
proof -
  have "filter (unreadable bare_env) sources = [''/proc/meminfo'', ''/proc/diskstats'', ''/proc/net/dev'', ''/proc/mounts'']"
    by (simp add: unreadable_def sources_def bare_env_def)
  then show ?thesis using collection_resilient [of bare_env "[]"] by (simp add: Let_def)
qed

text \<open>
  The platform of a collected bundle lists each mounted file system type once, in order, and
  the bundle flags heterogeneous file systems exactly when two mounts have different types.
\<close>

theorem bundle_filesystems:
  "let b = collect_with_reports E reports; types = me_fs_type ` set (pi_mounts (db_platform b)) in
     sorted_wrt (<) (pi_filesystems (db_platform b)) \<and>
     set (pi_filesystems (db_platform b)) = types \<and>
     (''heterogeneous_filesystems'' \<in> categories (db_anomalies b) \<longleftrightarrow> (\<exists>x \<in> types. \<exists>y \<in> types. x \<noteq> y))"
proof -
  have f: "''heterogeneous_filesystems'' \<in> categories (detect_anomalies F mem platform) \<longleftrightarrow>
      length (pi_filesystems platform) > 1" for F mem platform
    by (auto simp: detect_anomalies_def filesystem_categories kernel_categories mount_categories
        memory_anomalies_def Let_def split: option.splits)
  show ?thesis
    by (simp add: collect_with_reports_parts Let_def f distinct_sorted_sorted distinct_sorted_set
        distinct_sorted_many [simplified])
qed

end
