(* ===== verification/Agent_Metrics_Props.thy ===== *)
theory Agent_Metrics_Props
  imports Agent_Metrics
begin

text \<open>
  What the collector's rates and error counts mean: no throughput is reported that two readings
  of a counter do not show, and the error counts of a series of samples add up.
\<close>

section \<open>Lemmas\<close>

lemma as_secs_pos: "0 < ns \<Longrightarrow> ns < 2 ^ 64 \<Longrightarrow> f64_zero < as_secs_f64 ns"
proof -
  assume ns: "0 < ns" "ns < 2 ^ 64"
  have "0 < ns div 10 ^ 9 \<or> 0 < ns mod 10 ^ 9"
    using ns(1) div_mult_mod_eq [of ns "10 ^ 9"] by (metis add_is_0 gr0I mult_0 not_less_zero)
  then show ?thesis unfolding as_secs_f64_def using ns(2) by (intro secs_pos) simp_all
qed

lemma as_secs_0: "\<not> f64_zero < as_secs_f64 0"
  by code_simp

lemma f64_zero_div: "f64_to_u64 (f64_div f64_zero x) = 0"
  by (cases x) (auto simp: f64_zero_def scale2_def round_ratio_def Let_def split: prod.splits)

lemma rate_counted: "rate cur old secs \<noteq> 0 \<Longrightarrow> old < cur"
proof (rule ccontr)
  assume r: "rate cur old secs \<noteq> 0" and "\<not> old < cur"
  then have "saturating_sub cur old = 0" by (auto simp: saturating_sub_def)
  moreover have "f64_of_u64 0 = f64_zero"
    by (simp add: f64_of_u64_def f64_of_nat_def round_ratio_def f64_zero_def)
  ultimately show False using r by (simp add: rate_def f64_zero_div split: if_splits)
qed

lemma elapsed_sinceD: "elapsed_since now pv = Some s \<Longrightarrow> \<exists>p. pv = Some p \<and> pv_at p < now"
proof -
  assume e: "elapsed_since now pv = Some s"
  then obtain p where p: "pv = Some p" "f64_zero < as_secs_f64 (now - pv_at p)"
    by (auto simp: elapsed_since_def Let_def split: option.splits if_splits)
  have "now - pv_at p \<noteq> 0" using p(2) as_secs_0 by (metis (full_types))
  with p(1) show ?thesis by auto
qed

lemma elapsed_sinceI: "pv_at p < now \<Longrightarrow> now < 2 ^ 64 \<Longrightarrow> \<exists>s. elapsed_since now (Some p) = Some s"
  using as_secs_pos [of "now - pv_at p"] by (simp add: elapsed_since_def Let_def)

section \<open>Series of samples\<close>

definition rx_errors_total :: "machine \<Rightarrow> u64" where
  "rx_errors_total mc = (case read_net_dev (mc_files mc) of (_, _, rxe, _) \<Rightarrow> rxe)"

definition tx_errors_total :: "machine \<Rightarrow> u64" where
  "tx_errors_total mc = (case read_net_dev (mc_files mc) of (_, _, _, txe) \<Rightarrow> txe)"

definition rx_sum :: "metrics_report list \<Rightarrow> nat" where
  "rx_sum rs = sum_list (map (\<lambda>r. unat (rx_errors (mr_network r))) rs)"

definition tx_sum :: "metrics_report list \<Rightarrow> nat" where
  "tx_sum rs = sum_list (map (\<lambda>r. unat (tx_errors (mr_network r))) rs)"

lemma sums_simps [simp]:
  "rx_sum [] = 0" "tx_sum [] = 0"
  "rx_sum (r # rs) = unat (rx_errors (mr_network r)) + rx_sum rs"
  "tx_sum (r # rs) = unat (tx_errors (mr_network r)) + tx_sum rs"
  by (simp_all add: rx_sum_def tx_sum_def)

lemma collect_series_fst: "fst (collect_series (mc # ms) c) =
    fst (collect_metrics mc c) # fst (collect_series ms (snd (collect_metrics mc c)))"
  by (simp split: prod.splits)

text \<open>What a sample leaves behind, and what the next one makes of it.\<close>

lemma collect_prev:
  "cl_prev (snd (collect_metrics mc c)) =
    Some \<lparr>pv_at = mc_now mc, pv_disk = read_diskstats (mc_files mc), pv_net = read_net_dev (mc_files mc)\<rparr>"
  by (simp add: collect_metrics_def Let_def split: prod.splits)

lemma collect_network:
  "mr_network (fst (collect_metrics mc c)) =
    build_network (read_net_dev (mc_files mc)) (elapsed_since (mc_now mc) (cl_prev c)) (cl_prev c)"
  by (simp add: collect_metrics_def Let_def split: prod.splits)

lemma collect_errors:
  assumes "cl_prev c = Some p" and "pv_at p < mc_now mc" and "mc_now mc < 2 ^ 64"
    and "pv_net p = read_net_dev (mc_files m0)"
  shows "rx_errors (mr_network (fst (collect_metrics mc c))) =
      saturating_sub (rx_errors_total mc) (rx_errors_total m0)"
    and "tx_errors (mr_network (fst (collect_metrics mc c))) =
      saturating_sub (tx_errors_total mc) (tx_errors_total m0)"
proof -
  obtain s where "elapsed_since (mc_now mc) (cl_prev c) = Some s"
    using elapsed_sinceI assms by metis
  then show "rx_errors (mr_network (fst (collect_metrics mc c))) =
      saturating_sub (rx_errors_total mc) (rx_errors_total m0)"
    and "tx_errors (mr_network (fst (collect_metrics mc c))) =
      saturating_sub (tx_errors_total mc) (tx_errors_total m0)"
    using assms(1,4)
    by (simp_all add: collect_network build_network_def rx_errors_total_def tx_errors_total_def
        split: prod.splits)
qed

lemma series_sums:
  assumes "sorted_wrt (<) (map mc_now (m # ms))" and "\<forall>mc \<in> set ms. mc_now mc < 2 ^ 64"
    and "sorted (map rx_errors_total (m # ms))" and "sorted (map tx_errors_total (m # ms))"
    and "cl_prev c = Some p" and "pv_at p = mc_now m" and "pv_net p = read_net_dev (mc_files m)"
  shows "rx_sum (fst (collect_series ms c)) + unat (rx_errors_total m) = unat (rx_errors_total (last (m # ms))) \<and>
    tx_sum (fst (collect_series ms c)) + unat (tx_errors_total m) = unat (tx_errors_total (last (m # ms)))"
  using assms
proof (induction ms arbitrary: m c p)
  case (Cons mc ms)
  obtain r c1 where c1: "collect_metrics mc c = (r, c1)" by fastforce
  have e: "rx_errors (mr_network r) = saturating_sub (rx_errors_total mc) (rx_errors_total m)"
    "tx_errors (mr_network r) = saturating_sub (tx_errors_total mc) (tx_errors_total m)"
    using collect_errors [of c p mc m] Cons.prems c1 by simp_all
  have le: "unat (rx_errors_total m) \<le> unat (rx_errors_total mc)"
    "unat (tx_errors_total m) \<le> unat (tx_errors_total mc)"
    using Cons.prems(3,4) by (simp_all add: word_le_nat_alt)
  have "rx_sum (fst (collect_series ms c1)) + unat (rx_errors_total mc) = unat (rx_errors_total (last (mc # ms))) \<and>
    tx_sum (fst (collect_series ms c1)) + unat (tx_errors_total mc) = unat (tx_errors_total (last (mc # ms)))"
    by (rule Cons.IH [of mc c1 "\<lparr>pv_at = mc_now mc, pv_disk = read_diskstats (mc_files mc), pv_net = read_net_dev (mc_files mc)\<rparr>"])
      (use Cons.prems collect_prev [of mc c] c1 in simp_all)
  moreover have "last (m # mc # ms) = last (mc # ms)" by simp
  ultimately show ?case
    using le by (simp add: c1 collect_series_fst e unat_saturating_sub del: last.simps collect_series.simps)
qed simp

section \<open>Properties\<close>

text \<open>
  C28: over a series of samples at increasing times, the error counts reported after the first
  sample add up to the growth of the kernel's counters from the first sample to the last, as long
  as the counters do not go backwards: none is lost and none is counted twice.
\<close>

theorem error_counts_add_up:
  assumes "sorted_wrt (<) (map mc_now (m # ms))" and "\<forall>mc \<in> set ms. mc_now mc < 2 ^ 64"
    and "sorted (map rx_errors_total (m # ms))" and "sorted (map tx_errors_total (m # ms))"
    and "collect_series (m # ms) c = (r # rs, c')"
  shows "rx_sum rs = unat (rx_errors_total (last (m # ms))) - unat (rx_errors_total m) \<and>
    tx_sum rs = unat (tx_errors_total (last (m # ms))) - unat (tx_errors_total m)"
proof -
  let ?c = "snd (collect_metrics m c)"
  have rs: "rs = fst (collect_series ms ?c)" using assms(5) by (auto split: prod.splits)
  have later: "\<forall>mc \<in> set ms. mc_now mc < 2 ^ 64" using assms(2) by simp
  note s = series_sums [OF assms(1) later assms(3,4) collect_prev [of m c], simplified prev.simps, OF refl refl]
  show ?thesis
    unfolding rs using s [THEN conjunct1] s [THEN conjunct2] by (intro conjI) linarith+
qed

definition net_file :: "nat \<Rightarrow> files" where
  "net_file n path = (if path = ''/proc/net/dev''
     then Inr (unlines [''eth0: 1 2 '' @ show_nat n @ '' 4 5 6 7 8 9 10 '' @ show_nat n]) else Inl ''no such file'')"

definition idle_machine :: "nat \<Rightarrow> nat \<Rightarrow> machine" where
  "idle_machine now n = \<lparr>mc_sys = \<lparr>sy_cpu_usage = f64_zero, sy_cores = [], sy_total_memory = 0,
       sy_used_memory = 0, sy_available_memory = 0, sy_total_swap = 0, sy_used_swap = 0\<rparr>,
     mc_load = (f64_zero, f64_zero, f64_zero), mc_disks = [], mc_files = net_file n, mc_now = now, mc_unix = 0\<rparr>"

definition idle_collector :: collector where
  "idle_collector = collector_new ''n1'' Compute (mc_sys (idle_machine 0 0))"

theorem error_counts_add_up_witness:
  "rx_sum (tl (fst (collect_series [idle_machine 1 3, idle_machine 2 5, idle_machine 9 11] idle_collector))) = 8"
proof -
  have t: "rx_errors_total (idle_machine a 3) = 3" "rx_errors_total (idle_machine a 5) = 5"
    "rx_errors_total (idle_machine a 11) = 11" "tx_errors_total (idle_machine a 3) = 3"
    "tx_errors_total (idle_machine a 5) = 5" "tx_errors_total (idle_machine a 11) = 11" for a
    by code_simp+
  obtain r rs c' where c: "collect_series [idle_machine 1 3, idle_machine 2 5, idle_machine 9 11] idle_collector = (r # rs, c')"
    by (metis collect_series_fst eq_fst_iff)
  have n: "mc_now (idle_machine a n) = a" for a n by (simp add: idle_machine_def)
  have "rx_sum rs = 8"
    using error_counts_add_up [OF _ _ _ _ c] by (simp add: n t)
  then show ?thesis by (simp only: c fst_conv list.sel)
qed

text \<open>
  Two readings of a disk's counters (bytes read and written), or of the network's (bytes received
  and sent), \<open>ns\<close> nanoseconds apart: the previous sample's and the one being taken.
\<close>

definition disk_readings :: "collector \<Rightarrow> machine \<Rightarrow> string \<Rightarrow> nat \<Rightarrow> u64 \<times> u64 \<Rightarrow> u64 \<times> u64 \<Rightarrow> bool" where
  "disk_readings c mc dev ns old cur \<longleftrightarrow> (\<exists>p. cl_prev c = Some p \<and> pv_at p < mc_now mc \<and> ns = mc_now mc - pv_at p \<and>
     map_of (pv_disk p) dev = Some old \<and> map_of (read_diskstats (mc_files mc)) dev = Some cur)"

definition net_readings :: "collector \<Rightarrow> machine \<Rightarrow> nat \<Rightarrow> u64 \<times> u64 \<Rightarrow> u64 \<times> u64 \<Rightarrow> bool" where
  "net_readings c mc ns old cur \<longleftrightarrow> (\<exists>p. cl_prev c = Some p \<and> pv_at p < mc_now mc \<and> ns = mc_now mc - pv_at p \<and>
     (\<exists>rxe txe. pv_net p = (fst old, snd old, rxe, txe)) \<and>
     (\<exists>rxe txe. read_net_dev (mc_files mc) = (fst cur, snd cur, rxe, txe)))"

text \<open>The growth of a counter over \<open>ns\<close> nanoseconds, in units per second.\<close>

definition growth_rate :: "u64 \<Rightarrow> u64 \<Rightarrow> nat \<Rightarrow> u64" where
  "growth_rate old cur ns =
     (if old < cur then f64_to_u64 (f64_div (f64_of_u64 (cur - old)) (as_secs_f64 ns)) else 0)"

lemma rate_growth:
  assumes "0 < ns" and "ns < 2 ^ 64"
  shows "rate cur old (as_secs_f64 ns) = growth_rate old cur ns"
proof (cases "old < cur")
  case True
  have "\<not> as_secs_f64 ns \<le> f64_zero"
    using as_secs_pos [OF assms] f64_not_le_less f64_ge_not_NaN by (metis NaN_ord(3,4) f64_zero_def f64.distinct(3))
  then show ?thesis using True by (simp add: rate_def growth_rate_def saturating_sub_def not_less order.order_iff_strict)
next
  case False
  then show ?thesis using rate_counted [of cur old] by (auto simp: growth_rate_def)
qed

lemma elapsed_since_ns:
  "pv_at p < now \<Longrightarrow> now < 2 ^ 64 \<Longrightarrow> elapsed_since now (Some p) = Some (as_secs_f64 (now - pv_at p))"
  using as_secs_pos [of "now - pv_at p"] by (simp add: elapsed_since_def Let_def)

text \<open>A rate of one disk, and of the network, that is not zero needs two readings.\<close>

lemma disk_rate_needs:
  assumes "read_bytes_per_sec (build_disk io (elapsed_since now pv) pv d) \<noteq> 0 \<or>
    write_bytes_per_sec (build_disk io (elapsed_since now pv) pv d) \<noteq> 0"
  obtains p old cur where "pv = Some p" and "pv_at p < now"
    and "map_of (pv_disk p) (short_name (sd_name d)) = Some old" and "map_of io (short_name (sd_name d)) = Some cur"
    and "read_bytes_per_sec (build_disk io (elapsed_since now pv) pv d) \<noteq> 0 \<Longrightarrow> fst old < fst cur"
    and "write_bytes_per_sec (build_disk io (elapsed_since now pv) pv d) \<noteq> 0 \<Longrightarrow> snd old < snd cur"
proof (cases "elapsed_since now pv")
  case (Some s)
  then obtain p where p: "pv = Some p" "pv_at p < now" using elapsed_sinceD by blast
  let ?cur = "unwrap_or (0, 0) (map_of io (short_name (sd_name d)))"
  let ?old = "unwrap_or ?cur (map_of (pv_disk p) (short_name (sd_name d)))"
  have b: "read_bytes_per_sec (build_disk io (elapsed_since now pv) pv d) = rate (fst ?cur) (fst ?old) s"
    "write_bytes_per_sec (build_disk io (elapsed_since now pv) pv d) = rate (snd ?cur) (snd ?old) s"
    using Some p(1) by (simp_all add: build_disk_def Let_def)
  have "fst ?old < fst ?cur \<or> snd ?old < snd ?cur" using assms rate_counted unfolding b by blast
  then obtain old cur where "map_of (pv_disk p) (short_name (sd_name d)) = Some old"
    "map_of io (short_name (sd_name d)) = Some cur"
    by (auto simp: unwrap_or_def split: option.splits)
  with p that [of p old cur] rate_counted show thesis unfolding b by (simp add: unwrap_or_def)
qed (use assms in \<open>simp add: build_disk_def Let_def\<close>)

lemma net_rate_needs:
  assumes "rx_bytes_per_sec (build_network (rx, tx, rxe, txe) (elapsed_since now pv) pv) \<noteq> 0 \<or>
    tx_bytes_per_sec (build_network (rx, tx, rxe, txe) (elapsed_since now pv) pv) \<noteq> 0"
  obtains p rx0 tx0 rxe0 txe0 where "pv = Some p" and "pv_at p < now" and "pv_net p = (rx0, tx0, rxe0, txe0)"
    and "rx_bytes_per_sec (build_network (rx, tx, rxe, txe) (elapsed_since now pv) pv) \<noteq> 0 \<Longrightarrow> rx0 < rx"
    and "tx_bytes_per_sec (build_network (rx, tx, rxe, txe) (elapsed_since now pv) pv) \<noteq> 0 \<Longrightarrow> tx0 < tx"
proof (cases "elapsed_since now pv")
  case (Some s)
  then obtain p where p: "pv = Some p" "pv_at p < now" using elapsed_sinceD by blast
  obtain rx0 tx0 rxe0 txe0 where n: "pv_net p = (rx0, tx0, rxe0, txe0)" by (metis prod_cases4)
  show thesis
    by (rule that [OF p n]) (use Some p n rate_counted in \<open>simp_all add: build_network_def\<close>)
qed (use assms in \<open>simp add: build_network_def default_network_def\<close>)

text \<open>
  C29: throughputs are what two readings show. A disk whose read (write) rate is not zero was in the
  previous sample, taken earlier, with a smaller counter of bytes read (written), so a first
  sample, a new or vanished device, a counter reset and a clock that has not moved all report
  zero; and with two readings each rate is the growth of its own counter over the elapsed
  time. Likewise the network, for the bytes received and the bytes sent.
\<close>

theorem rates_are_observed:
  assumes "collect_metrics mc c = (r, c')"
  shows "length (mr_disks r) = length (mc_disks mc) \<and>
    (\<forall>i < length (mc_disks mc). let dev = short_name (sd_name (mc_disks mc ! i)); d = mr_disks r ! i in
       (read_bytes_per_sec d \<noteq> 0 \<longrightarrow> (\<exists>ns old cur. disk_readings c mc dev ns old cur \<and> fst old < fst cur)) \<and>
       (write_bytes_per_sec d \<noteq> 0 \<longrightarrow> (\<exists>ns old cur. disk_readings c mc dev ns old cur \<and> snd old < snd cur)) \<and>
       (\<forall>ns old cur. mc_now mc < 2 ^ 64 \<and> disk_readings c mc dev ns old cur \<longrightarrow>
          read_bytes_per_sec d = growth_rate (fst old) (fst cur) ns \<and>
          write_bytes_per_sec d = growth_rate (snd old) (snd cur) ns)) \<and>
    (rx_bytes_per_sec (mr_network r) \<noteq> 0 \<longrightarrow> (\<exists>ns old cur. net_readings c mc ns old cur \<and> fst old < fst cur)) \<and>
    (tx_bytes_per_sec (mr_network r) \<noteq> 0 \<longrightarrow> (\<exists>ns old cur. net_readings c mc ns old cur \<and> snd old < snd cur)) \<and>
    (\<forall>ns old cur. mc_now mc < 2 ^ 64 \<and> net_readings c mc ns old cur \<longrightarrow>
       rx_bytes_per_sec (mr_network r) = growth_rate (fst old) (fst cur) ns \<and>
       tx_bytes_per_sec (mr_network r) = growth_rate (snd old) (snd cur) ns)"
proof -
  let ?e = "elapsed_since (mc_now mc) (cl_prev c)" and ?io = "read_diskstats (mc_files mc)"
  let ?d = "build_disk ?io ?e (cl_prev c)"
  have disks: "mr_disks r = map ?d (mc_disks mc)"
    using assms by (auto simp: collect_metrics_def build_disks_def Let_def split: prod.splits)
  obtain rx tx rxe txe where cur: "read_net_dev (mc_files mc) = (rx, tx, rxe, txe)" by (metis prod_cases4)
  have net: "mr_network r = build_network (rx, tx, rxe, txe) ?e (cl_prev c)"
    using assms collect_network [of mc c] by (simp add: cur)
  have d1: "\<exists>ns old cur. disk_readings c mc (short_name (sd_name d)) ns old cur \<and> fst old < fst cur"
    if "read_bytes_per_sec (?d d) \<noteq> 0" for d
    using that by (auto simp: disk_readings_def intro: disk_rate_needs [of ?io "mc_now mc" "cl_prev c" d])
  have d2: "\<exists>ns old cur. disk_readings c mc (short_name (sd_name d)) ns old cur \<and> snd old < snd cur"
    if "write_bytes_per_sec (?d d) \<noteq> 0" for d
    using that by (auto simp: disk_readings_def intro: disk_rate_needs [of ?io "mc_now mc" "cl_prev c" d])
  have d3: "read_bytes_per_sec (?d d) = growth_rate (fst old) (fst cur) ns \<and>
      write_bytes_per_sec (?d d) = growth_rate (snd old) (snd cur) ns"
    if "mc_now mc < 2 ^ 64" "disk_readings c mc (short_name (sd_name d)) ns old cur" for d ns old cur
    using that by (auto simp: disk_readings_def build_disk_def elapsed_since_ns rate_growth unwrap_or_def Let_def)
  have n1: "\<exists>ns old cur. net_readings c mc ns old cur \<and> fst old < fst cur" if "rx_bytes_per_sec (mr_network r) \<noteq> 0"
    using that unfolding net
    by (auto simp: net_readings_def cur intro: net_rate_needs [of rx tx rxe txe "mc_now mc" "cl_prev c"])
  have n2: "\<exists>ns old cur. net_readings c mc ns old cur \<and> snd old < snd cur" if "tx_bytes_per_sec (mr_network r) \<noteq> 0"
    using that unfolding net
    by (auto simp: net_readings_def cur intro: net_rate_needs [of rx tx rxe txe "mc_now mc" "cl_prev c"])
  have n3: "rx_bytes_per_sec (mr_network r) = growth_rate (fst old) (fst cr) ns \<and>
      tx_bytes_per_sec (mr_network r) = growth_rate (snd old) (snd cr) ns"
    if "mc_now mc < 2 ^ 64" "net_readings c mc ns old cr" for ns old cr
    using that by (auto simp: net net_readings_def build_network_def elapsed_since_ns rate_growth cur)
  have at: "mr_disks r ! i = ?d (mc_disks mc ! i)" if "i < length (mc_disks mc)" for i
    using that by (simp add: disks)
  show ?thesis
    unfolding Let_def
  proof (intro conjI allI impI, goal_cases)
    case 1
    show ?case by (simp add: disks)
  qed (use d1 d2 d3 n1 n2 n3 at in metis)+
qed

text \<open>A machine with one disk and one interface, at \<open>now\<close> nanoseconds.\<close>

definition busy_files :: "nat \<Rightarrow> nat \<Rightarrow> nat \<Rightarrow> nat \<Rightarrow> files" where
  "busy_files rd wr rx tx path =
     (if path = ''/proc/diskstats'' then Inr (unlines [''8 0 sda 1 0 '' @ show_nat rd @ '' 0 1 0 '' @ show_nat wr])
      else if path = ''/proc/net/dev''
      then Inr (unlines [''eth0: '' @ show_nat rx @ '' 2 0 4 5 6 7 8 '' @ show_nat tx @ '' 10 0'']) else Inl ''no such file'')"

definition busy_machine :: "nat \<Rightarrow> nat \<Rightarrow> nat \<Rightarrow> nat \<Rightarrow> nat \<Rightarrow> machine" where
  "busy_machine now rd wr rx tx = (idle_machine now 0)\<lparr>mc_files := busy_files rd wr rx tx, mc_disks :=
     [\<lparr>sd_name = ''/dev/sda'', sd_mount_point = ''/'', sd_file_system = ''ext4'', sd_total_space = 0, sd_available_space = 0\<rparr>]\<rparr>"

lemma secs_one_and_half: "as_secs_f64 1500000000 = Finite False 6755399441055744 (-52)"
proof -
  have "f64_of_nat 1 = Finite False 4503599627370496 (-52)" "f64_of_nat 500000000 = Finite False 8388608000000000 (-24)"
    "f64_of_nat 1000000000 = Finite False 8388608000000000 (-23)"
    "f64_div (Finite False 8388608000000000 (-24)) (Finite False 8388608000000000 (-23)) =
      Finite False 4503599627370496 (-53)"
    by code_simp+
  moreover have "f64_add (Finite False 4503599627370496 (-52)) (Finite False 4503599627370496 (-53)) =
      round_ratio False 13510798882111488 (2 ^ 53)"
    by (simp add: scale2_def signed_mant_def)
  moreover have "round_ratio False 13510798882111488 9007199254740992 = Finite False 6755399441055744 (-52)"
    by code_simp
  ultimately show ?thesis
    by (simp add: as_secs_f64_def del: f64_add.simps f64_div.simps One_nat_def)
qed

lemma sample_rate_2048: "f64_to_u64 (f64_div (f64_of_u64 3072) (Finite False 6755399441055744 (-52))) = 2048"
  by code_simp

lemma sample_rate_1024: "f64_to_u64 (f64_div (f64_of_u64 1536) (Finite False 6755399441055744 (-52))) = 1024"
  by code_simp

lemmas sample_rates = sample_rate_2048 sample_rate_1024

theorem rates_are_observed_witness:
  "let c = snd (collect_metrics (busy_machine 1000000000 2 4 3000 0) idle_collector);
       r = fst (collect_metrics (busy_machine 2500000000 8 7 6072 1536) c)
   in map read_bytes_per_sec (mr_disks r) = [2048] \<and> map write_bytes_per_sec (mr_disks r) = [1024] \<and>
      rx_bytes_per_sec (mr_network r) = 2048 \<and> tx_bytes_per_sec (mr_network r) = 1024"
proof -
  let ?m0 = "busy_machine 1000000000 2 4 3000 0" and ?m1 = "busy_machine 2500000000 8 7 6072 1536"
  let ?c = "snd (collect_metrics ?m0 idle_collector)"
  obtain r c' where c: "collect_metrics ?m1 ?c = (r, c')" by fastforce
  have io: "read_diskstats (mc_files ?m0) = [(''sda'', (1024, 2048))]"
    "read_diskstats (mc_files ?m1) = [(''sda'', (4096, 3584))]"
    "read_net_dev (mc_files ?m0) = (3000, 0, 0, 0)" "read_net_dev (mc_files ?m1) = (6072, 1536, 0, 0)"
    by code_simp+
  have now: "mc_now ?m0 = 1000000000" "mc_now ?m1 = 2500000000" by (simp_all add: busy_machine_def idle_machine_def)
  have dev: "mc_disks ?m1 = [\<lparr>sd_name = ''/dev/sda'', sd_mount_point = ''/'', sd_file_system = ''ext4'',
      sd_total_space = 0, sd_available_space = 0\<rparr>]" "short_name ''/dev/sda'' = ''sda''"
    by (simp_all add: busy_machine_def short_name_def)
  have d: "disk_readings ?c ?m1 ''sda'' 1500000000 (1024, 2048) (4096, 3584)"
    by (simp add: disk_readings_def collect_prev io now)
  have n: "net_readings ?c ?m1 1500000000 (3000, 0) (6072, 1536)"
    by (simp add: net_readings_def collect_prev io now)
  have g: "growth_rate 1024 4096 1500000000 = 2048" "growth_rate 2048 3584 1500000000 = 1024"
    "growth_rate 3000 6072 1500000000 = 2048" "growth_rate 0 1536 1500000000 = 1024"
    by (simp_all add: growth_rate_def secs_one_and_half sample_rates del: f64_div.simps f64_to_u64.simps)
  note w = rates_are_observed [OF c, unfolded dev]
  have "length (mr_disks r) = 1" using w by simp
  moreover have "read_bytes_per_sec (mr_disks r ! 0) = 2048 \<and> write_bytes_per_sec (mr_disks r ! 0) = 1024"
    using w d now(2) g by (simp add: dev Let_def)
  moreover have "rx_bytes_per_sec (mr_network r) = 2048 \<and> tx_bytes_per_sec (mr_network r) = 1024"
    using w n now(2) g by fastforce
  ultimately show ?thesis unfolding c Let_def by (cases "mr_disks r") simp_all
qed

end
