(* ===== verification/Spec2Isabelle.thy ===== *)
theory Spec2Isabelle
  imports Sessions Raw_Bench Services Diagnostics_Props Agent_Metrics_Props
begin

text \<open>
  A model of \<open>hpc\<close>, a cluster manager written in Rust, and the theorems that make it correct.

  THE PROGRAM. A daemon (\<open>hpc-daemon\<close>) keeps a table of nodes. On every node an agent
  (\<open>hpc-agent\<close>) registers over gRPC, sends samples and heartbeats, and executes the commands the
  daemon pushes down its stream. Operators use a command line (\<open>hpc-cli\<close>) and a monitor
  (\<open>hpc-monitor\<close>) scrapes the cluster, both over the daemon's REST API. The daemon mirrors its table
  in a redb database and recovers it on restart. Beside these stand a diagnostics tool
  (\<open>hpc-diag\<close>), two disk benchmarks (\<open>hpc-bench\<close>) and a C shim for block I/O (\<open>hpc-ffi\<close>).

  HOW THE CODE IS MODELLED. A struct is a record, an enum a datatype, an error a value of
  \<open>hpc_error\<close> in a sum; \<open>u64\<close>, \<open>u32\<close> and \<open>i32\<close> are words that wrap and saturate as in Rust, and \<open>f64\<close>
  is IEEE binary64 computed on integers. A \<open>String\<close> is the list of its UTF-8 bytes, a \<open>HashMap\<close> an
  association list, a \<open>BTreeMap\<close> a sorted one. A method takes the state and returns its result and
  the new state; what it runs under one lock is a definition of its own, so that interleavings can
  be stated. What is not under \<open>src/\<close> (redb, serde_json, tokio, tonic, axum, reqwest, sysinfo,
  prometheus, the kernel, clocks, random numbers) is an argument of the definitions that use it;
  what the code relies on is a locale or a named hypothesis.

  THE THEORIES.
  Foundations: \<open>Prelude\<close> (words, results, maps), \<open>F64\<close> (doubles, rounding, exactness),
  \<open>Text\<close> (string methods of the standard library, printing and parsing of numbers).
  Core: \<open>Hpc_Types\<close> (\<open>types.rs\<close>, \<open>error.rs\<close>), \<open>Config\<close> (\<open>config.rs\<close>: loading, defaults, exactly which
  configurations are valid).
  Wire: \<open>Proto\<close> (\<open>hpc.proto\<close> and both copies of \<open>proto.rs\<close>); the locale \<open>wire_codec\<close> proves round trips
  once, and every message is an interpretation of it.
  Daemon: \<open>Store\<close> (\<open>store.rs\<close> over the locales \<open>redb_engine\<close> and \<open>json_codec\<close>, which give the
  locale \<open>durable_store\<close>); \<open>Cluster_State\<close> (\<open>state.rs\<close>); \<open>Sample\<close> (concrete values);
  \<open>Cluster_Lemmas\<close> (the abstract node table, its invariant in every interleaving, sweeps, listing);
  \<open>Cluster_Refine\<close> and \<open>Cluster_Durability\<close> (memory refines the store, what a restart recovers,
  and what goes wrong: non-finite samples, late registrations); \<open>Grpc\<close> (the calls of \<open>grpc.rs\<close>);
  \<open>Command_Streams\<close> (its command streams as a step relation: order, at most once, back pressure, the race
  of a reconnecting agent); \<open>Api\<close> and \<open>Rest\<close> (\<open>api.rs\<close>: handlers, routes, bodies, responses).
  Agent: \<open>Executor\<close> (\<open>executor.rs\<close>), \<open>Agent_Client\<close> (\<open>client.rs\<close>: session and back-off), \<open>Proc_Fs\<close> and
  \<open>Proc_Readers\<close> (readers of \<open>/proc\<close> in \<open>proc.rs\<close> and in the agent), \<open>Agent_Metrics\<close> and
  \<open>Agent_Metrics_Props\<close> (\<open>metrics.rs\<close>: the collector, what its rates mean).
  Monitor: \<open>Monitor\<close> (\<open>health.rs\<close>, \<open>metrics.rs\<close>: policy, exported series, registration, messages).
  Command line: \<open>Cli\<close> and \<open>Cli_Main\<close> (\<open>output.rs\<close>, \<open>client.rs\<close>, \<open>commands/\<close>, \<open>main.rs\<close>).
  Diagnostics: \<open>Diagnostics\<close>, \<open>Diagnostics_Props\<close> (\<open>report.rs\<close>, \<open>lib.rs\<close>, \<open>main.rs\<close>).
  Benchmarks: \<open>Bench\<close>, \<open>Bench_Props\<close> (\<open>hpc-bench/src/lib.rs\<close>); \<open>Block_File\<close> (\<open>hpc_io.c\<close> and
  \<open>hpc-ffi/src/lib.rs\<close>, over the locale \<open>posix\<close>); \<open>Raw_Bench\<close> (\<open>ffi_raw.rs\<close>).

  HOW THE PARTS MEET. \<open>Control_Plane\<close> lets the daemon's model answer an agent's session: a command
  accepted at the REST boundary is the one the agent runs, its outcome is in the audit log, and a
  beating agent stays registered. \<open>Sessions\<close> states what a session needs of its peer as the locales
  \<open>keeping_peer\<close> and \<open>logging_peer\<close>, discharged for the daemon on a lawful store whose writes succeed
  (\<open>served_agent\<close>), and interleaves a session with any steps of a daemon that serves others
  (\<open>joint_run\<close>), which may deregister the node or fail to write, also between the receipt of a
  command and its handling: every command received but the one in hand is in the audit log, why a
  session ends is told, and an acknowledged request can be carried through to the log by the task
  of the stream and the session alone. \<open>Cli_Daemon\<close> lets it answer the command line: what is
  typed is what is enqueued, and a refusal is printed with its reason. \<open>Services\<close> holds the three \<open>main.rs\<close> files: a silent node is reported in time by
  the reaper as the daemon starts it, and an answered scrape makes every series the monitor exports a picture
  of the table.

  LOOPS. Structural recursion where the code iterates over a list; measures for the text
  functions, the preparation of the scratch file and the scaling of byte counts. The transfer
  loops of the C shim may not end, so they are partial functions into an option; \<open>posix\<close> gives
  the bound (interruptions are finite, a transfer moves a byte) under which they are proved to
  return, and \<open>zero_write_hangs\<close> shows the environment in which they do not. The endless loops
  (reconnecting, scraping, reaping, the stream task) are runs over a finite list of events or
  steps of any length.

  NOT MODELLED. Parsing of command lines (clap) and of TOML, JSON text, protobuf bytes, TLS and
  HTTP; logging, except which nodes the reaper and the monitor announce; signals and the
  \<open>select!\<close> of the three services; derived \<open>Clone\<close>, \<open>Debug\<close> and \<open>Serialize\<close>; the statistics of the
  latency histogram, the drawing of tables and the decimal rendering of doubles (arguments); the
  build scripts, the criterion benches and the tests. Handlers of the REST API that take two
  locks run without interruption, but for the status page, which is given the state at either
  lock. So do the calls of a session in a joint run with the daemon, and a connection breaks there only as
  its stream's end. That writes to the store succeed (\<open>reliable_store\<close>) is a condition of the
  theorems that name it, not a promise of redb. Sums of the agent's \<open>/proc\<close> readers wrap, as in a
  release build. Offsets within the C shim are unbounded integers, which differ from its \<open>int64_t\<close>
  only for a block that would end beyond \<open>2 ^ 63\<close>; the cast of a negated error number to \<open>i32\<close>
  when its message is looked up is left out.
\<close>

end
